(* ===== verification/Prelude.thy ===== *)
theory Prelude
  imports Complex_Main "HOL-Library.Multiset"
begin

text \<open>
  Shared vocabulary of the development: the Python exceptions the modelled pandas calls
  raise (as values of \<open>py_error\<close>), the result type \<open>'a result\<close> of a call that may
  raise, the missing-value helpers on \<open>'a option list\<close> columns (\<open>None\<close> is pandas'
  NaN), and generic lemmas on lists and real sums that several components share
  (a list form of the Cauchy--Schwarz inequality, used by the correlation bounds).
\<close>

section \<open>Exceptions and results\<close>

text \<open>
  The warning classes the script's libraries issue: Python's built-in subclasses of
  \<open>Warning\<close>, pandas' \<open>DtypeWarning\<close> and \<open>SettingWithCopyWarning\<close> (subclasses of
  \<open>Warning\<close>) and matplotlib's \<open>MatplotlibDeprecationWarning\<close> (a subclass of
  \<open>DeprecationWarning\<close>).
\<close>

datatype category =
    Warning | UserWarning | DeprecationWarning | PendingDeprecationWarning | SyntaxWarning
  | RuntimeWarning | FutureWarning | ImportWarning | UnicodeWarning | BytesWarning
  | ResourceWarning | DtypeWarning | SettingWithCopyWarning | MatplotlibDeprecationWarning

datatype py_error =
    FileNotFoundError string
  | EmptyDataError
  | ParserError nat nat nat   \<comment> \<open>expected fields, line number, fields seen\<close>
  | ParserErrorEOF nat        \<comment> \<open>\<open>EOF inside string starting at row n\<close>, also a \<open>ParserError\<close>\<close>
  | ImplicitIndex nat         \<comment> \<open>not raised: see below\<close>
  | KeyError string
  | RowKeyError nat           \<comment> \<open>KeyError raised for a row label\<close>
  | TypeError string
  | ValueError string
  | NameError string          \<comment> \<open>a variable used before the line that assigns it ran\<close>
  | ModuleNotFoundError string \<comment> \<open>\<open>No module named 'm'\<close>, raised by an import\<close>
  | WarningRaised category string \<comment> \<open>a warning an \<open>error\<close> filter turned into an exception\<close>

text \<open>
  \<open>ImplicitIndex k\<close> is the one value of \<open>py_error\<close> that is not an exception: when the
  first data row of a CSV file has \<open>k > 0\<close> more fields than the header, pandas reads
  the first \<open>k\<close> fields of every row as the row index. A frame of this development has
  a \<open>RangeIndex\<close>, so the model of \<open>read_csv\<close> stops there with this value instead of
  inventing a frame.
\<close>

type_synonym 'a result = "py_error + 'a"

named_theorems frame_simps "equations of the frame operations used by the component proofs"

section \<open>Missing values\<close>

text \<open>
  A pandas column holds values or NaN; \<open>None\<close> is NaN. \<open>dropna\<close> keeps the values
  in order (what the NaN-skipping reductions \<open>count\<close>, \<open>mean\<close>, \<open>std\<close>, \<open>skew\<close>
  see), \<open>count_none\<close> counts the NaNs (\<open>isnull().sum()\<close>).
\<close>

fun dropna :: "'a option list \<Rightarrow> 'a list" where
  "dropna [] = []"
| "dropna (None # xs) = dropna xs"
| "dropna (Some x # xs) = x # dropna xs"

definition count_none :: "'a option list \<Rightarrow> nat" where
  "count_none xs = length (filter (\<lambda>x. x = None) xs)"

lemma count_none_simps [simp]:
  "count_none [] = 0"
  "count_none (None # xs) = Suc (count_none xs)"
  "count_none (Some x # xs) = count_none xs"
  by (simp_all add: count_none_def)

lemma count_none_append [simp]: "count_none (xs @ ys) = count_none xs + count_none ys"
  by (simp add: count_none_def)

lemma length_dropna: "length (dropna xs) + count_none xs = length xs"
  by (induction xs rule: dropna.induct) auto

lemma length_not_none: "length (filter Not (map (\<lambda>x. x = None) xs)) + count_none xs = length xs"
  by (induction xs rule: dropna.induct) auto

lemma count_none_le_length: "count_none xs \<le> length xs"
  by (simp add: count_none_def)

lemma count_none_eq_0: "count_none xs = 0 \<longleftrightarrow> None \<notin> set xs"
  by (induction xs rule: dropna.induct) auto

lemma dropna_all_Some: "dropna (map Some xs) = xs"
  by (induction xs) auto

lemma dropna_map_option [simp]: "dropna (map (map_option f) xs) = map f (dropna xs)"
  by (induction xs rule: dropna.induct) auto

lemma sum_list_mset_eq:
  fixes g :: "'a \<Rightarrow> 'b::comm_monoid_add"
  shows "mset ys = mset xs \<Longrightarrow> sum_list (map g ys) = sum_list (map g xs)"
proof -
  assume m: "mset ys = mset xs"
  have "sum_list (map g ys) = sum_mset (image_mset g (mset ys))"
    by (simp flip: sum_mset_sum_list)
  also have "\<dots> = sum_list (map g xs)"
    by (simp add: m flip: sum_mset_sum_list)
  finally show ?thesis .
qed

lemma sum_list_map_uminus:
  fixes f :: "'a \<Rightarrow> 'b::ab_group_add"
  shows "(\<Sum>x\<leftarrow>xs. - f x) = - (\<Sum>x\<leftarrow>xs. f x)"
  by (induction xs) auto

lemma set_dropna: "set (dropna xs) = {x. Some x \<in> set xs}"
  by (induction xs rule: dropna.induct) auto

lemma filter_eq_Cons_mem: "filter P xs = y # ys \<Longrightarrow> y \<in> set xs \<and> P y"
proof -
  assume "filter P xs = y # ys"
  then have "y \<in> set (filter P xs)" by simp
  then show ?thesis by simp
qed

lemma fst_comp_map_value [simp]: "fst \<circ> (\<lambda>(n, c). (n, f c)) = fst"
  by auto

lemma map_of_filter_Some:
  assumes "distinct (map fst xs)"
  shows "map_of (filter P xs) k = Some v \<longleftrightarrow> (k, v) \<in> set xs \<and> P (k, v)"
proof -
  have "distinct (map fst (filter P xs))"
    using assms by (simp add: distinct_map_filter)
  then show ?thesis
    using assms by (simp add: map_of_eq_Some_iff)
qed

lemma find_Some_mem: "find P xs = Some x \<Longrightarrow> x \<in> set xs \<and> P x"
  by (induction xs) (auto split: if_splits)

lemma fold_max_nat_0: "fold max ms (m::nat) = 0 \<longleftrightarrow> m = 0 \<and> (\<forall>x\<in>set ms. x = 0)"
  by (induction ms arbitrary: m) auto

section \<open>Sums of reals over lists\<close>

text \<open>
  The cross term of the Cauchy--Schwarz inequality, summed over a list of pairs:
  \<open>\<Sum>(a*y - b*x)\<^sup>2 = a\<^sup>2 \<Sum>y\<^sup>2 - 2ab \<Sum>xy + b\<^sup>2 \<Sum>x\<^sup>2\<close>.
\<close>

lemma sum_list_cross_square:
  fixes a b :: real
  shows "(\<Sum>(x, y)\<leftarrow>ps. (a * y - b * x)\<^sup>2) =
    a\<^sup>2 * (\<Sum>(x, y)\<leftarrow>ps. y\<^sup>2) - 2 * a * b * (\<Sum>(x, y)\<leftarrow>ps. x * y) + b\<^sup>2 * (\<Sum>(x, y)\<leftarrow>ps. x\<^sup>2)"
  by (induction ps) (auto simp: power2_eq_square algebra_simps)

lemma cauchy_schwarz_list:
  fixes ps :: "(real \<times> real) list"
  shows "(\<Sum>(x, y)\<leftarrow>ps. x * y)\<^sup>2 \<le> (\<Sum>(x, y)\<leftarrow>ps. x\<^sup>2) * (\<Sum>(x, y)\<leftarrow>ps. y\<^sup>2)"
proof (induction ps)
  case Nil
  then show ?case by simp
next
  case (Cons p ps)
  obtain a b where p: "p = (a, b)" by fastforce
  define A where "A = (\<Sum>(x, y)\<leftarrow>ps. x\<^sup>2)"
  define B where "B = (\<Sum>(x, y)\<leftarrow>ps. y\<^sup>2)"
  define C where "C = (\<Sum>(x, y)\<leftarrow>ps. x * y)"
  have IH: "C\<^sup>2 \<le> A * B" using Cons.IH by (simp add: A_def B_def C_def)
  have "0 \<le> (\<Sum>(x, y)\<leftarrow>ps. (a * y - b * x)\<^sup>2)"
    by (rule sum_list_nonneg) auto
  then have cross: "2 * a * b * C \<le> a\<^sup>2 * B + b\<^sup>2 * A"
    by (simp add: sum_list_cross_square A_def B_def C_def)
  have "(a * b + C)\<^sup>2 = a\<^sup>2 * b\<^sup>2 + 2 * a * b * C + C\<^sup>2"
    by (simp add: power2_eq_square algebra_simps)
  also have "\<dots> \<le> a\<^sup>2 * b\<^sup>2 + (a\<^sup>2 * B + b\<^sup>2 * A) + A * B"
    using cross IH by linarith
  also have "\<dots> = (a\<^sup>2 + A) * (b\<^sup>2 + B)"
    by (simp add: algebra_simps)
  finally show ?case by (simp add: p A_def B_def C_def)
qed

end
