(* ===== verification/Frame.thy ===== *)
theory Frame
  imports Prelude
begin

text \<open>
  The pandas \<open>DataFrame\<close> the script holds in \<open>df_train\<close>: a row index (the
  \<open>RangeIndex\<close> labels \<open>read_csv\<close> assigns) and an ordered list of named columns,
  each of one dtype: numeric (\<open>NumCol\<close>, float64/int64 read as exact reals) or object
  (\<open>StrCol\<close>, the raw strings). \<open>None\<close> is NaN. The operations are the frame calls
  of src/house_prices_eda.py: column selection \<open>df[name]\<close>, \<open>isnull().sum()\<close>,
  \<open>isnull().count()\<close>, \<open>drop(labels, 1)\<close> (columns), \<open>drop(labels)\<close> (rows),
  \<open>loc[mask].index\<close> and \<open>isnull().sum().max()\<close>. \<open>wf_frame\<close> is the frame
  invariant (unique labels, one value per row in every column) and every operation
  keeps it.
\<close>

section \<open>Columns and frames\<close>

datatype column = NumCol "real option list" | StrCol "string option list"

primrec col_isnull :: "column \<Rightarrow> bool list" where
  "col_isnull (NumCol xs) = map (\<lambda>x. x = None) xs"
| "col_isnull (StrCol xs) = map (\<lambda>x. x = None) xs"

primrec col_len :: "column \<Rightarrow> nat" where
  "col_len (NumCol xs) = length xs"
| "col_len (StrCol xs) = length xs"

primrec col_nulls :: "column \<Rightarrow> nat" where
  "col_nulls (NumCol xs) = count_none xs"
| "col_nulls (StrCol xs) = count_none xs"

text \<open>Keeping the rows a boolean mask selects, in every column alike.\<close>

definition mask_keep :: "bool list \<Rightarrow> 'a list \<Rightarrow> 'a list" where
  "mask_keep bs xs = map snd (filter fst (zip bs xs))"

primrec col_keep :: "bool list \<Rightarrow> column \<Rightarrow> column" where
  "col_keep bs (NumCol xs) = NumCol (mask_keep bs xs)"
| "col_keep bs (StrCol xs) = StrCol (mask_keep bs xs)"

record frame =
  index :: "nat list"
  columns :: "(string \<times> column) list"

definition col_names :: "frame \<Rightarrow> string list" where
  "col_names df = map fst (columns df)"

definition wf_frame :: "frame \<Rightarrow> bool" where
  "wf_frame df \<longleftrightarrow> distinct (index df) \<and> distinct (col_names df) \<and>
     list_all (\<lambda>(n, c). col_len c = length (index df)) (columns df)"

section \<open>Operations\<close>

text \<open>\<open>df[name]\<close>: the column, or \<open>KeyError\<close> when the frame has no such column.\<close>

definition get_column :: "frame \<Rightarrow> string \<Rightarrow> column result" where
  "get_column df name =
     (case map_of (columns df) name of None \<Rightarrow> Inl (KeyError name) | Some c \<Rightarrow> Inr c)"

text \<open>
  \<open>df.isnull().sum()\<close>: per column, in column order, the number of NaN cells.
  \<open>df.isnull().count()\<close>: per column, the non-null cells of the boolean frame
  \<open>isnull()\<close>, which has none, so the number of rows.
\<close>

definition isnull_sum :: "frame \<Rightarrow> (string \<times> nat) list" where
  "isnull_sum df = map (\<lambda>(n, c). (n, col_nulls c)) (columns df)"

definition isnull_count :: "frame \<Rightarrow> (string \<times> nat) list" where
  "isnull_count df = map (\<lambda>(n, c). (n, col_len c)) (columns df)"

text \<open>
  \<open>df.drop(labels, 1)\<close> drops columns; \<open>df.drop(labels)\<close> drops rows by index label.
  With the default \<open>errors='raise'\<close> a label that is not on the axis raises
  \<open>KeyError\<close> (the model names the first such label).
\<close>

definition drop_columns :: "string list \<Rightarrow> frame \<Rightarrow> frame result" where
  "drop_columns labels df =
     (case filter (\<lambda>l. l \<notin> set (col_names df)) labels of
        l # _ \<Rightarrow> Inl (KeyError l)
      | [] \<Rightarrow> Inr (df\<lparr>columns := filter (\<lambda>(n, c). n \<notin> set labels) (columns df)\<rparr>))"

definition drop_rows :: "nat list \<Rightarrow> frame \<Rightarrow> frame result" where
  "drop_rows labels df =
     (case filter (\<lambda>l. l \<notin> set (index df)) labels of
        l # _ \<Rightarrow> Inl (RowKeyError l)
      | [] \<Rightarrow>
          (let keep = map (\<lambda>i. i \<notin> set labels) (index df)
           in Inr \<lparr>index = mask_keep keep (index df),
                   columns = map (\<lambda>(n, c). (n, col_keep keep c)) (columns df)\<rparr>))"

text \<open>\<open>df.loc[df[name].isnull()].index\<close>: the labels of the rows where the column is NaN.\<close>

definition null_labels :: "frame \<Rightarrow> string \<Rightarrow> nat list result" where
  "null_labels df name =
     (case get_column df name of
        Inl e \<Rightarrow> Inl e
      | Inr c \<Rightarrow> Inr (mask_keep (col_isnull c) (index df)))"

text \<open>\<open>df.isnull().sum().max()\<close>: NaN (\<open>None\<close>) for a frame without columns.\<close>

definition max_missing :: "frame \<Rightarrow> nat option" where
  "max_missing df =
     (case map snd (isnull_sum df) of [] \<Rightarrow> None | m # ms \<Rightarrow> Some (fold max ms m))"

section \<open>The mask algebra\<close>

lemma mask_keep_Cons [simp]:
  "mask_keep (b # bs) (x # xs) = (if b then x # mask_keep bs xs else mask_keep bs xs)"
  "mask_keep [] xs = []" "mask_keep bs [] = []"
  by (simp_all add: mask_keep_def)

lemma mask_keep_map_filter: "mask_keep (map P xs) xs = filter P xs"
  by (induction xs) auto

lemma length_mask_keep:
  "length bs = length xs \<Longrightarrow> length (mask_keep bs xs) = length (filter id bs)"
  by (induction bs xs rule: list_induct2) auto

lemma set_mask_keep: "set (mask_keep bs xs) \<subseteq> set xs"
  by (auto simp: mask_keep_def dest: set_zip_rightD)

lemma distinct_mask_keep: "distinct xs \<Longrightarrow> distinct (mask_keep bs xs)"
proof (induction xs arbitrary: bs)
  case Nil
  then show ?case by simp
next
  case (Cons x xs)
  then show ?case
    by (cases bs) (auto dest: set_mask_keep [THEN subsetD])
qed

lemma count_none_mask_keep: "count_none (mask_keep bs xs) \<le> count_none xs"
proof (induction xs arbitrary: bs)
  case Nil
  then show ?case by simp
next
  case (Cons x xs)
  then show ?case
    by (cases bs; cases x) (auto simp: le_SucI)
qed

text \<open>
  The labels of the rows a mask selects, with unique labels: a row's label is among
  them exactly when the mask selects the row.
\<close>

lemma notin_mask_keep_labels:
  "length bs = length ls \<Longrightarrow> distinct ls \<Longrightarrow>
     map (\<lambda>i. i \<notin> set (mask_keep bs ls)) ls = map Not bs"
proof (induction bs ls rule: list_induct2)
  case Nil
  then show ?case by simp
next
  case (Cons b bs i ls)
  have i: "i \<notin> set (mask_keep bs ls)"
    using Cons.prems set_mask_keep by fastforce
  have "map (\<lambda>j. j \<notin> set (mask_keep (b # bs) (i # ls))) ls =
        map (\<lambda>j. j \<notin> set (mask_keep bs ls)) ls"
    using Cons.prems by (intro map_cong) auto
  with Cons i show ?case by auto
qed

lemma count_none_mask_nulls: "count_none (mask_keep (map Not (map (\<lambda>x. x = None) xs)) xs) = 0"
  by (induction xs rule: dropna.induct) auto

section \<open>Columns under a row mask\<close>

lemma col_len_keep:
  "length bs = col_len c \<Longrightarrow> col_len (col_keep bs c) = length (filter id bs)"
  by (cases c) (simp_all add: length_mask_keep)

lemma col_nulls_keep: "col_nulls (col_keep bs c) \<le> col_nulls c"
  by (cases c) (simp_all add: count_none_mask_keep)

lemma col_nulls_keep_notnull: "col_nulls (col_keep (map Not (col_isnull c)) c) = 0"
  by (cases c) (simp_all only: col_keep.simps col_isnull.simps col_nulls.simps count_none_mask_nulls)

lemma col_nulls_le_len: "col_nulls c \<le> col_len c"
  by (cases c) (simp_all add: count_none_le_length)

lemma length_col_isnull [simp]: "length (col_isnull c) = col_len c"
  by (cases c) simp_all

section \<open>The operations on well-formed frames\<close>

lemma get_column_Inr [frame_simps]:
  "get_column df name = Inr c \<longleftrightarrow> map_of (columns df) name = Some c"
  by (simp add: get_column_def split: option.splits)

lemma get_column_Inl [frame_simps]:
  "get_column df name = Inl e \<longleftrightarrow> map_of (columns df) name = None \<and> e = KeyError name"
  by (auto simp: get_column_def split: option.splits)

lemma drop_columns_Inr [frame_simps]:
  "drop_columns labels df = Inr df' \<longleftrightarrow>
     set labels \<subseteq> set (col_names df) \<and>
     df' = df\<lparr>columns := filter (\<lambda>(n, c). n \<notin> set labels) (columns df)\<rparr>"
  by (auto simp: drop_columns_def filter_empty_conv split: list.splits dest!: filter_eq_Cons_mem)

lemma drop_rows_Inr [frame_simps]:
  "drop_rows labels df = Inr df' \<longleftrightarrow>
     set labels \<subseteq> set (index df) \<and>
     df' = \<lparr>index = filter (\<lambda>i. i \<notin> set labels) (index df),
            columns = map (\<lambda>(n, c). (n, col_keep (map (\<lambda>i. i \<notin> set labels) (index df)) c))
                        (columns df)\<rparr>"
  by (auto simp: drop_rows_def filter_empty_conv mask_keep_map_filter Let_def split: list.splits
      dest!: filter_eq_Cons_mem)

lemma wf_drop_columns:
  "wf_frame df \<Longrightarrow> drop_columns labels df = Inr df' \<Longrightarrow> wf_frame df'"
  by (auto simp: frame_simps wf_frame_def col_names_def list_all_iff distinct_map_filter)

lemma wf_drop_rows:
  "wf_frame df \<Longrightarrow> drop_rows labels df = Inr df' \<Longrightarrow> wf_frame df'"
  by (auto simp: frame_simps wf_frame_def col_names_def list_all_iff col_len_keep
      length_filter_map)

end
