(* ===== verification/Missing.thy ===== *)
theory Missing
  imports Frame
begin

text \<open>
  The missing-data audit and the cleaning of src/house_prices_eda.py, lines 130--166:
  \<^item> \<open>total_series\<close> (line 131): \<open>df.isnull().sum().sort_values(ascending=False)\<close>;
  \<^item> \<open>percent\<close> (line 132): the NaN share of every column,
    \<open>isnull().sum()/isnull().count()\<close>, sorted the same way (0/0 is NaN);
  \<^item> \<open>missing_data\<close> (line 133): \<open>pd.concat([total, percent], axis=1)\<close>, which
    aligns both series on their labels in the order of \<open>total\<close>;
  \<^item> \<open>missing_head\<close> (line 134): \<open>missing_data.head(20)\<close>;
  \<^item> \<open>high_missing\<close> and \<open>clean\<close> (lines 164--165): drop every column with more
    than one NaN, then the rows where \<open>Electrical\<close> is NaN.
  \<open>sort_values\<close> is pandas' \<open>nargsort\<close>: NaN keys go last, the others are
  reversed, argsorted ascending, and the result reversed again. The argsort is numpy's
  \<open>kind='quicksort'\<close> (an introsort), which is not stable: among columns with equal
  NaN counts the code fixes no order. The model takes the stable \<open>sort_key\<close>, one of
  the orders the code may produce; the theorems about the audit table hold whatever the
  order of ties, and the rows printed at line 134 (\<open>missing_head\<close>) are the first 20
  in the model's order.
\<close>

section \<open>Sorting a series in descending order\<close>

definition nargsort_desc :: "('a \<Rightarrow> 'b::linorder option) \<Rightarrow> 'a list \<Rightarrow> 'a list" where
  "nargsort_desc key xs =
     (let non_nans = filter (\<lambda>x. key x \<noteq> None) xs;
          nans = filter (\<lambda>x. key x = None) xs
      in rev (sort_key (\<lambda>x. the (key x)) (rev non_nans)) @ nans)"

section \<open>The audit table\<close>

definition total_series :: "frame \<Rightarrow> (string \<times> nat) list" where
  "total_series df = nargsort_desc (\<lambda>(n, t). Some t) (isnull_sum df)"

text \<open>
  \<open>isnull().sum()/isnull().count()\<close>: both series carry the column labels in column
  order, so the division pairs them up position by position; 0/0 is NaN.
\<close>

definition null_share :: "frame \<Rightarrow> (string \<times> real option) list" where
  "null_share df =
     map (\<lambda>((n, t), (_, c)). (n, if c = 0 then None else Some (real t / real c)))
       (zip (isnull_sum df) (isnull_count df))"

definition percent :: "frame \<Rightarrow> (string \<times> real option) list" where
  "percent df = nargsort_desc snd (null_share df)"

definition missing_data :: "frame \<Rightarrow> (string \<times> nat \<times> real option) list" where
  "missing_data df =
     map (\<lambda>(n, t). (n, t, case map_of (percent df) n of Some p \<Rightarrow> p | None \<Rightarrow> None)) (total_series df)"

definition missing_head :: "frame \<Rightarrow> (string \<times> nat \<times> real option) list" where
  "missing_head df = take 20 (missing_data df)"

section \<open>Cleaning\<close>

text \<open>\<open>missing_data[missing_data['Total'] > 1].index\<close>\<close>

definition high_missing :: "(string \<times> nat \<times> real option) list \<Rightarrow> string list" where
  "high_missing md = map fst (filter (\<lambda>(n, t, p). 1 < t) md)"

text \<open>Lines 164--165: the two assignments to \<open>df_train\<close>, each of which may raise.\<close>

definition clean :: "frame \<Rightarrow> frame result" where
  "clean df =
     (case drop_columns (high_missing (missing_data df)) df of
        Inl e \<Rightarrow> Inl e
      | Inr df1 \<Rightarrow>
          (case null_labels df1 ''Electrical'' of
             Inl e \<Rightarrow> Inl e
           | Inr labels \<Rightarrow> drop_rows labels df1))"


section \<open>Sorting lemmas\<close>

lemma mset_nargsort_desc [simp]: "mset (nargsort_desc key xs) = mset xs"
  by (simp add: nargsort_desc_def Let_def multiset_partition [symmetric])

lemma set_nargsort_desc [simp]: "set (nargsort_desc key xs) = set xs"
  by (rule mset_eq_setD) simp

lemma nargsort_desc_no_nan:
  "\<forall>x\<in>set xs. key x \<noteq> None \<Longrightarrow>
     nargsort_desc key xs = rev (sort_key (\<lambda>x. the (key x)) (rev xs))"
  by (simp add: nargsort_desc_def Let_def filter_id_conv)

text \<open>
  Reversing, sorting stably in ascending order and reversing again is a stable sort in
  descending order: equal keys keep their original order.
\<close>

lemma rev_sort_key_rev:
  fixes g :: "'a \<Rightarrow> nat"
  shows "rev (sort_key g (rev xs)) = sort_key (\<lambda>x. - int (g x)) xs"
proof (rule sym, rule properties_for_sort_key)
  show "mset (rev (sort_key g (rev xs))) = mset xs" by simp
next
  fix k
  have eq: "(\<lambda>x. - int (g k) = - int (g x)) = (\<lambda>x. g x = g k)" by auto
  show "filter (\<lambda>x. - int (g k) = - int (g x)) (rev (sort_key g (rev xs))) =
        filter (\<lambda>x. - int (g k) = - int (g x)) xs"
    by (simp only: eq rev_filter [symmetric] sort_key_stable) simp
next
  have "sorted (map g (sort_key g (rev xs)))" by simp
  then show "sorted (map (\<lambda>x. - int (g x)) (rev (sort_key g (rev xs))))"
    by (simp add: rev_map [symmetric] sorted_wrt_rev sorted_wrt_map)
qed

section \<open>The audit table\<close>

lemma null_share_columns:
  "null_share df =
     map (\<lambda>(n, c). (n, if col_len c = 0 then None else Some (real (col_nulls c) / real (col_len c))))
       (columns df)"
proof -
  have "map (\<lambda>((n, t), (_, c)). (n, if c = 0 then None else Some (real t / real c)))
          (zip (map (\<lambda>(n, c). (n, col_nulls c)) cs) (map (\<lambda>(n, c). (n, col_len c)) cs)) =
        map (\<lambda>(n, c). (n, if col_len c = 0 then None else Some (real (col_nulls c) / real (col_len c)))) cs"
    for cs by (induction cs) auto
  then show ?thesis by (simp add: null_share_def isnull_sum_def isnull_count_def)
qed


lemma total_series_sort_key: "total_series df = sort_key (\<lambda>(n, t). - int t) (isnull_sum df)"
proof -
  have "total_series df = rev (sort_key snd (rev (isnull_sum df)))"
    by (simp add: total_series_def nargsort_desc_no_nan case_prod_beta)
  also have "\<dots> = sort_key (\<lambda>x. - int (snd x)) (isnull_sum df)"
    by (rule rev_sort_key_rev)
  finally show ?thesis by (simp add: case_prod_unfold)
qed

lemma set_total: "set (total_series df) = set (isnull_sum df)"
  by (simp add: total_series_def)

lemma mset_names_total: "mset (map fst (total_series df)) = mset (col_names df)"
proof -
  have "mset (map fst (total_series df)) = image_mset fst (mset (total_series df))"
    by (rule mset_map)
  also have "\<dots> = image_mset fst (mset (isnull_sum df))"
    by (simp add: total_series_def)
  also have "\<dots> = mset (map fst (isnull_sum df))"
    by (rule mset_map [symmetric])
  finally show ?thesis by (simp add: isnull_sum_def col_names_def)
qed

lemma in_isnull_sum:
  "(n, t) \<in> set (isnull_sum df) \<longleftrightarrow> (\<exists>c. (n, c) \<in> set (columns df) \<and> t = col_nulls c)"
  by (auto simp: isnull_sum_def)

lemma in_missing_data:
  "(n, t, p) \<in> set (missing_data df) \<longleftrightarrow>
     (n, t) \<in> set (total_series df) \<and> p = (case map_of (percent df) n of Some p \<Rightarrow> p | None \<Rightarrow> None)"
  by (auto simp: missing_data_def)

lemma map_of_percent:
  assumes "wf_frame df" and "(n, c) \<in> set (columns df)"
  shows "map_of (percent df) n =
           Some (if index df = [] then None else Some (real (col_nulls c) / real (length (index df))))"
proof -
  have d: "distinct (map fst (null_share df))"
    using assms(1) by (simp add: null_share_columns wf_frame_def col_names_def)
  have "distinct (map fst (percent df))"
  proof -
    have "mset (map fst (percent df)) = mset (map fst (null_share df))"
      by (simp add: percent_def)
    with d show ?thesis by (metis mset_eq_imp_distinct_iff)
  qed
  moreover have "col_len c = length (index df)"
    using assms by (auto simp: wf_frame_def list_all_iff)
  then have "(n, if index df = [] then None else Some (real (col_nulls c) / real (length (index df))))
               \<in> set (percent df)"
    using assms(2) by (force simp: percent_def null_share_columns)
  ultimately show ?thesis by simp
qed

section \<open>Cleaning\<close>

lemma set_high_missing:
  "set (high_missing (missing_data df)) = {n. \<exists>c. (n, c) \<in> set (columns df) \<and> 1 < col_nulls c}"
proof -
  have "n \<in> set (high_missing (missing_data df)) \<longleftrightarrow> (\<exists>t. (n, t) \<in> set (isnull_sum df) \<and> 1 < t)"
    for n
  proof
    assume "n \<in> set (high_missing (missing_data df))"
    then obtain t p where "(n, t, p) \<in> set (missing_data df)" and "1 < t"
      by (auto simp: high_missing_def)
    then show "\<exists>t. (n, t) \<in> set (isnull_sum df) \<and> 1 < t"
      by (auto simp: in_missing_data set_total)
  next
    assume "\<exists>t. (n, t) \<in> set (isnull_sum df) \<and> 1 < t"
    then obtain t where t: "(n, t) \<in> set (isnull_sum df)" "1 < t" by blast
    let ?p = "case map_of (percent df) n of Some p \<Rightarrow> p | None \<Rightarrow> None"
    from t have "(n, t, ?p) \<in> set (filter (\<lambda>(n, t, p). 1 < t) (missing_data df))"
      by (simp add: in_missing_data set_total)
    then show "n \<in> set (high_missing (missing_data df))"
      unfolding high_missing_def set_map by (rule rev_image_eqI) simp
  qed
  then show ?thesis by (auto simp: in_isnull_sum)
qed

lemma filter_high_missing:
  assumes "wf_frame df"
  shows "filter (\<lambda>(n, c). n \<notin> set (high_missing (missing_data df))) (columns df) =
         filter (\<lambda>(n, c). col_nulls c \<le> 1) (columns df)"
proof (rule filter_cong [OF refl])
  have d: "distinct (map fst (columns df))"
    using assms by (simp add: wf_frame_def col_names_def)
  fix x assume x: "x \<in> set (columns df)"
  obtain n c where nc: "x = (n, c)" by fastforce
  have "n \<in> set (high_missing (missing_data df)) \<longleftrightarrow> 1 < col_nulls c"
  proof
    assume "n \<in> set (high_missing (missing_data df))"
    then obtain c' where "(n, c') \<in> set (columns df)" and "1 < col_nulls c'"
      by (auto simp: set_high_missing)
    moreover have "(n, c) \<in> set (columns df)" using x nc by simp
    ultimately show "1 < col_nulls c" using eq_key_imp_eq_value [OF d] by metis
  next
    assume "1 < col_nulls c"
    then show "n \<in> set (high_missing (missing_data df))"
      using x nc by (auto simp: set_high_missing)
  qed
  then show "(case x of (n, c) \<Rightarrow> n \<notin> set (high_missing (missing_data df))) =
             (case x of (n, c) \<Rightarrow> col_nulls c \<le> 1)"
    by (simp add: nc not_less)
qed

lemma drop_high_missing:
  "wf_frame df \<Longrightarrow> drop_columns (high_missing (missing_data df)) df =
     Inr (df\<lparr>columns := filter (\<lambda>(n, c). col_nulls c \<le> 1) (columns df)\<rparr>)"
proof -
  assume wf: "wf_frame df"
  have "set (high_missing (missing_data df)) \<subseteq> set (col_names df)"
    by (force simp: set_high_missing col_names_def)
  then show ?thesis by (simp add: drop_columns_Inr filter_high_missing wf)
qed

lemma null_labels_Inr:
  "map_of (columns df) name = Some c \<Longrightarrow> null_labels df name = Inr (mask_keep (col_isnull c) (index df))"
  by (simp add: null_labels_def get_column_def)

lemma drop_null_rows:
  assumes "wf_frame df" and "map_of (columns df) name = Some c"
  shows "drop_rows (mask_keep (col_isnull c) (index df)) df =
           Inr \<lparr>index = mask_keep (map Not (col_isnull c)) (index df),
                columns = map (\<lambda>(n, d). (n, col_keep (map Not (col_isnull c)) d)) (columns df)\<rparr>"
proof -
  have "(name, c) \<in> set (columns df)" using assms(2) by (rule map_of_SomeD)
  then have len: "length (col_isnull c) = length (index df)"
    using assms(1) by (auto simp: wf_frame_def list_all_iff)
  have keep: "map (\<lambda>i. i \<notin> set (mask_keep (col_isnull c) (index df))) (index df) = map Not (col_isnull c)"
    using len assms(1) by (simp add: notin_mask_keep_labels wf_frame_def)
  have "filter (\<lambda>i. i \<notin> set (mask_keep (col_isnull c) (index df))) (index df) =
        mask_keep (map Not (col_isnull c)) (index df)"
    by (simp add: keep [symmetric] mask_keep_map_filter)
  with keep show ?thesis by (simp add: frame_simps set_mask_keep)
qed


lemma clean_branches:
  assumes "wf_frame df"
  shows "clean df =
    (case map_of (filter (\<lambda>(n, c). col_nulls c \<le> 1) (columns df)) ''Electrical'' of
       None \<Rightarrow> Inl (KeyError ''Electrical'')
     | Some ec \<Rightarrow>
         Inr \<lparr>index = mask_keep (map Not (col_isnull ec)) (index df),
              columns = map (\<lambda>(n, d). (n, col_keep (map Not (col_isnull ec)) d))
                          (filter (\<lambda>(n, c). col_nulls c \<le> 1) (columns df))\<rparr>)"
proof -
  define df1 where "df1 = df\<lparr>columns := filter (\<lambda>(n, c). col_nulls c \<le> 1) (columns df)\<rparr>"
  have d1: "drop_columns (high_missing (missing_data df)) df = Inr df1"
    unfolding df1_def using assms by (rule drop_high_missing)
  have wf1: "wf_frame df1" using wf_drop_columns [OF assms d1] .
  show ?thesis
  proof (cases "map_of (columns df1) ''Electrical''")
    case None
    then show ?thesis
      by (simp add: clean_def d1 null_labels_def get_column_def) (simp add: df1_def)
  next
    case (Some ec)
    have "clean df = drop_rows (mask_keep (col_isnull ec) (index df1)) df1"
      by (simp add: clean_def d1 null_labels_Inr [OF Some])
    also have "\<dots> = Inr \<lparr>index = mask_keep (map Not (col_isnull ec)) (index df1),
                columns = map (\<lambda>(n, d). (n, col_keep (map Not (col_isnull ec)) d)) (columns df1)\<rparr>"
      by (rule drop_null_rows [OF wf1 Some])
    finally show ?thesis using Some by (simp add: df1_def)
  qed
qed

text \<open>
  C1. The cleaning of lines 164--165 on every branch: on a well-formed frame it raises
  \<open>KeyError\<close> exactly when \<open>Electrical\<close> is not among the columns with at most
  one NaN; otherwise it returns the columns with at most one NaN, in their order,
  without the rows where \<open>Electrical\<close> is NaN.
\<close>

theorem clean_eq:
  assumes "wf_frame df"
  shows "clean df =
    (case map_of (filter (\<lambda>(n, c). col_nulls c \<le> 1) (columns df)) ''Electrical'' of
       None \<Rightarrow> Inl (KeyError ''Electrical'')
     | Some ec \<Rightarrow>
         Inr \<lparr>index = mask_keep (map Not (col_isnull ec)) (index df),
              columns = map (\<lambda>(n, d). (n, col_keep (map Not (col_isnull ec)) d))
                          (filter (\<lambda>(n, c). col_nulls c \<le> 1) (columns df))\<rparr>)"
  using assms by (rule clean_branches)

lemma map_of_low_missing:
  "wf_frame df \<Longrightarrow>
     map_of (filter (\<lambda>(n, c). col_nulls c \<le> 1) (columns df)) k = Some c \<longleftrightarrow>
       map_of (columns df) k = Some c \<and> col_nulls c \<le> 1"
  by (simp add: map_of_filter_Some wf_frame_def col_names_def)

lemma clean_Inr_cases:
  assumes "wf_frame df" and "clean df = Inr df'"
  obtains ec where "map_of (columns df) ''Electrical'' = Some ec" and "col_nulls ec \<le> 1"
    and "index df' = mask_keep (map Not (col_isnull ec)) (index df)"
    and "columns df' = map (\<lambda>(n, d). (n, col_keep (map Not (col_isnull ec)) d))
                          (filter (\<lambda>(n, c). col_nulls c \<le> 1) (columns df))"
proof -
  let ?low = "filter (\<lambda>(n, c). col_nulls c \<le> 1) (columns df)"
  from assms(2) obtain ec where m: "map_of ?low ''Electrical'' = Some ec"
    and df': "df' = \<lparr>index = mask_keep (map Not (col_isnull ec)) (index df),
                     columns = map (\<lambda>(n, d). (n, col_keep (map Not (col_isnull ec)) d)) ?low\<rparr>"
    by (auto simp: clean_branches [OF assms(1)] split: option.splits)
  from m have "map_of (columns df) ''Electrical'' = Some ec \<and> col_nulls ec \<le> 1"
    using map_of_low_missing [OF assms(1), of "''Electrical''" ec] by blast
  with that df' show ?thesis by simp
qed

lemma length_filter_not_isnull: "length (filter Not (col_isnull c)) + col_nulls c = col_len c"
  by (cases c) (simp_all only: col_isnull.simps col_nulls.simps col_len.simps length_not_none)

lemma max_missing_Some_0:
  "max_missing df = Some 0 \<longleftrightarrow> columns df \<noteq> [] \<and> (\<forall>(n, c)\<in>set (columns df). col_nulls c = 0)"
  by (cases "columns df") (auto simp: max_missing_def isnull_sum_def fold_max_nat_0)

lemma count_none_mask_disjoint:
  "list_all2 (\<lambda>a b. \<not> (a \<and> b)) (map (\<lambda>x. x = None) xs) bs \<Longrightarrow>
     count_none (mask_keep (map Not bs) xs) = count_none xs"
proof (induction xs arbitrary: bs)
  case Nil
  then show ?case by simp
next
  case (Cons x xs)
  then show ?case by (cases bs; cases x) auto
qed

lemma col_nulls_keep_disjoint:
  "list_all2 (\<lambda>a b. \<not> (a \<and> b)) (col_isnull c) bs \<Longrightarrow> col_nulls (col_keep (map Not bs) c) = col_nulls c"
  by (cases c) (simp_all only: col_isnull.simps col_keep.simps col_nulls.simps count_none_mask_disjoint)

lemma max_missing_eq:
  assumes "(n, c) \<in> set (columns df)" and "col_nulls c = k"
    and "\<And>m d. (m, d) \<in> set (columns df) \<Longrightarrow> col_nulls d \<le> k"
  shows "max_missing df = Some k"
proof (cases "map snd (isnull_sum df)")
  case Nil
  then show ?thesis using assms(1) by (simp add: isnull_sum_def)
next
  case (Cons m ms)
  have "set (m # ms) = col_nulls ` snd ` set (columns df)"
    by (simp flip: Cons add: isnull_sum_def image_image case_prod_unfold)
  then have "Max (set (m # ms)) = k"
    using assms by (intro Max_eqI) force+
  then show ?thesis by (simp add: max_missing_def Cons flip: Max.set_eq_fold)
qed

text \<open>
  C2. The cleaning fails, and then only with \<open>KeyError('Electrical')\<close>, exactly when
  the frame has no \<open>Electrical\<close> column or that column has more than one NaN (line
  164 dropped it before line 165 selects it).
\<close>

theorem clean_error:
  assumes "wf_frame df"
  shows "clean df = Inl e \<longleftrightarrow>
           e = KeyError ''Electrical'' \<and>
           (\<forall>c. map_of (columns df) ''Electrical'' = Some c \<longrightarrow> 1 < col_nulls c)"
proof -
  let ?low = "filter (\<lambda>(n, c). col_nulls c \<le> 1) (columns df)"
  have "clean df = Inl e \<longleftrightarrow> map_of ?low ''Electrical'' = None \<and> e = KeyError ''Electrical''"
    by (auto simp: clean_branches [OF assms] split: option.splits)
  moreover have "map_of ?low ''Electrical'' = None \<longleftrightarrow>
      (\<forall>c. map_of (columns df) ''Electrical'' = Some c \<longrightarrow> 1 < col_nulls c)"
    using map_of_low_missing [OF assms, of "''Electrical''"]
    by (metis not_le not_None_eq)
  ultimately show ?thesis by blast
qed

lemma clean_column_origin:
  assumes "wf_frame df" and "clean df = Inr df'" and "(n, c) \<in> set (columns df')"
  obtains ec d where "map_of (columns df) ''Electrical'' = Some ec" and "col_nulls ec \<le> 1"
    and "(n, d) \<in> set (columns df)" and "col_nulls d \<le> 1"
    and "c = col_keep (map Not (col_isnull ec)) d"
proof -
  obtain ec where ec: "map_of (columns df) ''Electrical'' = Some ec" "col_nulls ec \<le> 1"
    and cols: "columns df' = map (\<lambda>(n, d). (n, col_keep (map Not (col_isnull ec)) d))
                          (filter (\<lambda>(n, c). col_nulls c \<le> 1) (columns df))"
    using clean_Inr_cases [OF assms(1,2)] by blast
  from assms(3) cols obtain d where "(n, d) \<in> set (columns df)" "col_nulls d \<le> 1"
    "c = col_keep (map Not (col_isnull ec)) d" by auto
  with ec that show ?thesis by blast
qed

text \<open>
  C3. After a successful cleaning every remaining column has at most one NaN.
\<close>

theorem clean_at_most_one_nan:
  assumes "wf_frame df" and "clean df = Inr df'" and "(n, c) \<in> set (columns df')"
  shows "col_nulls c \<le> 1"
proof -
  obtain ec d where "col_nulls d \<le> 1" and "c = col_keep (map Not (col_isnull ec)) d"
    using clean_column_origin [OF assms] by metis
  then show ?thesis using col_nulls_keep [of _ d] by (meson le_trans)
qed

text \<open>
  C4. When no column other than \<open>Electrical\<close> has exactly one NaN, the check of
  line 166, \<open>isnull().sum().max()\<close>, prints 0 after the cleaning (NaN when no column
  is left).
\<close>

theorem clean_no_nan_left:
  assumes "wf_frame df"
    and "\<forall>(n, c)\<in>set (columns df). col_nulls c = 1 \<longrightarrow> n = ''Electrical''"
    and "clean df = Inr df'"
  shows "max_missing df' = (if columns df' = [] then None else Some 0)"
proof -
  have zero: "col_nulls c = 0" if nc: "(n, c) \<in> set (columns df')" for n c
  proof -
    obtain ec d where ec: "map_of (columns df) ''Electrical'' = Some ec"
      and d: "(n, d) \<in> set (columns df)" "col_nulls d \<le> 1"
      and c: "c = col_keep (map Not (col_isnull ec)) d"
      using clean_column_origin [OF assms(1,3) nc] by metis
    show ?thesis
    proof (cases "col_nulls d = 0")
      case True
      then show ?thesis using c col_nulls_keep [of _ d] by simp
    next
      case False
      with d assms(2) have "n = ''Electrical''" by auto
      moreover have "distinct (map fst (columns df))"
        using assms(1) by (simp add: wf_frame_def col_names_def)
      ultimately have "d = ec"
        using d(1) map_of_SomeD [OF ec] by (metis eq_key_imp_eq_value)
      then show ?thesis using c col_nulls_keep_notnull by simp
    qed
  qed
  show ?thesis
  proof (cases "columns df' = []")
    case True
    then show ?thesis by (simp add: max_missing_def isnull_sum_def)
  next
    case False
    with zero show ?thesis by (auto simp: max_missing_Some_0)
  qed
qed

text \<open>
  C6. A successful cleaning removes exactly the rows where \<open>Electrical\<close> is NaN:
  the row count falls by that column's NaN count and no new label appears.
\<close>

theorem clean_rows:
  assumes "wf_frame df" and "clean df = Inr df'"
  shows "\<exists>ec. map_of (columns df) ''Electrical'' = Some ec \<and>
           length (index df') = length (index df) - col_nulls ec \<and>
           set (index df') \<subseteq> set (index df)"
proof -
  obtain ec where ec: "map_of (columns df) ''Electrical'' = Some ec"
    and idx: "index df' = mask_keep (map Not (col_isnull ec)) (index df)"
    using clean_Inr_cases [OF assms] by blast
  have "col_len ec = length (index df)"
    using assms(1) map_of_SomeD [OF ec] by (auto simp: wf_frame_def list_all_iff)
  then have "length (index df') = length (index df) - col_nulls ec"
    using length_filter_not_isnull [of ec] by (simp add: idx length_mask_keep comp_def)
  moreover have "set (index df') \<subseteq> set (index df)"
    by (simp add: idx set_mask_keep)
  ultimately show ?thesis using ec by blast
qed

text \<open>
  C7. The cleaning keeps the frame invariant: unique row labels, unique column names,
  one cell per row in every column.
\<close>

theorem wf_clean:
  assumes "wf_frame df" and "clean df = Inr df'"
  shows "wf_frame df'"
proof -
  obtain df1 ls where d1: "drop_columns (high_missing (missing_data df)) df = Inr df1"
    and "null_labels df1 ''Electrical'' = Inr ls" and d2: "drop_rows ls df1 = Inr df'"
    using assms(2) by (auto simp: clean_def split: sum.splits)
  from wf_drop_columns [OF assms(1) d1] d2 show ?thesis by (rule wf_drop_rows)
qed

text \<open>
  C8. Every row of the audit table \<open>missing_data\<close> (line 133) names a column, carries
  its NaN count, and its \<open>Percent\<close> is that count over the number of rows, a value in
  [0, 1]; on a frame without rows it is NaN.
\<close>

theorem missing_data_percent:
  assumes "wf_frame df" and "(n, t, p) \<in> set (missing_data df)"
  shows "(\<exists>c. (n, c) \<in> set (columns df) \<and> t = col_nulls c) \<and>
         p = (if index df = [] then None else Some (real t / real (length (index df)))) \<and>
         (\<forall>q. p = Some q \<longrightarrow> 0 \<le> q \<and> q \<le> 1)"
proof -
  from assms(2) obtain c where c: "(n, c) \<in> set (columns df)" "t = col_nulls c"
    and p: "p = (case map_of (percent df) n of Some p \<Rightarrow> p | None \<Rightarrow> None)"
    by (auto simp: in_missing_data set_total in_isnull_sum)
  have p': "p = (if index df = [] then None else Some (real t / real (length (index df))))"
    using p c by (simp add: map_of_percent [OF assms(1) c(1)])
  have "col_len c = length (index df)"
    using assms(1) c(1) by (auto simp: wf_frame_def list_all_iff)
  then have "t \<le> length (index df)"
    using c(2) col_nulls_le_len [of c] by simp
  then have "\<forall>q. p = Some q \<longrightarrow> 0 \<le> q \<and> q \<le> 1"
    using p' by (auto simp: divide_le_eq_1)
  with c p' show ?thesis by blast
qed

text \<open>
  C9. The audit table lists every column exactly once, by descending NaN count.
\<close>

theorem missing_data_order:
  "mset (map fst (missing_data df)) = mset (col_names df) \<and>
   sorted_wrt (\<ge>) (map (\<lambda>(n, t, p). t) (missing_data df))"
proof
  have "map fst (missing_data df) = map fst (total_series df)"
    by (simp add: missing_data_def case_prod_unfold)
  then show "mset (map fst (missing_data df)) = mset (col_names df)"
    using mset_names_total by metis
next
  have m: "map (\<lambda>(n, t, p). t) (missing_data df) = map snd (total_series df)"
    by (simp add: missing_data_def case_prod_unfold)
  have "sorted (map (\<lambda>(n, t). - int t) (total_series df))"
    by (simp add: total_series_sort_key)
  then have "sorted_wrt (\<ge>) (map snd (total_series df))"
    by (simp add: sorted_wrt_map case_prod_unfold)
  then show "sorted_wrt (\<ge>) (map (\<lambda>(n, t, p). t) (missing_data df))"
    by (simp add: m)
qed

text \<open>
  C10. End to end on every frame whose only NaN is one \<open>Electrical\<close> cell: the
  cleaning succeeds, keeps every column in its place, removes exactly that row, and the
  check of line 166 prints 0.
\<close>

theorem clean_one_electrical_nan:
  assumes "wf_frame df"
    and "map_of (columns df) ''Electrical'' = Some ec" and "col_nulls ec = 1"
    and "\<forall>(n, c)\<in>set (columns df). n \<noteq> ''Electrical'' \<longrightarrow> col_nulls c = 0"
  shows "\<exists>df'. clean df = Inr df' \<and> col_names df' = col_names df \<and>
           length (index df') = length (index df) - 1 \<and> max_missing df' = Some 0"
proof -
  have all: "filter (\<lambda>(n, c). col_nulls c \<le> 1) (columns df) = columns df"
  proof (rule filter_True, clarify)
    fix n c assume nc: "(n, c) \<in> set (columns df)"
    have "distinct (map fst (columns df))"
      using assms(1) by (simp add: wf_frame_def col_names_def)
    then show "col_nulls c \<le> 1"
      using nc assms(2-4) map_of_is_SomeI by fastforce
  qed
  define bs where "bs = map Not (col_isnull ec)"
  define df' where "df' = \<lparr>index = mask_keep bs (index df),
      columns = map (\<lambda>(n, d). (n, col_keep bs d)) (columns df)\<rparr>"
  have cl: "clean df = Inr df'"
    unfolding clean_branches [OF assms(1)] all assms(2) by (simp add: df'_def bs_def)
  have names: "col_names df' = col_names df"
    by (simp add: df'_def col_names_def case_prod_unfold)
  have "col_len ec = length (index df)"
    using assms(1) map_of_SomeD [OF assms(2)] by (auto simp: wf_frame_def list_all_iff)
  then have len: "length (index df') = length (index df) - 1"
    using length_filter_not_isnull [of ec] assms(3)
    by (simp add: df'_def bs_def length_mask_keep comp_def)
  have zero: "col_nulls d \<le> 0" if md: "(m, d) \<in> set (columns df')" for m d
  proof -
    obtain d0 where d0: "(m, d0) \<in> set (columns df)" and d: "d = col_keep bs d0"
      using md by (force simp: df'_def)
    show ?thesis
    proof (cases "m = ''Electrical''")
      case True
      have "distinct (map fst (columns df))"
        using assms(1) by (simp add: wf_frame_def col_names_def)
      then have "d0 = ec" using d0 True assms(2) by (metis eq_key_imp_eq_value map_of_SomeD)
      then show ?thesis using d col_nulls_keep_notnull by (simp add: bs_def)
    next
      case False
      then show ?thesis using d d0 assms(4) col_nulls_keep [of bs d0] by auto
    qed
  qed
  have "(''Electrical'', col_keep bs ec) \<in> set (columns df')"
    using map_of_SomeD [OF assms(2)] by (force simp: df'_def)
  moreover have "col_nulls (col_keep bs ec) = 0"
    using col_nulls_keep_notnull by (simp add: bs_def)
  ultimately have "max_missing df' = Some 0"
    using zero by (rule max_missing_eq)
  with cl names len show ?thesis by blast
qed

text \<open>
  C5. The cleaning does not remove every NaN: a column with exactly one NaN, in a row
  where \<open>Electrical\<close> is not NaN, is not dropped (its total is not above 1) and its row
  is not removed, so it keeps its NaN and the check of line 166 prints 1.
\<close>

theorem clean_leaves_nan:
  assumes "wf_frame df" and "clean df = Inr df'"
    and "(n, c) \<in> set (columns df)" and "col_nulls c = 1"
    and "map_of (columns df) ''Electrical'' = Some ec"
    and "list_all2 (\<lambda>a b. \<not> (a \<and> b)) (col_isnull c) (col_isnull ec)"
  shows "(\<exists>c'. (n, c') \<in> set (columns df') \<and> col_nulls c' = 1) \<and> max_missing df' = Some 1"
proof -
  obtain ec' where ec': "map_of (columns df) ''Electrical'' = Some ec'"
    and cols: "columns df' = map (\<lambda>(n, d). (n, col_keep (map Not (col_isnull ec')) d))
                          (filter (\<lambda>(n, c). col_nulls c \<le> 1) (columns df))"
    using clean_Inr_cases [OF assms(1,2)] by blast
  have "ec' = ec" using ec' assms(5) by simp
  then have c': "(n, col_keep (map Not (col_isnull ec)) c) \<in> set (columns df')"
    using cols assms(3,4) by force
  have one: "col_nulls (col_keep (map Not (col_isnull ec)) c) = 1"
    using col_nulls_keep_disjoint [OF assms(6)] assms(4) by simp
  have le1: "col_nulls d \<le> 1" if md: "(m, d) \<in> set (columns df')" for m d
  proof -
    obtain ec0 d0 where "col_nulls d0 \<le> 1" and "d = col_keep (map Not (col_isnull ec0)) d0"
      using clean_column_origin [OF assms(1,2) md] by metis
    then show ?thesis using col_nulls_keep [of _ d0] by (meson le_trans)
  qed
  have "max_missing df' = Some 1"
    using c' one le1 by (rule max_missing_eq)
  with c' one show ?thesis by blast
qed

end
