(* ===== verification/Csv.thy ===== *)
theory Csv
  imports Frame "HOL-Library.AList"
begin

text \<open>
  The pieces of \<open>pd.read_csv('train.csv')\<close> (src/house_prices_eda.py, line 12) that act
  on single fields and on the header: \<open>str.split\<close>/\<open>join\<close>, the C parser's number
  syntax, pandas' default NA tokens, numeric-or-object inference of a column, the
  \<open>Unnamed: i\<close> names of empty header fields and the mangling of duplicate names
  (\<open>_maybe_dedup_names\<close>, with its \<open>while\<close> loop and a termination proof). It also
  holds the line-based reading of a file (lines split at \<open>\n\<close>, a \<open>\r\<close> before it
  dropped, blank lines skipped, numbered from 1), the reference the tokenizer of theory
  Tokenizer is proved to refine, and \<open>build_frame\<close>, which turns the records into a
  frame with a \<open>RangeIndex\<close>.
\<close>

section \<open>Splitting text\<close>

text \<open>\<open>s.split(d)\<close>: the pieces between the separators, always at least one.\<close>

fun split_acc :: "char \<Rightarrow> string \<Rightarrow> string \<Rightarrow> string list" where
  "split_acc d acc [] = [rev acc]"
| "split_acc d acc (c # cs) =
     (if c = d then rev acc # split_acc d [] cs else split_acc d (c # acc) cs)"

definition split_on :: "char \<Rightarrow> string \<Rightarrow> string list" where
  "split_on d s = split_acc d [] s"

text \<open>\<open>d.join(ws)\<close>.\<close>

fun join_on :: "char \<Rightarrow> string list \<Rightarrow> string" where
  "join_on d [] = []"
| "join_on d [w] = w"
| "join_on d (w # ws) = w @ d # join_on d ws"

section \<open>Decimal numbers\<close>

definition is_digit :: "char \<Rightarrow> bool" where
  "is_digit c \<longleftrightarrow> 48 \<le> (of_char c :: nat) \<and> (of_char c :: nat) \<le> 57"

definition digit_val :: "char \<Rightarrow> nat" where
  "digit_val c = of_char c - 48"

definition digits_val :: "string \<Rightarrow> nat" where
  "digits_val ds = foldl (\<lambda>acc c. 10 * acc + digit_val c) 0 ds"

text \<open>\<open>f"{n}"\<close>: the decimal digits of a natural number.\<close>

definition digit_chars :: string where
  "digit_chars = ''0123456789''"

fun nat_str :: "nat \<Rightarrow> string" where
  "nat_str n =
     (if n < 10 then [digit_chars ! n] else nat_str (n div 10) @ [digit_chars ! (n mod 10)])"

declare nat_str.simps [simp del]

text \<open>
  The C parser's number syntax (\<open>xstrtod\<close>): surrounding ASCII white space, an optional
  sign, digits with an optional decimal point (at least one digit in all), an optional
  exponent \<open>e\<close>/\<open>E\<close> with optional sign and at least one digit.
\<close>

definition is_space :: "char \<Rightarrow> bool" where
  "is_space c \<longleftrightarrow> c = CHR '' '' \<or> c = CHR 0x09 \<or> c = CHR 0x0B \<or> c = CHR 0x0C \<or> c = CHR 0x0D"

definition strip_space :: "string \<Rightarrow> string" where
  "strip_space s = rev (dropWhile is_space (rev (dropWhile is_space s)))"

definition parse_sign :: "string \<Rightarrow> int \<times> string" where
  "parse_sign s =
     (if s \<noteq> [] \<and> hd s = CHR ''-'' then (-1, tl s)
      else if s \<noteq> [] \<and> hd s = CHR ''+'' then (1, tl s)
      else (1, s))"

definition parse_exp :: "string \<Rightarrow> int option" where
  "parse_exp s =
     (if s = [] then Some 0
      else if hd s = CHR ''e'' \<or> hd s = CHR ''E'' then
        (case parse_sign (tl s) of (sg, ds) \<Rightarrow>
           if ds \<noteq> [] \<and> list_all is_digit ds then Some (sg * int (digits_val ds)) else None)
      else None)"

definition parse_num :: "string \<Rightarrow> real option" where
  "parse_num s =
     (case parse_sign (strip_space s) of (sg, r) \<Rightarrow>
       let ip = takeWhile is_digit r;
           r1 = dropWhile is_digit r;
           point = (r1 \<noteq> [] \<and> hd r1 = CHR ''.'');
           fp = (if point then takeWhile is_digit (tl r1) else []);
           r2 = (if point then dropWhile is_digit (tl r1) else r1)
       in if ip @ fp = [] then None
          else case parse_exp r2 of
            None \<Rightarrow> None
          | Some e \<Rightarrow>
              Some (of_int sg * real (digits_val (ip @ fp)) / 10 ^ length fp *
                    (if 0 \<le> e then 10 ^ nat e else 1 / 10 ^ nat (- e))))"

section \<open>Fields, columns and names\<close>

text \<open>
  pandas' default NA tokens (\<open>STR_NA_VALUES\<close> of pandas 1.x); a field equal to one of
  them is NaN.
\<close>

definition na_tokens :: "string list" where
  "na_tokens = [''-1.#IND'', ''1.#QNAN'', ''1.#IND'', ''-1.#QNAN'', ''#N/A N/A'', ''#N/A'',
                ''N/A'', ''n/a'', ''NA'', ''<NA>'', ''#NA'', ''NULL'', ''null'', ''NaN'',
                ''-NaN'', ''nan'', ''-nan'', []]"

definition na_field :: "string \<Rightarrow> string option" where
  "na_field f = (if f \<in> set na_tokens then None else Some f)"

text \<open>
  A column is numeric when every field that is not NaN parses as a number; an all-NaN
  column is numeric too (float64). Otherwise it keeps the strings (object dtype).
\<close>

definition infer_column :: "string option list \<Rightarrow> column" where
  "infer_column fs =
     (if list_all (\<lambda>f. case f of None \<Rightarrow> True | Some s \<Rightarrow> parse_num s \<noteq> None) fs
      then NumCol (map (\<lambda>f. case f of None \<Rightarrow> None | Some s \<Rightarrow> parse_num s) fs)
      else StrCol fs)"

text \<open>Empty header fields are named \<open>Unnamed: i\<close> after their position.\<close>

definition unnamed :: "string list \<Rightarrow> string list" where
  "unnamed hs =
     map (\<lambda>(i, h). if h = [] then ''Unnamed: '' @ nat_str i else h) (zip [0..<length hs] hs)"

text \<open>
  pandas' \<open>_maybe_dedup_names\<close>: a dictionary \<open>counts\<close> (an association list, 0 when
  absent) and, for each name, the loop
  \<^verbatim>\<open>cur_count = counts[col]
  while cur_count > 0:
      counts[col] = cur_count + 1
      col = f"{col}.{cur_count}"
      cur_count = counts[col]
  names[i] = col; counts[col] = cur_count + 1\<close>
  The loop stops because every name with a positive count is a key of \<open>counts\<close> and
  each round makes \<open>col\<close> longer: \<open>Suc (longest key) - length col\<close> decreases.
\<close>

definition cnt :: "(string \<times> nat) list \<Rightarrow> string \<Rightarrow> nat" where
  "cnt counts k = (case map_of counts k of None \<Rightarrow> 0 | Some n \<Rightarrow> n)"

definition max_key_len :: "(string \<times> nat) list \<Rightarrow> nat" where
  "max_key_len counts = Max (insert 0 ((\<lambda>(k, n). length k) ` set counts))"

function mangle :: "(string \<times> nat) list \<Rightarrow> string \<Rightarrow> (string \<times> nat) list \<times> string" where
  "mangle counts col =
     (if cnt counts col = 0 then (counts, col)
      else mangle (AList.update col (Suc (cnt counts col)) counts)
                  (col @ CHR ''.'' # nat_str (cnt counts col)))"
  by pat_completeness auto

termination mangle
proof (relation "measure (\<lambda>(counts, col). Suc (max_key_len counts) - length col)")
  show "wf (measure (\<lambda>(counts, col). Suc (max_key_len counts) - length col))" by simp
next
  fix counts col
  assume pos: "cnt counts col \<noteq> 0"
  then obtain n where "map_of counts col = Some n" by (cases "map_of counts col") (auto simp: cnt_def)
  then have key: "(col, n) \<in> set counts" by (rule map_of_SomeD)
  then have len: "length col \<le> max_key_len counts"
    unfolding max_key_len_def by (intro Max_ge) (auto simp: image_iff intro!: bexI [OF _ key])
  have "fst ` set (AList.update col (Suc (cnt counts col)) counts) = fst ` set counts"
    using key by (force simp: dom_update)
  then have "max_key_len (AList.update col (Suc (cnt counts col)) counts) = max_key_len counts"
    by (simp add: max_key_len_def case_prod_unfold image_image [symmetric, of length fst])
  with len show "((AList.update col (Suc (cnt counts col)) counts, col @ CHR ''.'' # nat_str (cnt counts col)),
          (counts, col)) \<in> measure (\<lambda>(counts, col). Suc (max_key_len counts) - length col)"
    by simp
qed

declare mangle.simps [simp del]

text \<open>
  The \<open>while cur_count > 0\<close> loop as written, with no termination argument:
  \<open>None\<close> would be a loop that never ends.
\<close>

partial_function (option) mangle_while ::
  "(string \<times> nat) list \<Rightarrow> string \<Rightarrow> ((string \<times> nat) list \<times> string) option" where
  "mangle_while counts col =
     (if cnt counts col = 0 then Some (counts, col)
      else mangle_while (AList.update col (Suc (cnt counts col)) counts)
                        (col @ CHR ''.'' # nat_str (cnt counts col)))"

fun dedup_loop :: "(string \<times> nat) list \<Rightarrow> string list \<Rightarrow> string list" where
  "dedup_loop counts [] = []"
| "dedup_loop counts (col # cols) =
     (case mangle counts col of
        (counts', col') \<Rightarrow> col' # dedup_loop (AList.update col' 1 counts') cols)"

definition dedup_names :: "string list \<Rightarrow> string list" where
  "dedup_names names = dedup_loop [] names"

section \<open>Lines of the file and the frame\<close>

text \<open>
  Lines end at \<open>\n\<close> (a \<open>\r\<close> before it is dropped); a line of spaces and tabs only is
  blank and skipped (\<open>skip_blank_lines=True\<close>). Each kept line carries its line number
  in the file, counted from 1.
\<close>

definition is_blank :: "string \<Rightarrow> bool" where
  "is_blank l \<longleftrightarrow> list_all (\<lambda>c. c = CHR '' '' \<or> c = CHR 0x09) l"

definition strip_cr :: "string \<Rightarrow> string" where
  "strip_cr l = (if l \<noteq> [] \<and> last l = CHR 0x0D then butlast l else l)"

definition numbered_lines :: "string \<Rightarrow> (nat \<times> string) list" where
  "numbered_lines content =
     (let ls = map strip_cr (split_on CHR 0x0A content)
      in filter (\<lambda>(i, l). \<not> is_blank l) (zip [1..<Suc (length ls)] ls))"

definition build_frame :: "string list \<Rightarrow> string option list list \<Rightarrow> frame" where
  "build_frame names rows =
     \<lparr>index = [0..<length rows],
      columns = map (\<lambda>j. (names ! j, infer_column (map (\<lambda>r. r ! j) rows))) [0..<length names]\<rparr>"

section \<open>Lemmas: splitting and joining\<close>

lemma split_acc_not_Nil [simp]: "split_acc d acc s \<noteq> []"
  by (induction d acc s rule: split_acc.induct) auto

lemma join_on_Cons: "ws \<noteq> [] \<Longrightarrow> join_on d (w # ws) = w @ d # join_on d ws"
  by (cases ws) auto

lemma join_split_acc: "join_on d (split_acc d acc s) = rev acc @ s"
  by (induction d acc s rule: split_acc.induct) (auto simp: join_on_Cons)

lemma split_acc_append:
  "d \<notin> set w \<Longrightarrow> split_acc d acc (w @ s) = split_acc d (rev w @ acc) s"
  by (induction w arbitrary: acc) auto

lemma split_join_acc:
  "ws \<noteq> [] \<Longrightarrow> \<forall>w\<in>set ws. d \<notin> set w \<Longrightarrow> split_acc d [] (join_on d ws) = ws"
proof (induction ws rule: join_on.induct)
  case (2 d w)
  then show ?case using split_acc_append [of d w "[]" "[]"] by simp
next
  case (3 d w v vs)
  then show ?case using split_acc_append [of d w "[]"] by simp
qed simp

section \<open>Lemmas: decimal digits\<close>

lemma digits_val_snoc [simp]: "digits_val (ds @ [c]) = 10 * digits_val ds + digit_val c"
  by (simp add: digits_val_def)

lemma of_digit_char: "(k::nat) < 10 \<Longrightarrow> of_char (digit_chars ! k) = 48 + k"
  by (auto simp: digit_chars_def less_Suc_eq numeral_eq_Suc)

lemma digit_char [simp]: "(k::nat) < 10 \<Longrightarrow> digit_val (digit_chars ! k) = k"
  by (simp add: digit_val_def of_digit_char)

lemma is_digit_char [simp]: "(k::nat) < 10 \<Longrightarrow> is_digit (digit_chars ! k)"
  by (simp add: is_digit_def of_digit_char)

lemma nat_str_digits: "list_all is_digit (nat_str n)"
  by (induction n rule: nat_str.induct) (subst nat_str.simps, simp)

lemma nat_str_not_Nil [simp]: "nat_str n \<noteq> []"
  by (subst nat_str.simps) simp

lemma digits_val_nat_str: "digits_val (nat_str n) = n"
proof (induction n rule: nat_str.induct)
  case (1 n)
  then show ?case by (subst nat_str.simps) (simp add: digits_val_def)
qed

lemma digit_not_space: "is_digit c \<Longrightarrow> \<not> is_space c"
  by (auto simp: is_digit_def is_space_def)

lemma dropWhile_space_digits: "list_all is_digit s \<Longrightarrow> dropWhile is_space s = s"
  by (cases s) (auto simp: digit_not_space)

lemma strip_space_digits: "list_all is_digit s \<Longrightarrow> strip_space s = s"
  by (simp add: strip_space_def dropWhile_space_digits)

lemma parse_sign_digits: "s \<noteq> [] \<Longrightarrow> list_all is_digit s \<Longrightarrow> parse_sign s = (1, s)"
  by (cases s) (auto simp: parse_sign_def is_digit_def)

lemma parse_num_digits:
  assumes "s \<noteq> []" and "list_all is_digit s"
  shows "parse_num s = Some (real (digits_val s))"
proof -
  have tw: "takeWhile is_digit s = s" and dw: "dropWhile is_digit s = []"
    using assms(2) by (simp_all add: list_all_iff)
  show ?thesis
    using assms by (simp add: parse_num_def strip_space_digits parse_sign_digits parse_exp_def
        Let_def tw dw)
qed

lemma parse_num_nat_str: "parse_num (nat_str n) = Some (real n)"
  by (simp add: parse_num_digits nat_str_digits digits_val_nat_str)

section \<open>Lemmas: the mangling of duplicate names\<close>

lemma cnt_update: "cnt (AList.update k v al) k' = (if k = k' then v else cnt al k')"
  by (simp add: cnt_def update_conv)

lemma mangle_fresh:
  "mangle counts col = (counts', col') \<Longrightarrow>
     cnt counts' col' = 0 \<and> (\<forall>k. 0 < cnt counts' k \<longleftrightarrow> 0 < cnt counts k)"
proof (induction counts col arbitrary: counts' col' rule: mangle.induct)
  case (1 counts col)
  show ?case
  proof (cases "cnt counts col = 0")
    case True
    with "1.prems" show ?thesis by (simp add: mangle.simps [of counts col])
  next
    case False
    with "1.prems" have "mangle (AList.update col (Suc (cnt counts col)) counts)
        (col @ CHR ''.'' # nat_str (cnt counts col)) = (counts', col')"
      by (simp add: mangle.simps [of counts col])
    from "1.IH" [OF False this] False show ?thesis
      by (auto simp: cnt_update split: if_splits)
  qed
qed

lemma dedup_loop_fresh:
  "x \<in> set (dedup_loop counts cols) \<Longrightarrow> cnt counts x = 0"
proof (induction cols arbitrary: counts)
  case Nil
  then show ?case by simp
next
  case (Cons c cs)
  obtain counts' c' where m: "mangle counts c = (counts', c')" by fastforce
  from Cons.prems consider "x = c'" | "x \<in> set (dedup_loop (AList.update c' 1 counts') cs)"
    by (auto simp: m)
  then show ?case
  proof cases
    case 1
    with mangle_fresh [OF m] show ?thesis by (metis not_gr0)
  next
    case 2
    then have "cnt (AList.update c' 1 counts') x = 0" by (rule Cons.IH)
    then have "cnt counts' x = 0" by (simp add: cnt_update split: if_splits)
    with mangle_fresh [OF m] show ?thesis by (metis not_gr0)
  qed
qed

lemma dedup_loop_distinct: "distinct (dedup_loop counts cols)"
proof (induction cols arbitrary: counts)
  case Nil
  then show ?case by simp
next
  case (Cons c cs)
  obtain counts' c' where m: "mangle counts c = (counts', c')" by fastforce
  have "c' \<notin> set (dedup_loop (AList.update c' 1 counts') cs)"
    using dedup_loop_fresh [of c' "AList.update c' 1 counts'" cs] by (auto simp: cnt_update)
  with Cons.IH show ?case by (simp add: m)
qed

lemma length_dedup_loop [simp]: "length (dedup_loop counts cols) = length cols"
  by (induction cols arbitrary: counts) (auto split: prod.splits)

lemma dedup_loop_distinct_id:
  "distinct cols \<Longrightarrow> \<forall>c\<in>set cols. cnt counts c = 0 \<Longrightarrow> dedup_loop counts cols = cols"
proof (induction cols arbitrary: counts)
  case Nil
  then show ?case by simp
next
  case (Cons c cs)
  then have "mangle counts c = (counts, c)" by (simp add: mangle.simps [of counts c])
  moreover have "dedup_loop (AList.update c 1 counts) cs = cs"
    using Cons by (intro Cons.IH) (auto simp: cnt_update)
  ultimately show ?case by simp
qed

lemma dedup_names_distinct: "distinct (dedup_names names)"
  by (simp add: dedup_names_def dedup_loop_distinct)

lemma dedup_names_id: "distinct names \<Longrightarrow> dedup_names names = names"
  by (simp add: dedup_names_def dedup_loop_distinct_id cnt_def)

lemma length_dedup_names [simp]: "length (dedup_names names) = length names"
  by (simp add: dedup_names_def)

lemma unnamed_id: "\<forall>h\<in>set hs. h \<noteq> [] \<Longrightarrow> unnamed hs = hs"
proof -
  assume ne: "\<forall>h\<in>set hs. h \<noteq> []"
  have "unnamed hs = map snd (zip [0..<length hs] hs)"
    unfolding unnamed_def by (rule map_cong) (auto dest: set_zip_rightD simp: ne)
  then show ?thesis by simp
qed

lemma length_unnamed [simp]: "length (unnamed hs) = length hs"
  by (simp add: unnamed_def)

section \<open>Lemmas: the frame read\<close>

lemma col_len_infer [simp]: "col_len (infer_column fs) = length fs"
  by (simp add: infer_column_def)

lemma wf_build_frame: "distinct names \<Longrightarrow> wf_frame (build_frame names rows)"
  by (simp add: build_frame_def wf_frame_def col_names_def list_all_iff comp_def
      distinct_conv_nth)

lemma col_names_build_frame: "col_names (build_frame names rows) = names"
  by (simp add: build_frame_def col_names_def comp_def map_nth)

lemma mangle_extends: "mangle counts col = (counts', col') \<Longrightarrow> \<exists>sfx. col' = col @ sfx"
proof (induction counts col arbitrary: counts' col' rule: mangle.induct)
  case (1 counts col)
  show ?case
  proof (cases "cnt counts col = 0")
    case True
    with "1.prems" show ?thesis by (simp add: mangle.simps [of counts col])
  next
    case False
    with "1.prems" have "mangle (AList.update col (Suc (cnt counts col)) counts)
        (col @ CHR ''.'' # nat_str (cnt counts col)) = (counts', col')"
      by (simp add: mangle.simps [of counts col])
    from "1.IH" [OF False this] show ?thesis by auto
  qed
qed

lemma mangle_while_mangle: "mangle_while counts col = Some (mangle counts col)"
proof (induction counts col rule: mangle.induct)
  case (1 counts col)
  then show ?case
    by (cases "cnt counts col = 0") (simp_all add: mangle_while.simps [of counts col] mangle.simps [of counts col])
qed

lemma mangle_result:
  assumes "mangle counts col = (counts', col')"
  shows "cnt counts' col' = 0 \<and> (\<exists>sfx. col' = col @ sfx) \<and>
         (\<forall>k. 0 < cnt counts' k \<longleftrightarrow> 0 < cnt counts k)"
  using mangle_fresh [OF assms] mangle_extends [OF assms] by blast

text \<open>
  C18. The \<open>while\<close> loop that mangles a duplicate name always ends: run as written it
  returns the result of the terminating model \<open>mangle\<close>, a name that has no count yet
  and extends the original name.
\<close>

theorem mangle_loop_terminates:
  "mangle_while counts col = Some (mangle counts col) \<and>
   cnt (fst (mangle counts col)) (snd (mangle counts col)) = 0 \<and>
   (\<exists>sfx. snd (mangle counts col) = col @ sfx)"
proof -
  obtain counts' col' where m: "mangle counts col = (counts', col')" by fastforce
  show ?thesis
    using mangle_while_mangle [of counts col] mangle_result [OF m] m by simp
qed

end
