(* ===== verification/Tokenizer.thy ===== *)
theory Tokenizer
  imports Csv
begin

text \<open>
  The C tokenizer behind \<open>pd.read_csv('train.csv')\<close> (src/house_prices_eda.py, line 12):
  pandas 1.x \<open>tokenizer.c\<close>, \<open>tokenize_bytes\<close> with its states, \<open>end_field\<close>,
  \<open>end_line\<close> and \<open>parser_handle_eof\<close>, under the defaults the script uses (delimiter
  \<open>,\<close>, \<open>quotechar='\"'\<close> with \<open>doublequote=True\<close> and \<open>QUOTE_MINIMAL\<close>, no escape
  or comment character, \<open>skip_blank_lines=True\<close>, \<open>error_bad_lines=True\<close>, header on
  the first record). The tokenizer is a state machine over the characters of the file:
  \<open>tokenizer\<close> is its state, \<open>tok_step\<close> one character, \<open>tok_eof\<close> the end of the file,
  \<open>tokenize\<close> the whole file, giving the records (lists of fields) or the
  \<open>ParserError\<close> the C code reports. \<open>split_records\<close> is the reference reading of
  Csv: lines split at line feeds, blank lines dropped, fields split at commas, each record
  passed to \<open>end_line\<close>; on files without quotes whose carriage returns all end
  a line (CR LF line ends) the two agree.
\<close>

section \<open>The tokenizer state\<close>

datatype tok_state =
    START_RECORD | START_FIELD | IN_FIELD | IN_QUOTED_FIELD | QUOTE_IN_QUOTED_FIELD
  | EAT_CRNL | EAT_CRNL_NOP | WHITESPACE_LINE

abbreviation quotechar :: char where "quotechar \<equiv> CHR 0x22"
abbreviation delimiter :: char where "delimiter \<equiv> CHR 0x2C"
abbreviation lineterminator :: char where "lineterminator \<equiv> CHR 0x0A"
abbreviation carriage :: char where "carriage \<equiv> CHR 0x0D"

text \<open>\<open>IS_WHITESPACE\<close>: space or tab.\<close>

definition is_ws :: "char \<Rightarrow> bool" where
  "is_ws c \<longleftrightarrow> c = CHR '' '' \<or> c = CHR 0x09"

text \<open>
  \<open>tk_field\<close> is the field being read, last character first (the C stream buffer);
  \<open>tk_fields\<close> the fields of the current record; \<open>tk_records\<close> the records ended so
  far (\<open>lines\<close> is their number, \<open>line_fields\<close> their widths); \<open>tk_file_lines\<close> is
  \<open>file_lines\<close>, the line ends seen, blank lines included. In \<open>WHITESPACE_LINE\<close> the
  C code keeps the white space in its input buffer and backtracks to it; here
  \<open>tk_field\<close> holds it.
\<close>

record tokenizer =
  tk_state :: tok_state
  tk_field :: string
  tk_fields :: "string list"
  tk_records :: "string list list"
  tk_file_lines :: nat

definition tok_init :: tokenizer where
  "tok_init = \<lparr>tk_state = START_RECORD, tk_field = [], tk_fields = [], tk_records = [],
               tk_file_lines = 0\<rparr>"

section \<open>Ending fields and records\<close>

definition push_char :: "char \<Rightarrow> tokenizer \<Rightarrow> tokenizer" where
  "push_char c t = t\<lparr>tk_field := c # tk_field t\<rparr>"

definition end_field :: "tokenizer \<Rightarrow> tokenizer" where
  "end_field t = t\<lparr>tk_fields := tk_fields t @ [rev (tk_field t)], tk_field := []\<rparr>"

text \<open>
  \<open>end_line\<close> on the record \<open>flds\<close>, given \<open>file_lines\<close> and the records so far. From
  the second data record on (\<open>lines > header_end + 1\<close>) a record wider than the previous
  one raises \<open>ParserError\<close> (\<open>Expected ex fields in line file_lines + 1, saw n\<close>); a data
  record narrower than the previous one is filled with empty fields up to its width.
  The header (\<open>lines = 0\<close>) and the first data record are never rejected.
\<close>

definition end_line :: "nat \<Rightarrow> string list \<Rightarrow> string list list \<Rightarrow> string list list result" where
  "end_line file_lines flds records =
     (if records = [] then Inr [flds]
      else (let ex = length (last records)
            in if 2 \<le> length records \<and> ex < length flds
               then Inl (ParserError ex (Suc file_lines) (length flds))
               else Inr (records @ [flds @ replicate (ex - length flds) []])))"

text \<open>The macro \<open>END_LINE()\<close>: \<open>end_line\<close>, then the next record starts.\<close>

definition end_record :: "tokenizer \<Rightarrow> tokenizer result" where
  "end_record t =
     (case end_line (tk_file_lines t) (tk_fields t) (tk_records t) of
        Inl e \<Rightarrow> Inl e
      | Inr rs \<Rightarrow> Inr (t\<lparr>tk_records := rs, tk_fields := [], tk_file_lines := Suc (tk_file_lines t),
                         tk_state := START_RECORD\<rparr>))"

section \<open>One character\<close>

text \<open>The cases \<open>START_FIELD\<close>, \<open>IN_FIELD\<close> and \<open>START_RECORD\<close> of \<open>tokenize_bytes\<close>.\<close>

definition start_field :: "tokenizer \<Rightarrow> char \<Rightarrow> tokenizer result" where
  "start_field t c =
     (if c = lineterminator then end_record (end_field t)
      else if c = carriage then Inr ((end_field t)\<lparr>tk_state := EAT_CRNL\<rparr>)
      else if c = quotechar then Inr (t\<lparr>tk_state := IN_QUOTED_FIELD\<rparr>)
      else if c = delimiter then Inr (end_field t)
      else Inr ((push_char c t)\<lparr>tk_state := IN_FIELD\<rparr>))"

definition in_field :: "tokenizer \<Rightarrow> char \<Rightarrow> tokenizer result" where
  "in_field t c =
     (if c = lineterminator then end_record (end_field t)
      else if c = carriage then Inr ((end_field t)\<lparr>tk_state := EAT_CRNL\<rparr>)
      else if c = delimiter then Inr ((end_field t)\<lparr>tk_state := START_FIELD\<rparr>)
      else Inr (push_char c t))"

definition start_record :: "tokenizer \<Rightarrow> char \<Rightarrow> tokenizer result" where
  "start_record t c =
     (if c = lineterminator then Inr (t\<lparr>tk_file_lines := Suc (tk_file_lines t)\<rparr>)
      else if c = carriage then
        Inr (t\<lparr>tk_file_lines := Suc (tk_file_lines t), tk_state := EAT_CRNL_NOP\<rparr>)
      else if is_ws c then Inr ((push_char c t)\<lparr>tk_state := WHITESPACE_LINE\<rparr>)
      else start_field (t\<lparr>tk_state := START_FIELD\<rparr>) c)"

text \<open>
  The remaining cases. A line of white space only is skipped; at the first other
  character the C code backtracks and reads the line again from \<open>START_FIELD\<close>, which
  puts the white space into an unquoted field. After a carriage return, a character
  other than a line feed ends the record and is read again (\<open>EAT_CRNL\<close>, a delimiter
  then also ends an empty first field); after a skipped blank line ended by a carriage
  return a line feed or a delimiter is dropped (\<open>EAT_CRNL_NOP\<close>).
\<close>

fun tok_step :: "tokenizer \<Rightarrow> char \<Rightarrow> tokenizer result" where
  "tok_step t c =
     (case tk_state t of
        START_RECORD \<Rightarrow> start_record t c
      | START_FIELD \<Rightarrow> start_field t c
      | IN_FIELD \<Rightarrow> in_field t c
      | IN_QUOTED_FIELD \<Rightarrow>
          (if c = quotechar then Inr (t\<lparr>tk_state := QUOTE_IN_QUOTED_FIELD\<rparr>)
           else Inr (push_char c t))
      | QUOTE_IN_QUOTED_FIELD \<Rightarrow>
          (if c = quotechar then Inr ((push_char c t)\<lparr>tk_state := IN_QUOTED_FIELD\<rparr>)
           else if c = delimiter then Inr ((end_field t)\<lparr>tk_state := START_FIELD\<rparr>)
           else if c = lineterminator then end_record (end_field t)
           else if c = carriage then Inr ((end_field t)\<lparr>tk_state := EAT_CRNL\<rparr>)
           else Inr ((push_char c t)\<lparr>tk_state := IN_FIELD\<rparr>))
      | EAT_CRNL \<Rightarrow>
          (if c = lineterminator then end_record t
           else if c = delimiter then
             (case end_record t of
                Inl e \<Rightarrow> Inl e
              | Inr t' \<Rightarrow> Inr ((end_field t')\<lparr>tk_state := START_FIELD\<rparr>))
           else (case end_record t of Inl e \<Rightarrow> Inl e | Inr t' \<Rightarrow> start_record t' c))
      | EAT_CRNL_NOP \<Rightarrow>
          (if c = lineterminator \<or> c = delimiter then Inr (t\<lparr>tk_state := START_RECORD\<rparr>)
           else start_record (t\<lparr>tk_state := START_RECORD\<rparr>) c)
      | WHITESPACE_LINE \<Rightarrow>
          (if c = lineterminator then
             Inr (t\<lparr>tk_field := [], tk_file_lines := Suc (tk_file_lines t), tk_state := START_RECORD\<rparr>)
           else if c = carriage then
             Inr (t\<lparr>tk_field := [], tk_file_lines := Suc (tk_file_lines t), tk_state := EAT_CRNL_NOP\<rparr>)
           else if is_ws c then Inr (push_char c t)
           else in_field (t\<lparr>tk_state := IN_FIELD\<rparr>) c))"

declare tok_step.simps [simp del]

section \<open>The whole file\<close>

fun tok_chars :: "tokenizer \<Rightarrow> string \<Rightarrow> tokenizer result" where
  "tok_chars t [] = Inr t"
| "tok_chars t (c # cs) = (case tok_step t c of Inl e \<Rightarrow> Inl e | Inr t' \<Rightarrow> tok_chars t' cs)"

text \<open>
  \<open>parser_handle_eof\<close>: nothing is pending at the start of a record or on a blank line;
  an open quoted field is an error; otherwise the last field and record end.
\<close>

definition tok_eof :: "tokenizer \<Rightarrow> tokenizer result" where
  "tok_eof t =
     (case tk_state t of
        START_RECORD \<Rightarrow> Inr t
      | WHITESPACE_LINE \<Rightarrow> Inr t
      | EAT_CRNL_NOP \<Rightarrow> Inr t
      | IN_QUOTED_FIELD \<Rightarrow> Inl (ParserErrorEOF (tk_file_lines t))
      | EAT_CRNL \<Rightarrow> end_record t
      | _ \<Rightarrow> end_record (end_field t))"

text \<open>\<open>CHECK_FOR_BOM\<close>: a UTF-8 byte order mark at the start of the file is skipped.\<close>

definition bom :: string where
  "bom = [CHR 0xEF, CHR 0xBB, CHR 0xBF]"

definition skip_bom :: "string \<Rightarrow> string" where
  "skip_bom s = (if take 3 s = bom then drop 3 s else s)"

text \<open>
  \<open>_tokenize_helper\<close> over the whole file, then \<open>parser_handle_eof\<close>: the records
  read, or the first error.
\<close>

definition tok_run :: "tokenizer \<Rightarrow> string \<Rightarrow> string list list result" where
  "tok_run t s =
     (case tok_chars t s of
        Inl e \<Rightarrow> Inl e
      | Inr t' \<Rightarrow> (case tok_eof t' of Inl e \<Rightarrow> Inl e | Inr t'' \<Rightarrow> Inr (tk_records t'')))"

definition tokenize :: "string \<Rightarrow> string list list result" where
  "tokenize s = tok_run tok_init (skip_bom s)"

section \<open>The reference reading\<close>

text \<open>
  Lines split at \<open>\n\<close>, blank lines dropped, fields split at commas
  (\<open>numbered_lines\<close>, \<open>split_on\<close> of Csv), each record handed to \<open>end_line\<close> with the
  number of line ends before it.
\<close>

fun split_records :: "(nat \<times> string) list \<Rightarrow> string list list \<Rightarrow> string list list result" where
  "split_records [] rs = Inr rs"
| "split_records ((i, l) # ls) rs =
     (case end_line (i - 1) (split_on delimiter l) rs of
        Inl e \<Rightarrow> Inl e
      | Inr rs' \<Rightarrow> split_records ls rs')"

text \<open>A file whose every field is quoted (\<open>csv.QUOTE_ALL\<close>), one record per line.\<close>

definition quote_field :: "string \<Rightarrow> string" where
  "quote_field f = quotechar # concat (map (\<lambda>c. if c = quotechar then [c, c] else [c]) f) @ [quotechar]"

definition write_rows :: "string list list \<Rightarrow> string" where
  "write_rows rows = concat (map (\<lambda>r. join_on delimiter (map quote_field r) @ [lineterminator]) rows)"

section \<open>Predicates used by the proofs\<close>

text \<open>
  A character with no special meaning outside quotes; a tokenizer at the start of a
  record with nothing pending; the shape of the records \<open>end_line\<close> builds (the header
  at most as wide as the first data record, every later record as wide as that one).
\<close>

definition plain :: "char \<Rightarrow> bool" where
  "plain c \<longleftrightarrow> c \<noteq> quotechar \<and> c \<noteq> carriage \<and> c \<noteq> lineterminator"

definition at_record_start :: "tokenizer \<Rightarrow> bool" where
  "at_record_start t \<longleftrightarrow> tk_state t = START_RECORD \<and> tk_field t = [] \<and> tk_fields t = []"

definition records_ok :: "string list list \<Rightarrow> bool" where
  "records_ok rs \<longleftrightarrow>
     (case rs of
        h # r1 # rest \<Rightarrow> length h \<le> length r1 \<and> (\<forall>r\<in>set rest. length r = length r1)
      | _ \<Rightarrow> True)"

text \<open>The exceptions the C parser raises: \<open>pandas.errors.ParserError\<close>.\<close>

fun parser_error :: "py_error \<Rightarrow> bool" where
  "parser_error (ParserError n j k) = True"
| "parser_error (ParserErrorEOF n) = True"
| "parser_error e = False"

section \<open>Lemmas: unquoted lines\<close>

lemma tok_chars_append:
  "tok_chars t (xs @ ys) = (case tok_chars t xs of Inl e \<Rightarrow> Inl e | Inr t' \<Rightarrow> tok_chars t' ys)"
  by (induction t xs rule: tok_chars.induct) (auto split: sum.splits)

lemma tok_step_state:
  "tk_state t = START_RECORD \<Longrightarrow> tok_step t c = start_record t c"
  "tk_state t = START_FIELD \<Longrightarrow> tok_step t c = start_field t c"
  "tk_state t = IN_FIELD \<Longrightarrow> tok_step t c = in_field t c"
  by (simp_all add: tok_step.simps)

lemma field_step:
  assumes "tk_state t \<in> {START_FIELD, IN_FIELD}" and "plain c"
  shows "tok_step t c =
           (if c = delimiter then Inr ((end_field t)\<lparr>tk_state := START_FIELD\<rparr>)
            else Inr ((push_char c t)\<lparr>tk_state := IN_FIELD\<rparr>))"
proof (cases "tk_state t = START_FIELD")
  case True
  then have "(end_field t)\<lparr>tk_state := START_FIELD\<rparr> = end_field t"
    by (simp add: end_field_def)
  with True assms(2) show ?thesis
    by (simp add: tok_step_state start_field_def plain_def)
next
  case False
  with assms have "tk_state t = IN_FIELD" by simp
  with assms(2) show ?thesis
    by (simp add: tok_step_state in_field_def plain_def push_char_def)
qed

lemma field_run:
  assumes "tk_state t \<in> {START_FIELD, IN_FIELD}" and "list_all plain s"
  shows "\<exists>st. st \<in> {START_FIELD, IN_FIELD} \<and>
           tok_chars t s = Inr (t\<lparr>tk_state := st,
             tk_fields := tk_fields t @ butlast (split_acc delimiter (tk_field t) s),
             tk_field := rev (last (split_acc delimiter (tk_field t) s))\<rparr>)"
  using assms
proof (induction s arbitrary: t)
  case Nil
  then show ?case by (intro exI [of _ "tk_state t"]) simp
next
  case (Cons c cs)
  show ?case
  proof (cases "c = delimiter")
    case True
    let ?t = "(end_field t)\<lparr>tk_state := START_FIELD\<rparr>"
    from Cons.IH [of ?t] Cons.prems obtain st where "st \<in> {START_FIELD, IN_FIELD}"
      "tok_chars ?t cs = Inr (?t\<lparr>tk_state := st,
             tk_fields := tk_fields ?t @ butlast (split_acc delimiter (tk_field ?t) cs),
             tk_field := rev (last (split_acc delimiter (tk_field ?t) cs))\<rparr>)"
      by auto
    with True Cons.prems show ?thesis
      by (intro exI [of _ st]) (simp add: field_step end_field_def)
  next
    case False
    let ?t = "(push_char c t)\<lparr>tk_state := IN_FIELD\<rparr>"
    from Cons.IH [of ?t] Cons.prems obtain st where "st \<in> {START_FIELD, IN_FIELD}"
      "tok_chars ?t cs = Inr (?t\<lparr>tk_state := st,
             tk_fields := tk_fields ?t @ butlast (split_acc delimiter (tk_field ?t) cs),
             tk_field := rev (last (split_acc delimiter (tk_field ?t) cs))\<rparr>)"
      by auto
    with False Cons.prems show ?thesis
      by (intro exI [of _ st]) (simp add: field_step push_char_def)
  qed
qed

lemma tok_run_append:
  "tok_run t (xs @ ys) = (case tok_chars t xs of Inl e \<Rightarrow> Inl e | Inr t' \<Rightarrow> tok_run t' ys)"
  by (simp add: tok_run_def tok_chars_append split: sum.splits)

lemma tok_run_Cons:
  "tok_run t (c # cs) = (case tok_step t c of Inl e \<Rightarrow> Inl e | Inr t' \<Rightarrow> tok_run t' cs)"
  by (simp add: tok_run_def split: sum.splits)

lemma is_blank_ws: "is_blank l \<longleftrightarrow> list_all is_ws l"
  by (simp add: is_blank_def is_ws_def list_all_iff)

lemma ws_special: "is_ws c \<Longrightarrow> c \<noteq> lineterminator \<and> c \<noteq> carriage \<and> c \<noteq> delimiter \<and> c \<noteq> quotechar"
  by (auto simp: is_ws_def)

lemma ws_run:
  "tk_state t = WHITESPACE_LINE \<Longrightarrow> list_all is_ws s \<Longrightarrow>
     tok_chars t s = Inr (t\<lparr>tk_field := rev s @ tk_field t\<rparr>)"
proof (induction s arbitrary: t)
  case (Cons c cs)
  then have "tok_step t c = Inr (push_char c t)"
    by (simp add: tok_step.simps ws_special)
  with Cons show ?case by (simp add: push_char_def)
qed simp

lemma record_start_ws:
  "at_record_start t \<Longrightarrow> is_ws c \<Longrightarrow>
     tok_step t c = Inr (t\<lparr>tk_state := WHITESPACE_LINE, tk_field := [c]\<rparr>)"
  by (simp add: at_record_start_def tok_step_state start_record_def ws_special push_char_def)

lemma line_blank:
  assumes "at_record_start t" and "is_blank l"
  shows "tok_chars t l = Inr (if l = [] then t else t\<lparr>tk_state := WHITESPACE_LINE, tk_field := rev l\<rparr>)"
proof (cases l)
  case (Cons c cs)
  with assms have "tok_step t c = Inr (t\<lparr>tk_state := WHITESPACE_LINE, tk_field := [c]\<rparr>)"
    by (simp add: record_start_ws is_blank_ws)
  with assms Cons show ?thesis by (simp add: ws_run is_blank_ws)
qed simp

lemma start_record_plain:
  "at_record_start t \<Longrightarrow> plain c \<Longrightarrow> \<not> is_ws c \<Longrightarrow>
     tok_step t c = tok_step (t\<lparr>tk_state := START_FIELD\<rparr>) c"
  by (simp add: at_record_start_def tok_step_state start_record_def plain_def)

lemma whitespace_line_plain:
  "tk_state t = WHITESPACE_LINE \<Longrightarrow> plain c \<Longrightarrow> \<not> is_ws c \<Longrightarrow>
     tok_step t c = tok_step (t\<lparr>tk_state := IN_FIELD\<rparr>) c"
  by (simp add: tok_step.simps plain_def)

lemma tok_chars_Cons_cong:
  "tok_step t c = tok_step t' c \<Longrightarrow> tok_chars t (c # cs) = tok_chars t' (c # cs)"
  by simp

lemma split_on_ws:
  "list_all is_ws ws \<Longrightarrow> split_acc delimiter (rev ws) s = split_on delimiter (ws @ s)"
proof -
  assume "list_all is_ws ws"
  then have "delimiter \<notin> set ws" by (auto simp: list_all_iff dest: ws_special)
  then show ?thesis by (simp add: split_on_def split_acc_append)
qed

lemma line_fields:
  assumes st: "at_record_start t" and pl: "list_all plain l" and nb: "\<not> is_blank l"
  shows "\<exists>st. st \<in> {START_FIELD, IN_FIELD} \<and>
           tok_chars t l = Inr (t\<lparr>tk_state := st, tk_fields := butlast (split_on delimiter l),
                                  tk_field := rev (last (split_on delimiter l))\<rparr>)"
proof -
  define ws where "ws = takeWhile is_ws l"
  obtain c rest where cr: "dropWhile is_ws l = c # rest"
    using nb by (cases "dropWhile is_ws l") (auto simp: is_blank_ws list_all_iff)
  have l: "l = ws @ c # rest"
    using takeWhile_dropWhile_id [of is_ws l] by (simp add: ws_def cr)
  have wsw: "list_all is_ws ws"
    by (auto simp: ws_def list_all_iff dest: set_takeWhileD)
  have c: "\<not> is_ws c" using cr by (metis dropWhile_eq_Cons_conv)
  have pc: "plain c" and pr: "list_all plain rest" using pl by (simp_all add: l)
  obtain t1 where t1: "tok_chars t ws = Inr t1" and s1: "tk_state t1 \<noteq> WHITESPACE_LINE \<Longrightarrow> ws = []"
    and next1: "tok_step t1 c = tok_step (t\<lparr>tk_state := if ws = [] then START_FIELD else IN_FIELD,
                                             tk_field := rev ws\<rparr>) c"
  proof (cases ws)
    case Nil
    have "t\<lparr>tk_state := START_FIELD, tk_field := []\<rparr> = t\<lparr>tk_state := START_FIELD\<rparr>"
      using st by (cases t) (simp add: at_record_start_def)
    with st pc c Nil show ?thesis
      by (intro that [of t]) (simp_all add: start_record_plain)
  next
    case (Cons w ws')
    then have ne: "ws \<noteq> []" by simp
    let ?t1 = "t\<lparr>tk_state := WHITESPACE_LINE, tk_field := rev ws\<rparr>"
    have "is_blank ws" using wsw by (simp add: is_blank_ws)
    from line_blank [OF st this] ne have "tok_chars t ws = Inr ?t1"
      by (simp del: tok_chars.simps)
    moreover have upd: "t\<lparr>tk_field := rev ws, tk_state := IN_FIELD\<rparr> = t\<lparr>tk_state := IN_FIELD, tk_field := rev ws\<rparr>"
      by (cases t) simp
    ultimately show ?thesis using pc c ne
      by (intro that [of ?t1]) (simp_all add: whitespace_line_plain upd)
  qed
  define t2 where "t2 = t\<lparr>tk_state := if ws = [] then START_FIELD else IN_FIELD, tk_field := rev ws\<rparr>"
  have "tok_chars t l = tok_chars t2 (c # rest)"
    using t1 next1 by (simp add: l tok_chars_append t2_def)
  moreover have "tk_state t2 \<in> {START_FIELD, IN_FIELD}" by (simp add: t2_def)
  moreover have "list_all plain (c # rest)" using pc pr by simp
  ultimately obtain st' where "st' \<in> {START_FIELD, IN_FIELD}"
    "tok_chars t l = Inr (t2\<lparr>tk_state := st',
             tk_fields := tk_fields t2 @ butlast (split_acc delimiter (tk_field t2) (c # rest)),
             tk_field := rev (last (split_acc delimiter (tk_field t2) (c # rest)))\<rparr>)"
    using field_run by metis
  moreover have "split_acc delimiter (tk_field t2) (c # rest) = split_on delimiter l"
    by (simp add: t2_def l split_on_ws [OF wsw] del: split_acc.simps)
  ultimately show ?thesis
    using st by (intro exI [of _ st']) (simp add: t2_def at_record_start_def)
qed

lemma fieldlike_end:
  "tk_state t \<in> {START_FIELD, IN_FIELD} \<Longrightarrow> tok_step t lineterminator = end_record (end_field t)"
  by (auto simp: tok_step_state start_field_def in_field_def)

lemma fieldlike_eof:
  "tk_state t \<in> {START_FIELD, IN_FIELD} \<Longrightarrow> tok_eof t = end_record (end_field t)"
  by (auto simp: tok_eof_def)

lemma line_end_record:
  assumes st: "at_record_start t" and pl: "list_all plain l" and nb: "\<not> is_blank l"
  shows "\<exists>t'. tok_chars t l = Inr t' \<and> tk_state t' \<in> {START_FIELD, IN_FIELD} \<and>
           end_record (end_field t') =
             (case end_line (tk_file_lines t) (split_on delimiter l) (tk_records t) of
                Inl e \<Rightarrow> Inl e
              | Inr rs \<Rightarrow> Inr (t\<lparr>tk_records := rs, tk_file_lines := Suc (tk_file_lines t)\<rparr>))"
proof -
  obtain st' where s': "st' \<in> {START_FIELD, IN_FIELD}"
    and r: "tok_chars t l = Inr (t\<lparr>tk_state := st', tk_fields := butlast (split_on delimiter l),
                                  tk_field := rev (last (split_on delimiter l))\<rparr>)"
    using line_fields [OF st pl nb] by blast
  define P where "P = split_on delimiter l"
  define t' where "t' = t\<lparr>tk_state := st', tk_fields := butlast P, tk_field := rev (last P)\<rparr>"
  have ne: "P \<noteq> []" by (simp add: split_on_def P_def)
  then have e: "end_field t' = t\<lparr>tk_state := st', tk_fields := P, tk_field := []\<rparr>"
    by (simp add: t'_def end_field_def)
  have "end_record (end_field t') =
          (case end_line (tk_file_lines t) P (tk_records t) of
             Inl e \<Rightarrow> Inl e
           | Inr rs \<Rightarrow> Inr (t\<lparr>tk_records := rs, tk_file_lines := Suc (tk_file_lines t)\<rparr>))"
    using st by (cases t) (simp add: e at_record_start_def end_record_def split: sum.splits)
  with r s' show ?thesis by (auto simp: t'_def P_def)
qed

lemma line_blank_end:
  "at_record_start t \<Longrightarrow> is_blank l \<Longrightarrow>
     tok_chars t (l @ [lineterminator]) = Inr (t\<lparr>tk_file_lines := Suc (tk_file_lines t)\<rparr>)"
  by (cases t) (auto simp: tok_chars_append line_blank tok_step.simps start_record_def at_record_start_def)

lemma line_blank_eof:
  "at_record_start t \<Longrightarrow> is_blank l \<Longrightarrow> tok_run t l = Inr (tk_records t)"
  by (auto simp: tok_run_def line_blank tok_eof_def at_record_start_def)

lemma at_record_start_next:
  "at_record_start t \<Longrightarrow> at_record_start (t\<lparr>tk_records := rs, tk_file_lines := n\<rparr>)"
  "at_record_start t \<Longrightarrow> at_record_start (t\<lparr>tk_file_lines := n\<rparr>)"
  by (simp_all add: at_record_start_def)

lemma tok_run_lines:
  assumes "at_record_start t" and "ls \<noteq> []" and "\<forall>l\<in>set ls. list_all plain l"
  shows "tok_run t (join_on lineterminator ls) =
           split_records (filter (\<lambda>(i, l). \<not> is_blank l)
             (zip [Suc (tk_file_lines t)..<Suc (tk_file_lines t) + length ls] ls)) (tk_records t)"
  using assms
proof (induction ls arbitrary: t)
  case Nil
  then show ?case by simp
next
  case (Cons l ls)
  let ?k = "tk_file_lines t"
  have up: "[Suc ?k..<Suc (Suc (?k + length ls))] = Suc ?k # [Suc (Suc ?k)..<Suc (Suc (?k + length ls))]"
    by (subst upt_conv_Cons) auto
  have pl: "list_all plain l" using Cons.prems(3) by simp
  show ?case
  proof (cases "ls = []")
    case True
    show ?thesis
    proof (cases "is_blank l")
      case True
      with \<open>ls = []\<close> Cons.prems(1) show ?thesis by (simp add: line_blank_eof)
    next
      case False
      from line_end_record [OF Cons.prems(1) pl False] obtain t' where
        "tok_chars t l = Inr t'" "tk_state t' \<in> {START_FIELD, IN_FIELD}"
        "end_record (end_field t') =
           (case end_line ?k (split_on delimiter l) (tk_records t) of
              Inl e \<Rightarrow> Inl e
            | Inr rs \<Rightarrow> Inr (t\<lparr>tk_records := rs, tk_file_lines := Suc ?k\<rparr>))"
        by blast
      with \<open>ls = []\<close> False show ?thesis
        by (simp add: tok_run_def fieldlike_eof split: sum.splits)
    qed
  next
    case False
    then have j: "join_on lineterminator (l # ls) = l @ [lineterminator] @ join_on lineterminator ls"
      by (simp add: join_on_Cons)
    have pls: "\<forall>l\<in>set ls. list_all plain l" using Cons.prems(3) by simp
    show ?thesis
    proof (cases "is_blank l")
      case True
      have "tok_chars t (l @ [lineterminator]) = Inr (t\<lparr>tk_file_lines := Suc ?k\<rparr>)"
        using line_blank_end [OF Cons.prems(1) True] .
      with Cons.IH [OF at_record_start_next(2) [OF Cons.prems(1), of "Suc ?k"] False pls] True show ?thesis
        by (simp add: j up tok_run_append [of t "l @ [lineterminator]", simplified] del: upt_Suc)
    next
      case nb: False
      from line_end_record [OF Cons.prems(1) pl nb] obtain t' where
        t': "tok_chars t l = Inr t'" "tk_state t' \<in> {START_FIELD, IN_FIELD}"
        "end_record (end_field t') =
           (case end_line ?k (split_on delimiter l) (tk_records t) of
              Inl e \<Rightarrow> Inl e
            | Inr rs \<Rightarrow> Inr (t\<lparr>tk_records := rs, tk_file_lines := Suc ?k\<rparr>))"
        by blast
      show ?thesis
      proof (cases "end_line ?k (split_on delimiter l) (tk_records t)")
        case (Inl e)
        with t' nb show ?thesis
          by (simp add: j up tok_run_append tok_run_Cons fieldlike_end del: upt_Suc)
      next
        case (Inr rs)
        with t' nb Cons.IH [OF at_record_start_next(1) [OF Cons.prems(1), where rs = rs and n = "Suc ?k"] False pls] show ?thesis
          by (simp add: j up tok_run_append tok_run_Cons fieldlike_end del: upt_Suc)
      qed
    qed
  qed
qed

lemma split_acc_pieces:
  "l \<in> set (split_acc d acc s) \<Longrightarrow> d \<notin> set acc \<Longrightarrow> set l \<subseteq> set acc \<union> set s \<and> d \<notin> set l"
  by (induction d acc s rule: split_acc.induct) (auto split: if_splits)

lemma strip_cr_id: "carriage \<notin> set l \<Longrightarrow> strip_cr l = l"
  by (cases l rule: rev_cases) (auto simp: strip_cr_def)


section \<open>Lemmas: CR LF line ends\<close>

lemma strip_cr_cases: "l = strip_cr l \<or> l = strip_cr l @ [carriage]"
  by (cases l rule: rev_cases) (auto simp: strip_cr_def)

lemma tok_chars_single: "tok_chars t [c] = tok_step t c"
  by (simp split: sum.split)

lemma eat_crnl_lf: "tk_state t = EAT_CRNL \<Longrightarrow> tok_step t lineterminator = end_record t"
  by (simp add: tok_step.simps)

lemma fieldlike_cr:
  "tk_state t \<in> {START_FIELD, IN_FIELD} \<Longrightarrow>
     tok_step t carriage = Inr ((end_field t)\<lparr>tk_state := EAT_CRNL\<rparr>)"
  by (auto simp: tok_step_state start_field_def in_field_def)

lemma end_record_state: "end_record (t\<lparr>tk_state := st\<rparr>) = end_record t"
  by (simp add: end_record_def split: sum.split)

lemma line_cr_end:
  assumes st: "at_record_start t" and pl: "list_all plain l"
  shows "tok_chars t (l @ [carriage, lineterminator]) = tok_chars t (l @ [lineterminator])"
proof (cases "is_blank l")
  case True
  from line_blank [OF st True] st show ?thesis
    by (cases t) (auto simp: tok_chars_append tok_step.simps start_record_def at_record_start_def)
next
  case False
  from line_fields [OF st pl False] obtain st' where "st' \<in> {START_FIELD, IN_FIELD}"
    "tok_chars t l = Inr (t\<lparr>tk_state := st', tk_fields := butlast (split_on delimiter l),
                           tk_field := rev (last (split_on delimiter l))\<rparr>)"
    by blast
  then obtain t' where t': "tok_chars t l = Inr t'" "tk_state t' \<in> {START_FIELD, IN_FIELD}" by force
  have "tok_chars t' [carriage, lineterminator] = tok_chars t' [lineterminator]"
    using t'(2) by (simp add: fieldlike_cr eat_crnl_lf end_record_state fieldlike_end)
  then show ?thesis by (simp add: tok_chars_append [of t l] t'(1))
qed

lemma line_cr_eof:
  assumes st: "at_record_start t" and pl: "list_all plain l"
  shows "tok_run t (l @ [carriage]) = tok_run t l"
proof (cases "is_blank l")
  case True
  from line_blank [OF st True] st show ?thesis
    by (cases t) (auto simp: tok_run_def tok_chars_append tok_step.simps start_record_def tok_eof_def
        at_record_start_def)
next
  case False
  from line_fields [OF st pl False] obtain st' where "st' \<in> {START_FIELD, IN_FIELD}"
    "tok_chars t l = Inr (t\<lparr>tk_state := st', tk_fields := butlast (split_on delimiter l),
                           tk_field := rev (last (split_on delimiter l))\<rparr>)"
    by blast
  then obtain t' where t': "tok_chars t l = Inr t'" "tk_state t' \<in> {START_FIELD, IN_FIELD}" by force
  have "tok_eof ((end_field t')\<lparr>tk_state := EAT_CRNL\<rparr>) = tok_eof t'"
    using t'(2) by (auto simp: tok_eof_def end_record_state)
  then show ?thesis
    using t' by (simp add: tok_run_def tok_chars_append fieldlike_cr)
qed

lemma line_next_start:
  assumes st: "at_record_start t" and pl: "list_all plain l"
    and r: "tok_chars t (l @ [lineterminator]) = Inr t'"
  shows "at_record_start t'"
proof (cases "is_blank l")
  case True
  with r line_blank_end [OF st True] have "t' = t\<lparr>tk_file_lines := Suc (tk_file_lines t)\<rparr>" by simp
  then show ?thesis by (simp add: at_record_start_next(2) [OF st])
next
  case nb: False
  from line_end_record [OF st pl nb] obtain u where
    u: "tok_chars t l = Inr u" "tk_state u \<in> {START_FIELD, IN_FIELD}"
    "end_record (end_field u) =
       (case end_line (tk_file_lines t) (split_on delimiter l) (tk_records t) of
          Inl e \<Rightarrow> Inl e
        | Inr rs \<Rightarrow> Inr (t\<lparr>tk_records := rs, tk_file_lines := Suc (tk_file_lines t)\<rparr>))"
    by blast
  with r st show ?thesis
    by (auto simp: tok_chars_append [of t l] fieldlike_end at_record_start_def split: sum.splits)
qed

lemma tok_run_strip_cr:
  assumes "at_record_start t" and "ls \<noteq> []" and "\<forall>l\<in>set ls. list_all plain (strip_cr l)"
  shows "tok_run t (join_on lineterminator ls) = tok_run t (join_on lineterminator (map strip_cr ls))"
  using assms
proof (induction ls arbitrary: t)
  case Nil
  then show ?case by simp
next
  case (Cons l ls)
  have pl: "list_all plain (strip_cr l)" using Cons.prems(3) by simp
  define l' where "l' = strip_cr l"
  have cases: "l = l' \<or> l = l' @ [carriage]" using strip_cr_cases [of l] by (simp add: l'_def)
  have line: "tok_chars t (l @ [lineterminator]) = tok_chars t (strip_cr l @ [lineterminator])"
    using cases line_cr_end [OF Cons.prems(1) pl] by (auto simp: l'_def [symmetric])
  show ?case
  proof (cases "ls = []")
    case True
    then show ?thesis
      using cases line_cr_eof [OF Cons.prems(1) pl] by (auto simp: l'_def [symmetric])
  next
    case False
    have pls: "\<forall>l\<in>set ls. list_all plain (strip_cr l)" using Cons.prems(3) by simp
    have "tok_run t (join_on lineterminator (l # ls)) =
            (case tok_chars t (strip_cr l @ [lineterminator]) of Inl e \<Rightarrow> Inl e
             | Inr t' \<Rightarrow> tok_run t' (join_on lineterminator ls))"
      using False line tok_run_append [of t "l @ [lineterminator]"] by (simp add: join_on_Cons)
    also have "\<dots> = (case tok_chars t (strip_cr l @ [lineterminator]) of Inl e \<Rightarrow> Inl e
             | Inr t' \<Rightarrow> tok_run t' (join_on lineterminator (map strip_cr ls)))"
      using Cons.IH [OF line_next_start [OF Cons.prems(1) pl] False pls] by (simp split: sum.split)
    also have "\<dots> = tok_run t (join_on lineterminator (map strip_cr (l # ls)))"
      using False tok_run_append [of t "strip_cr l @ [lineterminator]"] by (simp add: join_on_Cons)
    finally show ?thesis .
  qed
qed

lemma strip_cr_subset: "set (strip_cr l) \<subseteq> set l"
  by (auto simp: strip_cr_def dest: in_set_butlastD)

section \<open>The tokenizer refines the line-based reading\<close>

lemma tokenize_crlf_lines:
  assumes q: "quotechar \<notin> set s"
    and cr: "\<forall>l\<in>set (split_on lineterminator s). carriage \<notin> set (strip_cr l)"
    and b: "take 3 s \<noteq> bom"
  shows "tokenize s = split_records (numbered_lines s) []"
proof -
  define ls where "ls = split_on lineterminator s"
  have j: "join_on lineterminator ls = s" by (simp add: ls_def split_on_def join_split_acc)
  have ne: "ls \<noteq> []" by (simp add: ls_def split_on_def)
  have pieces: "set l \<subseteq> set s \<and> lineterminator \<notin> set l" if "l \<in> set ls" for l
    using split_acc_pieces [of l lineterminator "[]" s] that by (simp add: ls_def split_on_def)
  have pl: "\<forall>l\<in>set ls. list_all plain (strip_cr l)"
  proof
    fix l assume l: "l \<in> set ls"
    with pieces [OF l] strip_cr_subset [of l] q cr show "list_all plain (strip_cr l)"
      by (fastforce simp: list_all_iff plain_def ls_def)
  qed
  have pl': "\<forall>l\<in>set (map strip_cr ls). list_all plain l" using pl by simp
  have nl: "numbered_lines s =
      filter (\<lambda>(i, l). \<not> is_blank l) (zip [Suc 0..<Suc 0 + length (map strip_cr ls)] (map strip_cr ls))"
    by (simp add: numbered_lines_def Let_def ls_def)
  have st: "at_record_start tok_init" by (simp add: at_record_start_def tok_init_def)
  have "tokenize s = tok_run tok_init (join_on lineterminator ls)"
    using b j by (simp add: tokenize_def tok_run_def skip_bom_def)
  also have "\<dots> = tok_run tok_init (join_on lineterminator (map strip_cr ls))"
    by (rule tok_run_strip_cr [OF st ne pl])
  also have "\<dots> = split_records (numbered_lines s) []"
    using tok_run_lines [OF st _ pl'] ne nl by (simp add: tok_init_def)
  finally show ?thesis .
qed

lemma tokenize_plain_lines:
  assumes "list_all (\<lambda>c. c \<noteq> quotechar \<and> c \<noteq> carriage) s" and "take 3 s \<noteq> bom"
  shows "tokenize s = split_records (numbered_lines s) []"
proof (rule tokenize_crlf_lines [OF _ _ assms(2)])
  show "quotechar \<notin> set s" using assms(1) by (auto simp: list_all_iff)
  show "\<forall>l\<in>set (split_on lineterminator s). carriage \<notin> set (strip_cr l)"
    using assms(1) split_acc_pieces [of _ lineterminator "[]" s] strip_cr_subset
    by (fastforce simp: list_all_iff split_on_def)
qed

text \<open>
  C14. On a file without quote characters or byte order mark whose carriage returns all
  end a line (Unix or Windows line ends), the character-level tokenizer reads exactly what
  the line-based reading of Csv reads: lines split at line feeds with one trailing carriage
  return dropped, blank lines skipped, fields split at commas, each record checked and padded
  by \<open>end_line\<close>; results and errors (with their line numbers) agree.
\<close>

theorem tokenize_plain:
  assumes "quotechar \<notin> set s"
    and "\<forall>l\<in>set (split_on lineterminator s). carriage \<notin> set (strip_cr l)"
    and "take 3 s \<noteq> bom"
  shows "tokenize s = split_records (numbered_lines s) []"
  using assms by (rule tokenize_crlf_lines)

section \<open>Lemmas: quoted fields\<close>

lemma quoted_step:
  "tk_state t = IN_QUOTED_FIELD \<Longrightarrow>
     tok_step t c = (if c = quotechar then Inr (t\<lparr>tk_state := QUOTE_IN_QUOTED_FIELD\<rparr>) else Inr (push_char c t))"
  "tk_state t = QUOTE_IN_QUOTED_FIELD \<Longrightarrow>
     tok_step t quotechar = Inr ((push_char quotechar t)\<lparr>tk_state := IN_QUOTED_FIELD\<rparr>)"
  "tk_state t = QUOTE_IN_QUOTED_FIELD \<Longrightarrow>
     tok_step t delimiter = Inr ((end_field t)\<lparr>tk_state := START_FIELD\<rparr>)"
  "tk_state t = QUOTE_IN_QUOTED_FIELD \<Longrightarrow>
     tok_step t lineterminator = end_record (end_field t)"
  by (simp_all add: tok_step.simps)

lemma in_quoted_plain:
  "tk_state t = IN_QUOTED_FIELD \<Longrightarrow> quotechar \<notin> set s \<Longrightarrow>
     tok_chars t s = Inr (t\<lparr>tk_field := rev s @ tk_field t\<rparr>)"
proof (induction s arbitrary: t)
  case (Cons c cs)
  then have "c \<noteq> quotechar" by auto
  with Cons show ?case by (simp add: quoted_step push_char_def)
qed simp

lemma in_quoted_run:
  "tk_state t = IN_QUOTED_FIELD \<Longrightarrow>
     tok_chars t (concat (map (\<lambda>c. if c = quotechar then [c, c] else [c]) f) @ [quotechar]) =
       Inr (t\<lparr>tk_state := QUOTE_IN_QUOTED_FIELD, tk_field := rev f @ tk_field t\<rparr>)"
proof (induction f arbitrary: t)
  case Nil
  then show ?case by (simp add: quoted_step)
next
  case (Cons c f)
  let ?rest = "concat (map (\<lambda>c. if c = quotechar then [c, c] else [c]) f) @ [quotechar]"
  define t' where "t' = (if c = quotechar then t\<lparr>tk_state := IN_QUOTED_FIELD, tk_field := c # tk_field t\<rparr>
                         else t\<lparr>tk_field := c # tk_field t\<rparr>)"
  have split: "concat (map (\<lambda>c. if c = quotechar then [c, c] else [c]) (c # f)) @ [quotechar] =
                 (if c = quotechar then [c, c] else [c]) @ ?rest"
    by simp
  have first: "tok_chars t (if c = quotechar then [c, c] else [c]) = Inr t'"
    using Cons.prems by (simp add: quoted_step push_char_def t'_def)
  have "tk_state t' = IN_QUOTED_FIELD" using Cons.prems by (simp add: t'_def)
  from Cons.IH [OF this] have "tok_chars t' ?rest =
      Inr (t'\<lparr>tk_state := QUOTE_IN_QUOTED_FIELD, tk_field := rev f @ tk_field t'\<rparr>)" .
  then show ?case
    unfolding split tok_chars_append first by (simp add: t'_def)
qed

lemma quoted_field_run:
  "tk_state t = START_FIELD \<Longrightarrow>
     tok_chars t (quote_field f) = Inr (t\<lparr>tk_state := QUOTE_IN_QUOTED_FIELD, tk_field := rev f @ tk_field t\<rparr>)"
  by (simp add: quote_field_def tok_step_state start_field_def in_quoted_run)

lemma quoted_fields_run:
  "tk_state t = START_FIELD \<Longrightarrow> tk_field t = [] \<Longrightarrow> r \<noteq> [] \<Longrightarrow>
     tok_chars t (join_on delimiter (map quote_field r)) =
       Inr (t\<lparr>tk_state := QUOTE_IN_QUOTED_FIELD, tk_fields := tk_fields t @ butlast r,
              tk_field := rev (last r)\<rparr>)"
proof (induction r arbitrary: t)
  case Nil
  then show ?case by simp
next
  case (Cons f r)
  show ?case
  proof (cases "r = []")
    case True
    with Cons.prems show ?thesis by (simp add: quoted_field_run)
  next
    case False
    let ?t = "t\<lparr>tk_state := START_FIELD, tk_fields := tk_fields t @ [f], tk_field := []\<rparr>"
    have j: "join_on delimiter (map quote_field (f # r)) =
               (quote_field f @ [delimiter]) @ join_on delimiter (map quote_field r)"
      using False by (cases r) auto
    have first: "tok_chars t (quote_field f @ [delimiter]) = Inr ?t"
      using Cons.prems by (simp add: tok_chars_append quoted_field_run quoted_step end_field_def)
    have "tk_state ?t = START_FIELD" "tk_field ?t = []" by simp_all
    note ih = Cons.IH [OF this False]
    show ?thesis
      unfolding j tok_chars_append [of t "quote_field f @ [delimiter]"] first sum.case ih
      using False by simp
  qed
qed

lemma quote_field_hd: "\<exists>cs. quote_field f = quotechar # cs"
  by (simp add: quote_field_def)

lemma end_record_restore:
  "at_record_start t \<Longrightarrow>
     end_record (t\<lparr>tk_state := st, tk_fields := r, tk_field := []\<rparr>) =
       (case end_line (tk_file_lines t) r (tk_records t) of
          Inl e \<Rightarrow> Inl e
        | Inr rs \<Rightarrow> Inr (t\<lparr>tk_records := rs, tk_file_lines := Suc (tk_file_lines t)\<rparr>))"
  by (cases t) (simp add: end_record_def at_record_start_def split: sum.split)

lemma quoted_record_run:
  assumes st: "at_record_start t" and ne: "r \<noteq> []"
  shows "tok_chars t (join_on delimiter (map quote_field r) @ [lineterminator]) =
           (case end_line (tk_file_lines t) r (tk_records t) of
              Inl e \<Rightarrow> Inl e
            | Inr rs \<Rightarrow> Inr (t\<lparr>tk_records := rs, tk_file_lines := Suc (tk_file_lines t)\<rparr>))"
proof -
  let ?J = "join_on delimiter (map quote_field r)"
  let ?t1 = "t\<lparr>tk_state := QUOTE_IN_QUOTED_FIELD, tk_fields := butlast r, tk_field := rev (last r)\<rparr>"
  obtain f r' where r: "r = f # r'" using ne by (cases r) auto
  obtain cs where q: "?J = quotechar # cs"
    using quote_field_hd [of f] by (cases r') (auto simp: r)
  have "tok_step t quotechar = tok_step (t\<lparr>tk_state := START_FIELD\<rparr>) quotechar"
    using st by (simp add: at_record_start_def tok_step_state start_record_def is_ws_def)
  then have "tok_chars t ?J = tok_chars (t\<lparr>tk_state := START_FIELD\<rparr>) ?J"
    unfolding q by (rule tok_chars_Cons_cong)
  also have "\<dots> = Inr ?t1"
    using st ne by (simp add: quoted_fields_run at_record_start_def)
  finally have j: "tok_chars t ?J = Inr ?t1" .
  have "end_field ?t1 = t\<lparr>tk_state := QUOTE_IN_QUOTED_FIELD, tk_fields := r, tk_field := []\<rparr>"
    using ne by (simp add: end_field_def)
  then have "tok_chars ?t1 [lineterminator] =
               end_record (t\<lparr>tk_state := QUOTE_IN_QUOTED_FIELD, tk_fields := r, tk_field := []\<rparr>)"
    by (simp add: quoted_step split: sum.split)
  then show ?thesis
    unfolding tok_chars_append j sum.case by (simp only: end_record_restore [OF st])
qed

lemma end_line_same_width:
  "\<forall>x\<in>set rs. length x = length r \<Longrightarrow> end_line k r rs = Inr (rs @ [r])"
  by (cases rs rule: rev_cases) (auto simp: end_line_def Let_def)

lemma write_rows_Cons:
  "write_rows (r # rows) = (join_on delimiter (map quote_field r) @ [lineterminator]) @ write_rows rows"
  by (simp add: write_rows_def)

lemma write_rows_run:
  assumes "at_record_start t" and "\<forall>r\<in>set rows. length r = w" and "0 < w"
    and "\<forall>x\<in>set (tk_records t). length x = w"
  shows "tok_chars t (write_rows rows) =
           Inr (t\<lparr>tk_records := tk_records t @ rows, tk_file_lines := tk_file_lines t + length rows\<rparr>)"
  using assms
proof (induction rows arbitrary: t)
  case Nil
  then show ?case by (simp add: write_rows_def)
next
  case (Cons r rows)
  let ?t1 = "t\<lparr>tk_records := tk_records t @ [r], tk_file_lines := Suc (tk_file_lines t)\<rparr>"
  have ne: "r \<noteq> []" using Cons.prems(2,3) by auto
  have "end_line (tk_file_lines t) r (tk_records t) = Inr (tk_records t @ [r])"
    using Cons.prems(2,4) by (simp add: end_line_same_width)
  then have first: "tok_chars t (join_on delimiter (map quote_field r) @ [lineterminator]) = Inr ?t1"
    by (simp add: quoted_record_run [OF Cons.prems(1) ne])
  have "tok_chars ?t1 (write_rows rows) =
          Inr (?t1\<lparr>tk_records := tk_records ?t1 @ rows, tk_file_lines := tk_file_lines ?t1 + length rows\<rparr>)"
    using Cons.prems by (intro Cons.IH) (auto simp: at_record_start_def)
  then show ?case
    unfolding write_rows_Cons tok_chars_append [of t "join_on delimiter (map quote_field r) @ [lineterminator]"]
      first sum.case by simp
qed

lemma write_rows_hd:
  assumes "\<forall>r\<in>set rows. length r = w" and "0 < w" and "rows \<noteq> []"
  shows "\<exists>cs. write_rows rows = quotechar # cs"
proof -
  obtain r rows' where rs: "rows = r # rows'" using assms(3) by (cases rows) auto
  then obtain f r' where "r = f # r'" using assms(1,2) by (cases r) auto
  then show ?thesis using quote_field_hd [of f] by (cases r') (auto simp: rs write_rows_Cons)
qed

lemma skip_bom_quote: "skip_bom (quotechar # cs) = quotechar # cs"
  by (simp add: skip_bom_def bom_def)

lemma tokenize_quoted:
  assumes "\<forall>r\<in>set rows. length r = w" and "0 < w" and "rows \<noteq> [] \<or> skip_bom s = s"
  shows "tokenize (write_rows rows @ s) = tok_run (tok_init\<lparr>tk_records := rows, tk_file_lines := length rows\<rparr>) s"
proof -
  have "skip_bom (write_rows rows @ s) = write_rows rows @ s" if "rows \<noteq> []"
    using write_rows_hd [OF assms(1,2) that] skip_bom_quote by auto
  moreover have "at_record_start tok_init" by (simp add: at_record_start_def tok_init_def)
  ultimately show ?thesis
    using write_rows_run [of tok_init rows w] assms(1,2,3)
    by (cases "rows = []") (simp_all add: tokenize_def tok_run_def tok_chars_append tok_init_def write_rows_def)
qed


section \<open>Quoted fields\<close>

text \<open>
  C15. Quoting round trip: rows of equal, positive width written with every field
  quoted (embedded quotes doubled) are read back exactly, whatever the fields contain:
  commas, quotes, line feeds or carriage returns.
\<close>

theorem quoted_roundtrip:
  assumes "\<forall>r\<in>set rows. length r = w" and "0 < w"
  shows "tokenize (write_rows rows) = Inr rows"
  using tokenize_quoted [OF assms, of "[]"]
  by (simp add: skip_bom_def bom_def tok_run_def tok_eof_def tok_init_def)


text \<open>
  C16. A quoted field left open at the end of the file raises
  \<open>ParserError\<close> (\<open>EOF inside string starting at row n\<close>), where \<open>n\<close> counts the
  lines ended before it.
\<close>

theorem unclosed_quote_error:
  assumes "\<forall>r\<in>set rows. length r = w" and "0 < w" and "quotechar \<notin> set s"
  shows "tokenize (write_rows rows @ quotechar # s) = Inl (ParserErrorEOF (length rows))"
proof -
  let ?t = "tok_init\<lparr>tk_records := rows, tk_file_lines := length rows\<rparr>"
  have "tok_step ?t quotechar = Inr (?t\<lparr>tk_state := IN_QUOTED_FIELD\<rparr>)"
    by (simp add: tok_init_def tok_step_state start_record_def start_field_def is_ws_def)
  moreover have "tok_chars (?t\<lparr>tk_state := IN_QUOTED_FIELD\<rparr>) s =
                   Inr (?t\<lparr>tk_state := IN_QUOTED_FIELD, tk_field := rev s\<rparr>)"
    using assms(3) by (simp add: in_quoted_plain tok_init_def)
  ultimately show ?thesis
    using tokenize_quoted [OF assms(1,2), of "quotechar # s"]
    by (simp add: skip_bom_quote tok_run_def tok_eof_def)
qed

section \<open>Lemmas: the shape invariant\<close>

lemma records_ok_snoc:
  "records_ok (h # r1 # rest) \<Longrightarrow> length r = length r1 \<Longrightarrow> records_ok (h # r1 # rest @ [r])"
  by (simp add: records_ok_def)

lemma last_records_ok:
  "records_ok (h # r1 # rest) \<Longrightarrow> length (last (h # r1 # rest)) = length r1"
  by (cases rest rule: rev_cases) (auto simp: records_ok_def)

lemma end_line_ok:
  assumes "end_line k f rs = Inr rs'" and "records_ok rs"
  shows "records_ok rs'"
proof (cases rs)
  case Nil
  with assms show ?thesis by (auto simp: end_line_def records_ok_def)
next
  case (Cons h rest)
  show ?thesis
  proof (cases rest)
    case Nil
    with assms Cons show ?thesis by (auto simp: end_line_def records_ok_def)
  next
    case (Cons r1 rest')
    with \<open>rs = h # rest\<close> have rs: "rs = h # r1 # rest'" by simp
    have w: "length (last rs) = length r1" "rs \<noteq> []" "2 \<le> length rs"
      using last_records_ok [of h r1 rest'] assms(2) by (simp_all add: rs)
    from assms(1) w have "length f \<le> length r1"
      and "rs' = rs @ [f @ replicate (length r1 - length f) []]"
      by (auto simp: end_line_def Let_def split: if_splits)
    with assms(2) show ?thesis
      by (simp add: rs records_ok_snoc [where rest = rest', simplified])
  qed
qed

lemma end_record_ok:
  "end_record t = Inr t' \<Longrightarrow> records_ok (tk_records t) \<Longrightarrow> records_ok (tk_records t')"
  by (auto simp: end_record_def split: sum.splits intro: end_line_ok)

lemma end_record_field_ok:
  "end_record (end_field t) = Inr t' \<Longrightarrow> records_ok (tk_records t) \<Longrightarrow> records_ok (tk_records t')"
  using end_record_ok [of "end_field t" t'] by (simp add: end_field_def)

lemma start_field_ok:
  "start_field t c = Inr t' \<Longrightarrow> records_ok (tk_records t) \<Longrightarrow> records_ok (tk_records t')"
  by (auto simp: start_field_def end_field_def push_char_def split: if_splits dest: end_record_ok)

lemma in_field_ok:
  "in_field t c = Inr t' \<Longrightarrow> records_ok (tk_records t) \<Longrightarrow> records_ok (tk_records t')"
  by (auto simp: in_field_def end_field_def push_char_def split: if_splits dest: end_record_ok)

lemma start_record_ok:
  "start_record t c = Inr t' \<Longrightarrow> records_ok (tk_records t) \<Longrightarrow> records_ok (tk_records t')"
  by (auto simp: start_record_def push_char_def split: if_splits dest: start_field_ok)

lemma tok_step_ok:
  assumes "tok_step t c = Inr t'" and "records_ok (tk_records t)"
  shows "records_ok (tk_records t')"
proof (cases "tk_state t")
  case EAT_CRNL
  with assms show ?thesis
    by (auto simp: tok_step.simps end_field_def split: if_splits sum.splits
        dest: end_record_ok start_record_ok)
qed (use assms in \<open>auto simp: tok_step.simps end_field_def push_char_def split: if_splits
        dest: end_record_ok start_record_ok start_field_ok in_field_ok\<close>)

lemma tok_chars_ok:
  "tok_chars t s = Inr t' \<Longrightarrow> records_ok (tk_records t) \<Longrightarrow> records_ok (tk_records t')"
  by (induction t s rule: tok_chars.induct) (auto split: sum.splits dest: tok_step_ok)


section \<open>The shape of the records\<close>

lemma tokenize_shape:
  "tokenize s = Inr rs \<Longrightarrow> records_ok rs"
proof -
  assume r: "tokenize s = Inr rs"
  then obtain t t' where "tok_chars tok_init (skip_bom s) = Inr t" "tok_eof t = Inr t'" "rs = tk_records t'"
    by (auto simp: tokenize_def tok_run_def split: sum.splits)
  moreover have "records_ok (tk_records tok_init)" by (simp add: tok_init_def records_ok_def)
  ultimately show ?thesis
    by (auto simp: tok_eof_def split: tok_state.splits dest: tok_chars_ok end_record_ok end_record_field_ok)
qed

text \<open>
  C17. The shape of what the tokenizer returns: the header is at most as wide as the first
  data record, and every later record has exactly the width of the first data record
  (wider ones raise \<open>ParserError\<close>, narrower ones are padded).
\<close>

theorem tokenize_records_ok:
  "tokenize s = Inr rs \<Longrightarrow> records_ok rs"
  by (rule tokenize_shape)

section \<open>Lemmas: the errors of the tokenizer\<close>

lemma end_line_Inl: "end_line k f rs = Inl e \<Longrightarrow> parser_error e"
  by (auto simp: end_line_def Let_def split: if_splits)

lemma end_record_Inl: "end_record t = Inl e \<Longrightarrow> parser_error e"
  by (auto simp: end_record_def split: sum.splits dest: end_line_Inl)

lemma start_record_Inl: "start_record t c = Inl e \<Longrightarrow> parser_error e"
  by (auto simp: start_record_def start_field_def split: if_splits dest: end_record_Inl)

lemma tok_step_Inl: "tok_step t c = Inl e \<Longrightarrow> parser_error e"
  by (auto simp: tok_step.simps start_field_def in_field_def split: tok_state.splits if_splits sum.splits
      dest: end_record_Inl start_record_Inl)

lemma tok_chars_Inl: "tok_chars t s = Inl e \<Longrightarrow> parser_error e"
  by (induction t s rule: tok_chars.induct) (auto split: sum.splits dest: tok_step_Inl)

lemma tokenize_Inl: "tokenize s = Inl e \<Longrightarrow> parser_error e"
  by (auto simp: tokenize_def tok_run_def tok_eof_def split: sum.splits tok_state.splits
      dest: tok_chars_Inl end_record_Inl)

end
