(* ===== verification/Read_Csv.thy ===== *)
theory Read_Csv
  imports Tokenizer
begin

text \<open>
  \<open>df_train = pd.read_csv('train.csv')\<close> (src/house_prices_eda.py, line 12): the file
  system is a map from paths to contents; a missing path raises \<open>FileNotFoundError\<close>.
  The contents go through the tokenizer (theory Tokenizer), whose \<open>ParserError\<close>s come
  first; a file with no record raises \<open>EmptyDataError\<close>. The first record is the
  header, named by \<open>unnamed\<close> and \<open>dedup_names\<close> (Csv); every data record becomes a row
  of a frame with a \<open>RangeIndex\<close>, its fields NaN when they are NA tokens, each column
  numeric when all its values parse. A header with no data rows gives empty object
  columns. A first data row wider than the header makes pandas take the extra leading
  fields as the index; the model stops there with \<open>ImplicitIndex\<close>.
\<close>

section \<open>Reading the file\<close>

definition empty_frame :: "string list \<Rightarrow> frame" where
  "empty_frame names = \<lparr>index = [], columns = map (\<lambda>n. (n, StrCol [])) names\<rparr>"

definition parse_csv :: "string \<Rightarrow> frame result" where
  "parse_csv content =
     (case tokenize content of
        Inl e \<Rightarrow> Inl e
      | Inr [] \<Rightarrow> Inl EmptyDataError
      | Inr (h # rows) \<Rightarrow>
          (if rows = [] then Inr (empty_frame (dedup_names (unnamed h)))
           else if length h < length (hd rows) then Inl (ImplicitIndex (length (hd rows) - length h))
           else Inr (build_frame (dedup_names (unnamed h)) (map (map na_field) rows))))"

definition read_csv :: "(string \<rightharpoonup> string) \<Rightarrow> string \<Rightarrow> frame result" where
  "read_csv fs path =
     (case fs path of None \<Rightarrow> Inl (FileNotFoundError path) | Some content \<Rightarrow> parse_csv content)"

section \<open>Lemmas\<close>

lemma records_ok_rows:
  assumes "records_ok (h # rows)" and "rows \<noteq> []" and "\<not> length h < length (hd rows)"
  shows "\<forall>r\<in>set rows. length r = length h"
proof -
  obtain r1 rest where "rows = r1 # rest" using assms(2) by (cases rows) auto
  with assms show ?thesis by (auto simp: records_ok_def)
qed

lemma wf_empty_frame: "distinct names \<Longrightarrow> wf_frame (empty_frame names)"
  by (simp add: empty_frame_def wf_frame_def col_names_def list_all_iff comp_def)

lemma col_names_empty_frame: "col_names (empty_frame names) = names"
  by (simp add: empty_frame_def col_names_def comp_def)

lemma parse_csv_Inr:
  assumes "parse_csv content = Inr df"
  obtains h rows where "tokenize content = Inr (h # rows)" and "\<forall>r\<in>set rows. length r = length h"
    and "df = (if rows = [] then empty_frame (dedup_names (unnamed h))
               else build_frame (dedup_names (unnamed h)) (map (map na_field) rows))"
proof -
  obtain h rows where t: "tokenize content = Inr (h # rows)"
    using assms by (auto simp: parse_csv_def split: sum.splits list.splits)
  have ok: "records_ok (h # rows)" by (rule tokenize_shape [OF t])
  have ni: "rows \<noteq> [] \<Longrightarrow> \<not> length h < length (hd rows)"
    using assms by (auto simp: parse_csv_def t split: if_splits)
  have w: "\<forall>r\<in>set rows. length r = length h"
    using records_ok_rows [OF ok] ni by (cases "rows = []") auto
  have "df = (if rows = [] then empty_frame (dedup_names (unnamed h))
              else build_frame (dedup_names (unnamed h)) (map (map na_field) rows))"
    using assms by (auto simp: parse_csv_def t split: if_splits)
  with t w that show ?thesis by blast
qed

lemma index_frames [simp]:
  "index (empty_frame names) = []"
  "index (build_frame names rows) = [0..<length rows]"
  by (simp_all add: empty_frame_def build_frame_def)

lemma parse_csv_frame:
  assumes "parse_csv content = Inr df"
  shows "\<exists>h rows. tokenize content = Inr (h # rows) \<and> (\<forall>r\<in>set rows. length r = length h) \<and>
           wf_frame df \<and> col_names df = dedup_names (unnamed h) \<and> index df = [0..<length rows]"
  using assms
proof (rule parse_csv_Inr)
  fix h rows
  assume t: "tokenize content = Inr (h # rows)" and w: "\<forall>r\<in>set rows. length r = length h"
    and df: "df = (if rows = [] then empty_frame (dedup_names (unnamed h))
                   else build_frame (dedup_names (unnamed h)) (map (map na_field) rows))"
  have "wf_frame df \<and> col_names df = dedup_names (unnamed h) \<and> index df = [0..<length rows]"
    using df by (cases "rows = []") (simp_all add: wf_empty_frame wf_build_frame
        dedup_names_distinct col_names_empty_frame col_names_build_frame)
  with t w show ?thesis by blast
qed

lemma read_csv_wf: "read_csv fs p = Inr df \<Longrightarrow> wf_frame df"
  by (auto simp: read_csv_def split: option.splits dest: parse_csv_frame)

lemma split_records_fit:
  "rs \<noteq> [] \<Longrightarrow> \<forall>(j, l)\<in>set ls. length (split_on delimiter l) \<le> length (last rs) \<Longrightarrow>
     split_records ls rs =
       Inr (rs @ map (\<lambda>(j, l). split_on delimiter l @
                         replicate (length (last rs) - length (split_on delimiter l)) []) ls)"
proof (induction ls arbitrary: rs)
  case (Cons jl ls)
  obtain j l where jl: "jl = (j, l)" by fastforce
  let ?r = "split_on delimiter l @ replicate (length (last rs) - length (split_on delimiter l)) []"
  have e: "end_line (j - 1) (split_on delimiter l) rs = Inr (rs @ [?r])"
    using Cons.prems by (simp add: jl end_line_def Let_def)
  have "split_records ls (rs @ [?r]) =
          Inr ((rs @ [?r]) @ map (\<lambda>(j, l). split_on delimiter l @
                 replicate (length (last (rs @ [?r])) - length (split_on delimiter l)) []) ls)"
    using Cons.prems by (intro Cons.IH) (auto simp: jl)
  with e Cons.prems show ?case by (simp add: jl)
qed simp

lemma split_records_error:
  "split_records ls rs = Inl (ParserError n j k) \<Longrightarrow> \<forall>(i, l)\<in>set ls. 0 < i \<Longrightarrow>
     \<exists>l. (j, l) \<in> set ls \<and> k = length (split_on delimiter l) \<and> n < k"
proof (induction ls rs rule: split_records.induct)
  case (2 i l ls rs)
  show ?case
  proof (cases "end_line (i - 1) (split_on delimiter l) rs")
    case (Inl e)
    with "2.prems" show ?thesis
      by (auto simp: end_line_def Let_def split: if_splits)
  next
    case (Inr rs')
    with "2.IH" [OF Inr] "2.prems" show ?thesis by auto
  qed
qed simp

lemma numbered_lines_pos: "(i, l) \<in> set (numbered_lines s) \<Longrightarrow> 0 < i"
  by (auto simp: numbered_lines_def Let_def simp del: upt_Suc dest!: set_zip_leftD)

lemma parse_csv_parser_error:
  "parse_csv content = Inl (ParserError n j k) \<Longrightarrow> tokenize content = Inl (ParserError n j k)"
  by (auto simp: parse_csv_def split: sum.splits list.splits if_splits)

lemma read_csv_implicit_index:
  "fs path = Some content \<Longrightarrow> tokenize content = Inr (h # r # rows) \<Longrightarrow> length h < length r \<Longrightarrow>
     read_csv fs path = Inl (ImplicitIndex (length r - length h))"
  by (simp add: read_csv_def parse_csv_def)

lemma read_csv_Inl:
  "read_csv fs path = Inl e \<Longrightarrow>
     e = FileNotFoundError path \<or> e = EmptyDataError \<or> parser_error e \<or> (\<exists>k. e = ImplicitIndex k)"
  by (auto simp: read_csv_def parse_csv_def split: option.splits sum.splits list.splits if_splits
      dest: tokenize_Inl)

lemmas read_csv_eval = read_csv_def parse_csv_def tokenize_def tok_run_def skip_bom_def bom_def
  tok_init_def tok_step.simps start_record_def start_field_def in_field_def push_char_def
  end_field_def end_record_def end_line_def tok_eof_def is_ws_def
  dedup_names_def unnamed_def mangle.simps cnt_def build_frame_def empty_frame_def
  na_field_def na_tokens_def infer_column_def parse_num_def parse_sign_def strip_space_def
  is_space_def is_digit_def parse_exp_def digits_val_def digit_val_def nat_str.simps
  digit_chars_def Let_def

section \<open>Properties of the loading step\<close>

text \<open>
  C11. A successful \<open>read_csv\<close> reads an existing file that the tokenizer splits into a
  header and records all as wide as the header; the frame is well formed, its columns are
  the header fields (named and de-duplicated as pandas does) and its index is
  \<open>0, 1, \<dots>\<close>, one label per data record.
\<close>

theorem read_csv_frame:
  assumes "read_csv fs path = Inr df"
  shows "\<exists>content h rows. fs path = Some content \<and> tokenize content = Inr (h # rows) \<and>
           (\<forall>r\<in>set rows. length r = length h) \<and> wf_frame df \<and>
           col_names df = dedup_names (unnamed h) \<and> index df = [0..<length rows]"
proof -
  obtain content where c: "fs path = Some content" and p: "parse_csv content = Inr df"
    using assms by (cases "fs path") (auto simp: read_csv_def)
  from c parse_csv_frame [OF p] show ?thesis by blast
qed

lemma read_csv_Inr_iff:
  "(\<exists>df. read_csv fs path = Inr df) \<longleftrightarrow>
     (\<exists>content h rows. fs path = Some content \<and> tokenize content = Inr (h # rows) \<and>
        (\<forall>r\<in>set rows. length r = length h))"
proof
  assume "\<exists>df. read_csv fs path = Inr df"
  then obtain df content where "fs path = Some content" "parse_csv content = Inr df"
    by (cases "fs path") (auto simp: read_csv_def)
  then show "\<exists>content h rows. fs path = Some content \<and> tokenize content = Inr (h # rows) \<and>
        (\<forall>r\<in>set rows. length r = length h)"
    using parse_csv_frame by blast
next
  assume "\<exists>content h rows. fs path = Some content \<and> tokenize content = Inr (h # rows) \<and>
        (\<forall>r\<in>set rows. length r = length h)"
  then obtain content h rows where "fs path = Some content" "tokenize content = Inr (h # rows)"
    "\<forall>r\<in>set rows. length r = length h"
    by blast
  then show "\<exists>df. read_csv fs path = Inr df"
    by (cases rows) (auto simp: read_csv_def parse_csv_def)
qed

lemma read_csv_parser_error_line:
  assumes "fs path = Some content"
    and "list_all (\<lambda>c. c \<noteq> quotechar \<and> c \<noteq> carriage) content" and "take 3 content \<noteq> bom"
    and "read_csv fs path = Inl (ParserError n j k)"
  shows "\<exists>l. (j, l) \<in> set (numbered_lines content) \<and> k = length (split_on delimiter l) \<and> n < k"
proof -
  have "tokenize content = Inl (ParserError n j k)"
    using assms(1,4) by (simp add: read_csv_def parse_csv_parser_error)
  then have "split_records (numbered_lines content) [] = Inl (ParserError n j k)"
    using tokenize_plain_lines [OF assms(2,3)] by simp
  then show ?thesis
    using numbered_lines_pos by (blast dest: split_records_error)
qed

text \<open>
  C13. \<open>read_csv\<close> succeeds exactly when the file exists, the tokenizer reads it without
  error into at least one record, and no data record is wider than the header;
  otherwise it raises \<open>FileNotFoundError\<close>, the tokenizer's \<open>ParserError\<close>,
  \<open>EmptyDataError\<close>, or stops at an implicit index. For a plain file (no quotes, carriage
  returns or byte order mark) a \<open>ParserError\<close> names a real line of the file: its line
  number is that of a non-blank line with more fields than the record before it, and the
  error reports both counts.
\<close>

theorem read_csv_succeeds_iff:
  "((\<exists>df. read_csv fs path = Inr df) \<longleftrightarrow>
     (\<exists>content h rows. fs path = Some content \<and> tokenize content = Inr (h # rows) \<and>
        (\<forall>r\<in>set rows. length r = length h))) \<and>
   (fs path = Some content \<and> list_all (\<lambda>c. c \<noteq> quotechar \<and> c \<noteq> carriage) content \<and>
    take 3 content \<noteq> bom \<and> read_csv fs path = Inl (ParserError n j k) \<longrightarrow>
      (\<exists>l. (j, l) \<in> set (numbered_lines content) \<and> k = length (split_on delimiter l) \<and> n < k))"
proof (intro conjI impI)
  show "(\<exists>df. read_csv fs path = Inr df) \<longleftrightarrow>
     (\<exists>content h rows. fs path = Some content \<and> tokenize content = Inr (h # rows) \<and>
        (\<forall>r\<in>set rows. length r = length h))"
    by (rule read_csv_Inr_iff)
next
  assume a: "fs path = Some content \<and> list_all (\<lambda>c. c \<noteq> quotechar \<and> c \<noteq> carriage) content \<and>
    take 3 content \<noteq> bom \<and> read_csv fs path = Inl (ParserError n j k)"
  then have "fs path = Some content" "list_all (\<lambda>c. c \<noteq> quotechar \<and> c \<noteq> carriage) content"
    "take 3 content \<noteq> bom" "read_csv fs path = Inl (ParserError n j k)"
    by simp_all
  then show "\<exists>l. (j, l) \<in> set (numbered_lines content) \<and> k = length (split_on delimiter l) \<and> n < k"
    by (rule read_csv_parser_error_line)
qed

text \<open>
  C12. The specification's loading property, for a plain file (no quotes, carriage
  returns or byte order mark): with a header of distinct, non-empty names and data lines
  no wider than the header, \<open>read_csv\<close> succeeds, the columns are exactly the header
  names and there is one row per non-blank data line.
\<close>

theorem read_csv_header:
  assumes "fs path = Some content"
    and "list_all (\<lambda>c. c \<noteq> quotechar \<and> c \<noteq> carriage) content" and "take 3 content \<noteq> bom"
    and "numbered_lines content = (i, h) # rows"
    and "distinct (split_on delimiter h)" and "\<forall>f\<in>set (split_on delimiter h). f \<noteq> []"
    and "\<forall>(j, l)\<in>set rows. length (split_on delimiter l) \<le> length (split_on delimiter h)"
  shows "\<exists>df. read_csv fs path = Inr df \<and> col_names df = split_on delimiter h \<and>
             length (index df) = length rows"
proof -
  let ?H = "split_on delimiter h"
  let ?rows = "map (\<lambda>(j, l). split_on delimiter l @ replicate (length ?H - length (split_on delimiter l)) []) rows"
  have "end_line (i - 1) ?H [] = Inr [?H]" by (simp add: end_line_def)
  then have t: "tokenize content = Inr (?H # ?rows)"
    using tokenize_plain_lines [OF assms(2,3)] split_records_fit [of "[?H]" rows] assms(4,7) by simp
  have w: "\<forall>r\<in>set ?rows. length r = length ?H" using assms(7) by auto
  have names: "dedup_names (unnamed ?H) = ?H"
    using assms(5,6) by (simp add: unnamed_id dedup_names_id)
  define df where "df = (if ?rows = [] then empty_frame ?H else build_frame ?H (map (map na_field) ?rows))"
  have "parse_csv content = Inr df"
    using w by (cases rows) (auto simp: parse_csv_def t names df_def)
  then have "read_csv fs path = Inr df" using assms(1) by (simp add: read_csv_def)
  moreover have "col_names df = ?H \<and> length (index df) = length rows"
    by (simp add: df_def col_names_empty_frame col_names_build_frame)
  ultimately show ?thesis by blast
qed

end
