(* ===== verification/Stats.thy ===== *)
theory Stats
  imports Frame
begin

text \<open>
  The statistics of the target column: \<open>df_train['SalePrice'].describe()\<close> (line 15)
  and \<open>df_train['SalePrice'].skew()\<close> (line 28), computed by pandas' NaN-skipping
  reductions (\<open>nanops\<close>). The skewness convention of the docstring at lines 30--34
  is prose that no statement of the script applies, so it is not modelled. Values are
  exact reals. \<open>nanskew\<close> is modelled with its guards: NaN below three values, 0 when
  the sum of squared deviations is 0, and its \<open>_zero_out_fperr\<close>, which replaces a sum
  of squared or cubed deviations of magnitude below \<open>1e-14\<close> by 0.
\<close>

section \<open>Moments\<close>

definition mean :: "real list \<Rightarrow> real" where
  "mean xs = sum_list xs / real (length xs)"

text \<open>\<open>adjusted ** k\<close> summed: the sum of the \<open>k\<close>-th powers of the deviations from the mean.\<close>

definition dev_sum :: "nat \<Rightarrow> real list \<Rightarrow> real" where
  "dev_sum k xs = (\<Sum>x\<leftarrow>xs. (x - mean xs) ^ k)"

definition zero_out_fperr :: "real \<Rightarrow> real" where
  "zero_out_fperr x = (if \<bar>x\<bar> < 1 / 10 ^ 14 then 0 else x)"

section \<open>Series reductions\<close>

definition series_count :: "real option list \<Rightarrow> nat" where
  "series_count v = length (dropna v)"

definition series_mean :: "real option list \<Rightarrow> real option" where
  "series_mean v = (if dropna v = [] then None else Some (mean (dropna v)))"

text \<open>\<open>nanvar\<close> with \<open>ddof=1\<close>: NaN unless there are at least two values.\<close>

definition series_var :: "real option list \<Rightarrow> real option" where
  "series_var v =
     (let xs = dropna v in
      if length xs \<le> 1 then None else Some (dev_sum 2 xs / real (length xs - 1)))"

definition series_std :: "real option list \<Rightarrow> real option" where
  "series_std v = map_option sqrt (series_var v)"

definition series_min :: "real option list \<Rightarrow> real option" where
  "series_min v = (if dropna v = [] then None else Some (Min (set (dropna v))))"

definition series_max :: "real option list \<Rightarrow> real option" where
  "series_max v = (if dropna v = [] then None else Some (Max (set (dropna v))))"

text \<open>
  \<open>quantile(q)\<close> with linear interpolation (numpy's \<open>percentile\<close>, method
  \<open>linear\<close>): the sorted values \<open>ys\<close>, the virtual index \<open>h = (n - 1) q\<close>, and the
  value between \<open>ys ! \<lfloor>h\<rfloor>\<close> and the next one (the last one at the end).
\<close>

definition interp :: "real list \<Rightarrow> real \<Rightarrow> real" where
  "interp ys h =
     (let lo = nat \<lfloor>h\<rfloor>; hi = min (Suc lo) (length ys - 1)
      in ys ! lo + (h - real lo) * (ys ! hi - ys ! lo))"

definition quantile :: "real list \<Rightarrow> real \<Rightarrow> real" where
  "quantile xs q = interp (sort xs) (real (length xs - 1) * q)"

definition series_quantile :: "real option list \<Rightarrow> real \<Rightarrow> real option" where
  "series_quantile v q = (if dropna v = [] then None else Some (quantile (dropna v) q))"

record description =
  d_count :: nat
  d_mean :: "real option"
  d_std :: "real option"
  d_min :: "real option"
  d_q25 :: "real option"
  d_q50 :: "real option"
  d_q75 :: "real option"
  d_max :: "real option"

definition describe :: "real option list \<Rightarrow> description" where
  "describe v =
     \<lparr>d_count = series_count v, d_mean = series_mean v, d_std = series_std v,
      d_min = series_min v, d_q25 = series_quantile v (1 / 4), d_q50 = series_quantile v (1 / 2),
      d_q75 = series_quantile v (3 / 4), d_max = series_max v\<rparr>"

text \<open>
  \<open>nanskew\<close>: \<open>count * (count - 1) ** 0.5 / (count - 2) * (m3 / m2 ** 1.5)\<close>, 0 where
  \<open>m2 = 0\<close>, NaN below three values.
\<close>

definition series_skew :: "real option list \<Rightarrow> real option" where
  "series_skew v =
     (let xs = dropna v; n = real (length xs);
          m2 = zero_out_fperr (dev_sum 2 xs); m3 = zero_out_fperr (dev_sum 3 xs)
      in if length xs < 3 then None
         else if m2 = 0 then Some 0
         else Some (n * sqrt (n - 1) / (n - 2) * (m3 / (m2 * sqrt m2))))"

text \<open>\<open>df[name].skew()\<close> on an object column raises \<open>TypeError\<close>.\<close>

definition col_skew :: "column \<Rightarrow> real option result" where
  "col_skew c =
     (case c of NumCol v \<Rightarrow> Inr (series_skew v)
      | StrCol _ \<Rightarrow> Inl (TypeError ''could not convert string to float''))"

section \<open>Lemmas: moments under shifts, reflections and symmetry\<close>

lemma sum_list_shift: "(\<Sum>x\<leftarrow>xs. x + b) = sum_list xs + real (length xs) * b"
  by (induction xs) (auto simp: algebra_simps)

lemma mean_shift: "xs \<noteq> [] \<Longrightarrow> mean (map (\<lambda>x. x + b) xs) = mean xs + b"
  by (simp add: mean_def sum_list_shift comp_def field_simps)

lemma dev_sum_shift: "xs \<noteq> [] \<Longrightarrow> dev_sum k (map (\<lambda>x. x + b) xs) = dev_sum k xs"
  by (simp add: dev_sum_def mean_shift comp_def)

lemma mean_uminus: "mean (map uminus xs) = - mean xs"
  using sum_list_map_uminus [of id xs] by (simp add: mean_def)

lemma dev_sum_uminus: "dev_sum k (map uminus xs) = (-1) ^ k * dev_sum k xs"
proof -
  have "(\<Sum>x\<leftarrow>xs. (- x - - mean xs) ^ k) = (\<Sum>x\<leftarrow>xs. (-1) ^ k * (x - mean xs) ^ k)"
    by (rule arg_cong [where f = sum_list], rule map_cong)
       (simp_all add: power_mult_distrib [symmetric])
  then show ?thesis by (simp add: dev_sum_def mean_uminus comp_def sum_list_const_mult)
qed

lemma zero_out_fperr_uminus: "zero_out_fperr (- x) = - zero_out_fperr x"
  by (simp add: zero_out_fperr_def)

lemma mean_symmetric:
  assumes "mset (map (\<lambda>x. 2 * c - x) xs) = mset xs" and "xs \<noteq> []"
  shows "mean xs = c"
proof -
  have "sum_list (map (\<lambda>x. 2 * c - x) xs) = sum_list xs"
    using sum_list_mset_eq [OF assms(1), of id] by simp
  then have "2 * c * real (length xs) - sum_list xs = sum_list xs"
    by (simp add: sum_list_subtractf sum_list_triv algebra_simps)
  then show ?thesis using assms(2) by (simp add: mean_def field_simps)
qed

lemma dev_sum_3_symmetric:
  assumes "mset (map (\<lambda>x. 2 * c - x) xs) = mset xs" and "xs \<noteq> []"
  shows "dev_sum 3 xs = 0"
proof -
  have m: "mean xs = c" by (rule mean_symmetric [OF assms])
  have "(\<Sum>x\<leftarrow>map (\<lambda>x. 2 * c - x) xs. (x - c) ^ 3) = (\<Sum>x\<leftarrow>xs. (x - c) ^ 3)"
    by (rule sum_list_mset_eq [OF assms(1)])
  moreover have "(\<Sum>x\<leftarrow>map (\<lambda>x. 2 * c - x) xs. (x - c) ^ 3) = - (\<Sum>x\<leftarrow>xs. (x - c) ^ 3)"
  proof -
    have "(\<Sum>x\<leftarrow>map (\<lambda>x. 2 * c - x) xs. (x - c) ^ 3) = (\<Sum>x\<leftarrow>xs. - ((x - c) ^ 3))"
      by (simp add: comp_def power3_eq_cube algebra_simps)
    then show ?thesis by (simp add: sum_list_map_uminus)
  qed
  ultimately show ?thesis by (simp add: dev_sum_def m)
qed

lemma skew_of_list:
  "series_skew v =
     (if length (dropna v) < 3 then None
      else if zero_out_fperr (dev_sum 2 (dropna v)) = 0 then Some 0
      else Some (real (length (dropna v)) * sqrt (real (length (dropna v)) - 1) /
                   (real (length (dropna v)) - 2) *
                 (zero_out_fperr (dev_sum 3 (dropna v)) /
                   (zero_out_fperr (dev_sum 2 (dropna v)) * sqrt (zero_out_fperr (dev_sum 2 (dropna v)))))))"
  by (simp add: series_skew_def Let_def)

lemma skew_shift: "series_skew (map (map_option (\<lambda>x. x + b)) v) = series_skew v"
proof (cases "length (dropna v) < 3")
  case True
  then show ?thesis by (simp add: skew_of_list)
next
  case False
  then have "dropna v \<noteq> []" by auto
  then show ?thesis by (simp add: skew_of_list dev_sum_shift)
qed

lemma skew_uminus: "series_skew (map (map_option uminus) v) = map_option uminus (series_skew v)"
proof -
  have "dev_sum 2 (map uminus (dropna v)) = dev_sum 2 (dropna v)"
    and "dev_sum 3 (map uminus (dropna v)) = - dev_sum 3 (dropna v)"
    by (simp_all add: dev_sum_uminus)
  then show ?thesis by (simp add: skew_of_list zero_out_fperr_uminus)
qed

lemma reflect_as_shift:
  fixes c :: real
  shows "map (map_option (\<lambda>x. c - x)) v = map (map_option (\<lambda>x. x + c)) (map (map_option uminus) v)"
proof -
  have y: "map_option (\<lambda>x. c - x) y = map_option (\<lambda>x. x + c) (map_option uminus y)" for y
    by (cases y) (simp_all add: algebra_simps)
  show ?thesis by (induction v) (simp_all add: y)
qed

lemma skew_symmetric_zero:
  assumes "mset (map (\<lambda>x. 2 * c - x) xs) = mset xs" and "3 \<le> length xs"
  shows "series_skew (map Some xs) = Some 0"
proof -
  have "xs \<noteq> []" using assms(2) by auto
  then have "dev_sum 3 xs = 0" by (rule dev_sum_3_symmetric [OF assms(1)])
  with assms(2) show ?thesis by (simp add: skew_of_list dropna_all_Some zero_out_fperr_def)
qed

lemma skew_scale_example:
  "series_skew (map Some [0, 0, 3]) = Some (sqrt 3) \<and>
   series_skew (map Some [0, 0, 3 / 10 ^ 8]) = Some 0"
proof
  have d2: "dev_sum 2 [0, 0, 3] = 6" and d3: "dev_sum 3 [0, 0, 3] = 6"
    by (simp_all add: dev_sum_def mean_def)
  have s6: "sqrt 6 = sqrt 2 * sqrt 3"
    by (simp add: real_sqrt_mult [symmetric])
  have "3 * sqrt 2 / 1 * (6 / (6 * sqrt 6)) = sqrt 3"
  proof -
    have "sqrt 3 * sqrt 3 = (3::real)" by simp
    then show ?thesis by (simp add: s6 field_simps)
  qed
  then show "series_skew (map Some [0, 0, 3]) = Some (sqrt 3)"
    by (simp add: skew_of_list d2 d3 zero_out_fperr_def)
next
  have "dev_sum 2 [0, 0, 3 / 10 ^ 8] = 6 / 10 ^ 16"
    by (simp add: dev_sum_def mean_def power2_eq_square)
  then show "series_skew (map Some [0, 0, 3 / 10 ^ 8]) = Some 0"
    by (simp add: skew_of_list zero_out_fperr_def)
qed

text \<open>
  C19. The skewness of line 28 is unchanged by shifting every value by the same amount
  and negated by reflecting the values; so a sample symmetric about some value (its
  reflection has the same values with the same multiplicities) with at least three values
  has skewness 0. It is not scale invariant as pandas computes it: \<open>[0, 0, 3]\<close> has
  skewness \<open>\<surd>3\<close>, but the same data scaled by \<open>10\<^sup>-\<^sup>8\<close> has a sum of squared
  deviations \<open>6\<cdot>10\<^sup>-\<^sup>1\<^sup>6\<close>, below the cutoff of \<open>_zero_out_fperr\<close>, and is reported
  as skewness 0.
\<close>

theorem skew_shift_reflect:
  "series_skew (map (map_option (\<lambda>x. x + b)) v) = series_skew v \<and>
   series_skew (map (map_option (\<lambda>x. b - x)) v) = map_option uminus (series_skew v) \<and>
   (mset (map (\<lambda>x. 2 * c - x) xs) = mset xs \<and> 3 \<le> length xs \<longrightarrow> series_skew (map Some xs) = Some 0) \<and>
   series_skew (map Some [0, 0, 3]) = Some (sqrt 3) \<and>
   series_skew (map Some [0, 0, 3 / 10 ^ 8]) = Some 0"
proof (intro conjI impI)
  show "series_skew (map Some [0, 0, 3]) = Some (sqrt 3)"
    and "series_skew (map Some [0, 0, 3 / 10 ^ 8]) = Some 0"
    using skew_scale_example by simp_all
next
  show "series_skew (map (map_option (\<lambda>x. x + b)) v) = series_skew v" by (rule skew_shift)
  show "series_skew (map (map_option (\<lambda>x. b - x)) v) = map_option uminus (series_skew v)"
    by (simp only: reflect_as_shift skew_shift skew_uminus)
next
  assume "mset (map (\<lambda>x. 2 * c - x) xs) = mset xs \<and> 3 \<le> length xs"
  then show "series_skew (map Some xs) = Some 0" by (blast intro: skew_symmetric_zero)
qed

section \<open>Lemmas: quantiles and the description\<close>

lemma floor_facts:
  assumes "0 \<le> h"
  shows "real (nat \<lfloor>h\<rfloor>) \<le> h" and "h < real (nat \<lfloor>h\<rfloor>) + 1"
  using assms by linarith+

lemma floor_index:
  assumes "ys \<noteq> []" and "0 \<le> h" and "h \<le> real (length ys - 1)"
  shows "nat \<lfloor>h\<rfloor> < length ys"
proof -
  have "nat \<lfloor>h\<rfloor> \<le> length ys - 1"
    using assms(2,3) by (simp add: nat_le_iff floor_le_iff)
  moreover have "0 < length ys" using assms(1) by simp
  ultimately show ?thesis by linarith
qed

lemma interp_bounds:
  assumes "sorted ys" and "ys \<noteq> []" and "0 \<le> h" and "h \<le> real (length ys - 1)"
  shows "ys ! nat \<lfloor>h\<rfloor> \<le> interp ys h \<and>
         interp ys h \<le> ys ! min (Suc (nat \<lfloor>h\<rfloor>)) (length ys - 1)"
proof -
  define lo where "lo = nat \<lfloor>h\<rfloor>"
  define hi where "hi = min (Suc lo) (length ys - 1)"
  have "lo < length ys"
    using floor_index assms(2-4) unfolding lo_def by blast
  then have lt: "lo < length ys" "hi < length ys" "lo \<le> hi"
    unfolding hi_def by linarith+
  then have d: "0 \<le> ys ! hi - ys ! lo"
    using assms(1) by (simp add: sorted_nth_mono)
  have t0: "0 \<le> h - real lo" and t1: "h - real lo \<le> 1"
    using floor_facts [OF assms(3)] unfolding lo_def by linarith+
  have "(h - real lo) * (ys ! hi - ys ! lo) \<le> ys ! hi - ys ! lo"
    using mult_right_mono [OF t1 d] by simp
  moreover have "0 \<le> (h - real lo) * (ys ! hi - ys ! lo)"
    using t0 d by simp
  moreover have "interp ys h = ys ! lo + (h - real lo) * (ys ! hi - ys ! lo)"
    by (simp add: interp_def Let_def lo_def hi_def)
  ultimately show ?thesis
    unfolding lo_def [symmetric] hi_def [symmetric] by (intro conjI) linarith+
qed

lemma interp_mono:
  assumes "sorted ys" and "ys \<noteq> []" and "0 \<le> h1" and "h1 \<le> h2" and "h2 \<le> real (length ys - 1)"
  shows "interp ys h1 \<le> interp ys h2"
proof -
  define lo1 where "lo1 = nat \<lfloor>h1\<rfloor>"
  define lo2 where "lo2 = nat \<lfloor>h2\<rfloor>"
  have le: "lo1 \<le> lo2"
    unfolding lo1_def lo2_def using assms(4) by (simp add: nat_mono floor_mono)
  have b1: "ys ! lo1 \<le> interp ys h1 \<and> interp ys h1 \<le> ys ! min (Suc lo1) (length ys - 1)"
    unfolding lo1_def using interp_bounds assms by force
  have b2: "ys ! lo2 \<le> interp ys h2"
    unfolding lo2_def using interp_bounds assms by force
  show ?thesis
  proof (cases "lo1 = lo2")
    case True
    have "lo2 < length ys"
      using floor_index assms(2-5) unfolding lo2_def by force
    then have "0 \<le> ys ! min (Suc lo2) (length ys - 1) - ys ! lo2"
      using assms(1) by (simp add: sorted_nth_mono)
    then have "(h1 - real lo2) * (ys ! min (Suc lo2) (length ys - 1) - ys ! lo2) \<le>
               (h2 - real lo2) * (ys ! min (Suc lo2) (length ys - 1) - ys ! lo2)"
      using assms(4) by (simp add: mult_right_mono)
    with True show ?thesis
      by (simp add: interp_def Let_def lo1_def [symmetric] lo2_def [symmetric])
  next
    case False
    with le have "min (Suc lo1) (length ys - 1) \<le> lo2" by simp
    moreover have "lo2 < length ys"
      using floor_index assms(2-5) unfolding lo2_def by force
    ultimately have "ys ! min (Suc lo1) (length ys - 1) \<le> ys ! lo2"
      using assms(1) by (simp add: sorted_nth_mono)
    with b1 b2 show ?thesis by linarith
  qed
qed

lemma sort_not_Nil [simp]: "sort xs = [] \<longleftrightarrow> xs = []"
  by (metis length_0_conv length_sort)

lemma sorted_nth_0_Min:
  assumes "sorted ys" and "ys \<noteq> []"
  shows "ys ! 0 = Min (set ys)"
proof (rule antisym)
  obtain k where k: "k < length ys" "ys ! k = Min (set ys)"
    using Min_in [of "set ys"] assms(2) by (auto simp: in_set_conv_nth)
  moreover have "ys ! 0 \<le> ys ! k"
    using assms(1) k(1) by (simp add: sorted_nth_mono)
  ultimately show "ys ! 0 \<le> Min (set ys)" by simp
  show "Min (set ys) \<le> ys ! 0"
    using assms(2) by simp
qed

lemma sorted_nth_last_Max:
  assumes "sorted ys" and "ys \<noteq> []"
  shows "ys ! (length ys - 1) = Max (set ys)"
proof (rule antisym)
  obtain k where k: "k < length ys" "ys ! k = Max (set ys)"
    using Max_in [of "set ys"] assms(2) by (auto simp: in_set_conv_nth)
  moreover have "ys ! k \<le> ys ! (length ys - 1)"
    using assms(1) k(1) by (intro sorted_nth_mono) auto
  ultimately show "Max (set ys) \<le> ys ! (length ys - 1)" by simp
  show "ys ! (length ys - 1) \<le> Max (set ys)"
    using assms(2) by simp
qed

lemma quantile_index:
  assumes "0 \<le> q" and "q \<le> 1"
  shows "0 \<le> real (length xs - 1) * q" and "real (length xs - 1) * q \<le> real (length (sort xs) - 1)"
  using assms mult_left_le [of q "real (length xs - 1)"] by simp_all

lemma quantile_bounds:
  assumes "xs \<noteq> []" and "0 \<le> q" and "q \<le> 1"
  shows "Min (set xs) \<le> quantile xs q \<and> quantile xs q \<le> Max (set xs)"
proof -
  define ys where "ys = sort xs"
  define h where "h = real (length xs - 1) * q"
  have ys: "sorted ys" "ys \<noteq> []" "set ys = set xs"
    using assms(1) by (simp_all add: ys_def)
  have h: "0 \<le> h" "h \<le> real (length ys - 1)"
    using quantile_index [OF assms(2,3)] by (simp_all add: h_def ys_def)
  have lo: "nat \<lfloor>h\<rfloor> < length ys"
    by (rule floor_index [OF ys(2) h])
  then have hi: "min (Suc (nat \<lfloor>h\<rfloor>)) (length ys - 1) < length ys"
    by linarith
  have q: "quantile xs q = interp ys h"
    by (simp add: quantile_def ys_def h_def)
  have "Min (set ys) \<le> ys ! nat \<lfloor>h\<rfloor>" and "ys ! min (Suc (nat \<lfloor>h\<rfloor>)) (length ys - 1) \<le> Max (set ys)"
    using lo hi by simp_all
  moreover have "ys ! nat \<lfloor>h\<rfloor> \<le> interp ys h"
    and "interp ys h \<le> ys ! min (Suc (nat \<lfloor>h\<rfloor>)) (length ys - 1)"
    using interp_bounds [OF ys(1,2) h] by simp_all
  ultimately show ?thesis
    unfolding q ys(3) by (intro conjI) linarith+
qed

lemma quantile_mono:
  assumes "xs \<noteq> []" and "0 \<le> q1" and "q1 \<le> q2" and "q2 \<le> 1"
  shows "quantile xs q1 \<le> quantile xs q2"
proof -
  have "real (length xs - 1) * q1 \<le> real (length xs - 1) * q2"
    using assms(3) by (simp add: mult_left_mono)
  moreover have "0 \<le> real (length xs - 1) * q1"
    and "real (length xs - 1) * q2 \<le> real (length (sort xs) - 1)"
    using quantile_index(1) [of q1 xs] quantile_index(2) [of q2 xs] assms by simp_all
  ultimately show ?thesis
    unfolding quantile_def using assms(1) by (intro interp_mono) simp_all
qed

lemma quantile_0: "xs \<noteq> [] \<Longrightarrow> quantile xs 0 = Min (set xs)"
  using sorted_nth_0_Min [of "sort xs"] by (simp add: quantile_def interp_def)

lemma quantile_1: "xs \<noteq> [] \<Longrightarrow> quantile xs 1 = Max (set xs)"
  using sorted_nth_last_Max [of "sort xs"] by (simp add: quantile_def interp_def)

lemma sum_list_lower: "\<forall>x\<in>set xs. a \<le> x \<Longrightarrow> real (length xs) * a \<le> sum_list xs"
  by (induction xs) (auto simp: algebra_simps)

lemma sum_list_upper: "\<forall>x\<in>set xs. x \<le> a \<Longrightarrow> sum_list xs \<le> real (length xs) * a"
  by (induction xs) (auto simp: algebra_simps)

lemma mean_bounds:
  assumes "xs \<noteq> []"
  shows "Min (set xs) \<le> mean xs \<and> mean xs \<le> Max (set xs)"
proof -
  have n: "0 < real (length xs)" using assms by simp
  have "real (length xs) * Min (set xs) \<le> sum_list xs"
    by (rule sum_list_lower) simp
  moreover have "sum_list xs \<le> real (length xs) * Max (set xs)"
    by (rule sum_list_upper) simp
  ultimately show ?thesis
    using n by (simp add: mean_def pos_le_divide_eq pos_divide_le_eq mult.commute)
qed

lemma mean_replicate: "0 < n \<Longrightarrow> mean (replicate n a) = a"
  by (simp add: mean_def sum_list_replicate)

lemma dev_sum_2_zero_iff:
  assumes "xs \<noteq> []"
  shows "dev_sum 2 xs = 0 \<longleftrightarrow> card (set xs) = 1"
proof
  assume "dev_sum 2 xs = 0"
  then have "\<forall>y\<in>set (map (\<lambda>x. (x - mean xs)\<^sup>2) xs). y = 0"
    by (subst sum_list_nonneg_eq_0_iff [symmetric]) (auto simp: dev_sum_def)
  then have "set xs \<subseteq> {mean xs}" by auto
  moreover have "set xs \<noteq> {}" using assms by simp
  ultimately have "set xs = {mean xs}" by (simp add: subset_singleton_iff)
  then show "card (set xs) = 1" by simp
next
  assume "card (set xs) = 1"
  then obtain a where a: "set xs = {a}" by (auto simp: card_Suc_eq)
  then have "xs = replicate (length xs) a"
    by (intro replicate_eqI) auto
  moreover have "0 < length xs" using assms by simp
  ultimately have m: "mean xs = a" by (metis mean_replicate)
  have z: "map (\<lambda>x. (x - a)\<^sup>2) xs = map (\<lambda>x. 0) xs"
    using a by (intro map_cong) auto
  show "dev_sum 2 xs = 0"
    unfolding dev_sum_def m z by simp
qed

text \<open>
  C20. The summary of line 15 is ordered: for a column with at least one value, min,
  25%, 50%, 75% and max are all present and non-decreasing, and the mean lies between
  min and max.
\<close>

theorem describe_ordered:
  assumes "dropna v \<noteq> []"
  shows "\<exists>mn a b c mx m.
           d_min (describe v) = Some mn \<and> d_q25 (describe v) = Some a \<and>
           d_q50 (describe v) = Some b \<and> d_q75 (describe v) = Some c \<and>
           d_max (describe v) = Some mx \<and> d_mean (describe v) = Some m \<and>
           mn \<le> a \<and> a \<le> b \<and> b \<le> c \<and> c \<le> mx \<and> mn \<le> m \<and> m \<le> mx"
proof -
  let ?xs = "dropna v"
  have "Min (set ?xs) \<le> quantile ?xs (1 / 4)" and "quantile ?xs (3 / 4) \<le> Max (set ?xs)"
    using quantile_bounds [OF assms] by simp_all
  moreover have "quantile ?xs (1 / 4) \<le> quantile ?xs (1 / 2)"
    and "quantile ?xs (1 / 2) \<le> quantile ?xs (3 / 4)"
    using quantile_mono [OF assms] by simp_all
  moreover note mean_bounds [OF assms]
  ultimately show ?thesis
    using assms by (simp add: describe_def series_min_def series_max_def
        series_quantile_def series_mean_def)
qed


end
