(* ===== verification/Corr.thy ===== *)
theory Corr
  imports Stats
begin

text \<open>
  The correlations of src/house_prices_eda.py: \<open>df_train['GrLivArea'].corr(df_train['SalePrice'])\<close>
  (lines 57--58) and the matrix \<open>df_train.corr()\<close> of line 97 behind the heatmap. pandas
  reaches them by two code paths: \<open>Series.corr\<close> calls \<open>nanops.nancorr\<close>, which keeps the
  rows where both values are present and takes numpy's \<open>corrcoef\<close> (covariances with
  \<open>ddof=1\<close>, divided by the square roots of the variances, clipped to \<open>[-1, 1]\<close>);
  \<open>DataFrame.corr\<close> keeps the numeric columns and runs the Cython \<open>libalgos.nancorr\<close>
  on each pair \<open>yi \<le> xi\<close>, writing the value to both cells. Both give NaN where a
  variance is 0.
\<close>

section \<open>Pairwise-complete observations\<close>

text \<open>\<open>valid = notna(a) & notna(b)\<close>; \<open>a[valid]\<close>, \<open>b[valid]\<close>.\<close>

fun pair_complete :: "real option list \<Rightarrow> real option list \<Rightarrow> (real \<times> real) list" where
  "pair_complete (Some x # a) (Some y # b) = (x, y) # pair_complete a b"
| "pair_complete (_ # a) (_ # b) = pair_complete a b"
| "pair_complete _ _ = []"

text \<open>The sum of the products of the deviations from the two means.\<close>

definition co_dev :: "(real \<times> real) list \<Rightarrow> real" where
  "co_dev ps = (\<Sum>(x, y)\<leftarrow>ps. (x - mean (map fst ps)) * (y - mean (map snd ps)))"

section \<open>\<open>Series.corr\<close>: numpy's \<open>corrcoef\<close>\<close>

definition clip :: "real \<Rightarrow> real \<Rightarrow> real \<Rightarrow> real" where
  "clip lo hi x = max lo (min hi x)"

text \<open>
  \<open>np.corrcoef(a, b)[0, 1]\<close>: \<open>c = cov(a, b)\<close> with the factor \<open>n - 1\<close> (NaN when it is
  not positive), \<open>c[0,1] / sqrt(c[0,0]) / sqrt(c[1,1])\<close> (NaN when a variance is 0, the
  covariance being 0 then too), then \<open>np.clip(c, -1, 1)\<close>.
\<close>

definition corrcoef :: "(real \<times> real) list \<Rightarrow> real option" where
  "corrcoef ps =
     (let fact = real (length ps) - 1;
          cxx = dev_sum 2 (map fst ps) / fact; cyy = dev_sum 2 (map snd ps) / fact;
          cxy = co_dev ps / fact
      in if fact \<le> 0 then None
         else if cxx = 0 then None
         else if cyy = 0 then None
         else Some (clip (-1) 1 (cxy / sqrt cxx / sqrt cyy)))"

text \<open>
  \<open>Series.corr(other)\<close>: NaN for empty series, otherwise \<open>nanops.nancorr\<close> with
  \<open>min_periods = 1\<close>: NaN when no row has both values.
\<close>

definition series_corr :: "real option list \<Rightarrow> real option list \<Rightarrow> real option" where
  "series_corr a b =
     (let ps = pair_complete a b in if ps = [] then None else corrcoef ps)"

text \<open>\<open>df[x].corr(df[y])\<close>: both columns must exist and be numeric.\<close>

definition col_corr :: "frame \<Rightarrow> string \<Rightarrow> string \<Rightarrow> real option result" where
  "col_corr df x y =
     (case get_column df x of
        Inl e \<Rightarrow> Inl e
      | Inr cx \<Rightarrow>
          (case get_column df y of
             Inl e \<Rightarrow> Inl e
           | Inr cy \<Rightarrow>
               (case (cx, cy) of
                  (NumCol a, NumCol b) \<Rightarrow> Inr (series_corr a b)
                | _ \<Rightarrow> Inl (TypeError ''unsupported operand type(s)''))))"

section \<open>\<open>DataFrame.corr\<close>: \<open>libalgos.nancorr\<close>\<close>

text \<open>
  One cell of \<open>libalgos.nancorr\<close>: the complete rows, NaN below \<open>minp = 1\<close> of them,
  then \<open>sumx / sqrt(sumxx * sumyy)\<close> of the deviations, NaN when the divisor is 0.
\<close>

definition lib_corr :: "real option list \<Rightarrow> real option list \<Rightarrow> real option" where
  "lib_corr x y =
     (let ps = pair_complete x y
      in if length ps < 1 then None
         else (let divisor = sqrt (dev_sum 2 (map fst ps) * dev_sum 2 (map snd ps))
               in if divisor = 0 then None else Some (co_dev ps / divisor)))"

text \<open>\<open>_get_numeric_data()\<close>: the numeric columns, in order (pandas before 2.0).\<close>

fun numeric_data :: "(string \<times> column) list \<Rightarrow> (string \<times> real option list) list" where
  "numeric_data [] = []"
| "numeric_data ((n, NumCol v) # cs) = (n, v) # numeric_data cs"
| "numeric_data ((n, StrCol v) # cs) = numeric_data cs"

record corr_matrix =
  labels :: "string list"
  cells :: "real option list list"

text \<open>
  \<open>df.corr()\<close>: rows and columns labelled by the numeric columns; the loop
  \<open>for xi in range(K): for yi in range(xi + 1)\<close> computes the cell of \<open>(xi, yi)\<close> with
  \<open>x\<close> the column \<open>xi\<close> and stores it at \<open>[xi, yi]\<close> and \<open>[yi, xi]\<close>, so cell
  \<open>(i, j)\<close> comes from the columns \<open>max i j\<close> and \<open>min i j\<close>.
\<close>

definition frame_corr :: "frame \<Rightarrow> corr_matrix" where
  "frame_corr df =
     (let cols = numeric_data (columns df); k = length cols
      in \<lparr>labels = map fst cols,
          cells = map (\<lambda>i. map (\<lambda>j. lib_corr (snd (cols ! max i j)) (snd (cols ! min i j))) [0..<k]) [0..<k]\<rparr>)"

section \<open>Lemmas: the pairs and the sums\<close>

lemma pair_complete_swap: "pair_complete b a = map prod.swap (pair_complete a b)"
  by (induction a b rule: pair_complete.induct) (auto split: option.splits)

lemma pair_complete_map_snd:
  "pair_complete a (map (map_option f) b) = map (\<lambda>(x, y). (x, f y)) (pair_complete a b)"
  by (induction a b rule: pair_complete.induct) auto

lemma pair_complete_self: "pair_complete a a = map (\<lambda>x. (x, x)) (dropna a)"
  by (induction a rule: dropna.induct) auto

lemma co_dev_swap: "co_dev (map prod.swap ps) = co_dev ps"
  by (simp add: co_dev_def comp_def case_prod_unfold mult.commute)

lemma dev_sum_2_nonneg: "0 \<le> dev_sum 2 xs"
  by (auto simp: dev_sum_def intro!: sum_list_nonneg)

lemma co_dev_diag: "co_dev (map (\<lambda>x. (x, x)) xs) = dev_sum 2 xs"
  by (simp add: co_dev_def dev_sum_def comp_def power2_eq_square)

lemma map_swap_fst_snd [simp]:
  "map fst (map prod.swap ps) = map snd ps" "map snd (map prod.swap ps) = map fst ps"
  by (induction ps) auto

lemma lib_corr_swap: "lib_corr b a = lib_corr a b"
proof -
  define ps where "ps = pair_complete a b"
  have pb: "pair_complete b a = map prod.swap ps"
    unfolding ps_def by (rule pair_complete_swap)
  have "dev_sum 2 (map snd ps) * dev_sum 2 (map fst ps) = dev_sum 2 (map fst ps) * dev_sum 2 (map snd ps)"
    by (rule mult.commute)
  then show ?thesis
    unfolding lib_corr_def Let_def pb ps_def [symmetric] map_swap_fst_snd co_dev_swap length_map
    by simp
qed

lemma co_dev_square_le:
  "(co_dev ps)\<^sup>2 \<le> dev_sum 2 (map fst ps) * dev_sum 2 (map snd ps)"
proof -
  define qs where "qs = map (\<lambda>(x, y). (x - mean (map fst ps), y - mean (map snd ps))) ps"
  have "(\<Sum>(x, y)\<leftarrow>qs. x * y) = co_dev ps"
    and "(\<Sum>(x, y)\<leftarrow>qs. x\<^sup>2) = dev_sum 2 (map fst ps)"
    and "(\<Sum>(x, y)\<leftarrow>qs. y\<^sup>2) = dev_sum 2 (map snd ps)"
    by (simp_all add: qs_def co_dev_def dev_sum_def comp_def case_prod_unfold)
  with cauchy_schwarz_list [of qs] show ?thesis by simp
qed

lemma abs_co_dev_le: "\<bar>co_dev ps\<bar> \<le> sqrt (dev_sum 2 (map fst ps) * dev_sum 2 (map snd ps))"
proof -
  have "sqrt ((co_dev ps)\<^sup>2) \<le> sqrt (dev_sum 2 (map fst ps) * dev_sum 2 (map snd ps))"
    using co_dev_square_le by (rule real_sqrt_le_mono)
  then show ?thesis by simp
qed

lemma corr_ratio_bound:
  "\<bar>co_dev ps / sqrt (dev_sum 2 (map fst ps) * dev_sum 2 (map snd ps))\<bar> \<le> 1"
proof -
  define d where "d = sqrt (dev_sum 2 (map fst ps) * dev_sum 2 (map snd ps))"
  have le: "\<bar>co_dev ps\<bar> \<le> d"
    unfolding d_def by (rule abs_co_dev_le)
  have "0 \<le> d"
    unfolding d_def using dev_sum_2_nonneg by simp
  then consider "d = 0" | "0 < d" by linarith
  then show ?thesis
  proof cases
    case 1
    then show ?thesis by (simp add: d_def [symmetric])
  next
    case 2
    then have "\<bar>co_dev ps / d\<bar> = \<bar>co_dev ps\<bar> / d" by (simp add: abs_divide)
    also have "\<dots> \<le> 1" using le 2 by (simp add: pos_divide_le_eq)
    finally show ?thesis by (simp add: d_def [symmetric])
  qed
qed

lemma lib_corr_Some:
  "lib_corr a b = Some r \<Longrightarrow>
     r = co_dev (pair_complete a b) /
         sqrt (dev_sum 2 (map fst (pair_complete a b)) * dev_sum 2 (map snd (pair_complete a b)))"
  unfolding lib_corr_def Let_def by (simp split: if_splits)

lemma lib_corr_bound: "lib_corr a b = Some r \<Longrightarrow> \<bar>r\<bar> \<le> 1"
proof -
  assume "lib_corr a b = Some r"
  then have "r = co_dev (pair_complete a b) /
         sqrt (dev_sum 2 (map fst (pair_complete a b)) * dev_sum 2 (map snd (pair_complete a b)))"
    by (rule lib_corr_Some)
  then show ?thesis using corr_ratio_bound [of "pair_complete a b"] by (simp only:)
qed

lemma clip_id: "\<bar>x\<bar> \<le> 1 \<Longrightarrow> clip (-1) 1 x = x"
  by (simp add: clip_def)

lemma dev_sum_singleton: "dev_sum 2 [x] = 0"
  by (simp add: dev_sum_def mean_def)

lemma corr_scaled:
  fixes c f sx sy :: real
  assumes "0 < f" and "0 < sx" and "0 < sy"
  shows "c / f / sqrt (sx / f) / sqrt (sy / f) = c / sqrt (sx * sy)"
proof -
  have "sqrt (sx / f) * sqrt (sy / f) = sqrt ((sx * sy) / (f * f))"
    by (simp add: real_sqrt_mult [symmetric])
  also have "\<dots> = sqrt (sx * sy) / f"
    using assms(1) by (simp add: real_sqrt_divide)
  finally have s: "sqrt (sx / f) * sqrt (sy / f) = sqrt (sx * sy) / f" .
  have "c / f / sqrt (sx / f) / sqrt (sy / f) = (c / f) / (sqrt (sx / f) * sqrt (sy / f))"
    by (simp add: divide_divide_eq_left)
  also have "\<dots> = c / sqrt (sx * sy)"
    using assms(1) by (simp add: s)
  finally show ?thesis .
qed

lemma corrcoef_eq:
  assumes "ps \<noteq> []"
  shows "corrcoef ps =
    (let d = sqrt (dev_sum 2 (map fst ps) * dev_sum 2 (map snd ps))
     in if d = 0 then None else Some (co_dev ps / d))"
proof -
  define sx where "sx = dev_sum 2 (map fst ps)"
  define sy where "sy = dev_sum 2 (map snd ps)"
  define f where "f = real (length ps) - 1"
  have c: "corrcoef ps =
    (if f \<le> 0 then None else if sx / f = 0 then None else if sy / f = 0 then None
     else Some (clip (-1) 1 (co_dev ps / f / sqrt (sx / f) / sqrt (sy / f))))"
    by (simp add: corrcoef_def Let_def sx_def sy_def f_def)
  have nn: "0 \<le> sx" "0 \<le> sy"
    unfolding sx_def sy_def by (simp_all add: dev_sum_2_nonneg)
  show ?thesis
  proof (cases "length ps = 1")
    case True
    then obtain p where "ps = [p]" by (auto simp: length_Suc_conv)
    then show ?thesis by (simp add: corrcoef_def dev_sum_singleton)
  next
    case False
    with assms have "0 < f" unfolding f_def by (cases ps) auto
    then consider "sx = 0" | "sy = 0" | "0 < sx" "0 < sy"
      using nn by linarith
    then show ?thesis
    proof cases
      case 1
      with \<open>0 < f\<close> show ?thesis by (simp add: c Let_def sx_def [symmetric])
    next
      case 2
      with \<open>0 < f\<close> show ?thesis by (simp add: c Let_def sy_def [symmetric])
    next
      case 3
      then have d: "0 < sqrt (sx * sy)" by simp
      have eq: "co_dev ps / f / sqrt (sx / f) / sqrt (sy / f) = co_dev ps / sqrt (sx * sy)"
        using corr_scaled [OF \<open>0 < f\<close> 3] .
      have b: "\<bar>co_dev ps / sqrt (sx * sy)\<bar> \<le> 1"
        using corr_ratio_bound [of ps] by (simp add: sx_def sy_def)
      have "corrcoef ps = Some (clip (-1) 1 (co_dev ps / f / sqrt (sx / f) / sqrt (sy / f)))"
        using c 3 \<open>0 < f\<close> by simp
      also have "\<dots> = Some (co_dev ps / sqrt (sx * sy))"
        by (simp only: eq clip_id [OF b])
      finally show ?thesis
        using 3 by (simp add: Let_def sx_def [symmetric] sy_def [symmetric])
    qed
  qed
qed

lemma series_corr_lib: "series_corr a b = lib_corr a b"
  by (simp add: series_corr_def lib_corr_def corrcoef_eq Let_def)

lemma lib_corr_self: "lib_corr a a = (if 2 \<le> card (set (dropna a)) then Some 1 else None)"
proof (cases "dropna a = []")
  case True
  then show ?thesis by (simp add: lib_corr_def pair_complete_self)
next
  case False
  define s where "s = dev_sum 2 (dropna a)"
  have s0: "0 \<le> s" unfolding s_def by (rule dev_sum_2_nonneg)
  have "card (set (dropna a)) \<noteq> 0" using False by simp
  then have iff: "s = 0 \<longleftrightarrow> \<not> 2 \<le> card (set (dropna a))"
    using dev_sum_2_zero_iff [OF False] unfolding s_def by linarith
  have "lib_corr a a = (if sqrt (s * s) = 0 then None else Some (s / sqrt (s * s)))"
    using False by (simp add: lib_corr_def pair_complete_self co_dev_diag comp_def s_def Let_def)
  also have "\<dots> = (if s = 0 then None else Some 1)"
    using s0 by simp
  finally show ?thesis using iff by simp
qed

lemma sum_list_affine: "(\<Sum>x\<leftarrow>xs. a * x + b) = a * sum_list xs + real (length xs) * b"
  by (induction xs) (auto simp: algebra_simps)

lemma mean_affine: "xs \<noteq> [] \<Longrightarrow> mean (map (\<lambda>x. a * x + b) xs) = a * mean xs + b"
  unfolding mean_def length_map sum_list_affine by (simp add: field_simps)

lemma dev_sum_affine: "dev_sum k (map (\<lambda>x. a * x + b) xs) = a ^ k * dev_sum k xs"
proof (cases "xs = []")
  case True
  then show ?thesis by (simp add: dev_sum_def)
next
  case False
  have "(\<Sum>x\<leftarrow>xs. (a * x + b - (a * mean xs + b)) ^ k) = (\<Sum>x\<leftarrow>xs. a ^ k * (x - mean xs) ^ k)"
    by (rule arg_cong [where f = sum_list], rule map_cong)
       (simp_all add: power_mult_distrib [symmetric] algebra_simps)
  then show ?thesis
    using False by (simp add: dev_sum_def mean_affine comp_def sum_list_const_mult)
qed

lemma co_dev_affine: "co_dev (map (\<lambda>(x, y). (x, a * y + b)) ps) = a * co_dev ps"
proof (cases "ps = []")
  case True
  then show ?thesis by (simp add: co_dev_def)
next
  case False
  have m: "map snd (map (\<lambda>(x, y). (x, a * y + b)) ps) = map (\<lambda>y. a * y + b) (map snd ps)"
    and f: "map fst (map (\<lambda>(x, y). (x, a * y + b)) ps) = map fst ps"
    by (induction ps) auto
  have ms: "mean (map (\<lambda>y. a * y + b) (map snd ps)) = a * mean (map snd ps) + b"
    using False by (intro mean_affine) simp
  have "co_dev (map (\<lambda>(x, y). (x, a * y + b)) ps) =
        (\<Sum>(x, y)\<leftarrow>ps. (x - mean (map fst ps)) * (a * y + b - (a * mean (map snd ps) + b)))"
    unfolding co_dev_def m f ms by (simp add: comp_def case_prod_unfold)
  also have "\<dots> = (\<Sum>(x, y)\<leftarrow>ps. a * ((x - mean (map fst ps)) * (y - mean (map snd ps))))"
    by (rule arg_cong [where f = sum_list], rule map_cong) (auto simp: algebra_simps)
  also have "\<dots> = a * co_dev ps"
    by (simp add: co_dev_def sum_list_const_mult case_prod_unfold)
  finally show ?thesis .
qed

lemma map_affine_snd [simp]:
  "map fst (map (\<lambda>(x, y). (x, a * y + b)) ps) = map fst ps"
  "map snd (map (\<lambda>(x, y). (x, a * y + b)) ps) = map (\<lambda>y. a * y + b) (map snd ps)"
  by (induction ps) auto

lemma lib_corr_affine:
  assumes "a \<noteq> 0"
  shows "lib_corr x (map (map_option (\<lambda>v. a * v + b)) y) = map_option (\<lambda>r. sgn a * r) (lib_corr x y)"
proof -
  define ps where "ps = pair_complete x y"
  define d where "d = sqrt (dev_sum 2 (map fst ps) * dev_sum 2 (map snd ps))"
  have p: "pair_complete x (map (map_option (\<lambda>v. a * v + b)) y) = map (\<lambda>(u, v). (u, a * v + b)) ps"
    unfolding ps_def by (rule pair_complete_map_snd)
  have "sqrt (dev_sum 2 (map fst ps) * (a\<^sup>2 * dev_sum 2 (map snd ps))) = \<bar>a\<bar> * d"
    unfolding d_def by (simp add: real_sqrt_mult ac_simps)
  then have d': "sqrt (dev_sum 2 (map fst ps) * dev_sum 2 (map (\<lambda>v. a * v + b) (map snd ps))) = \<bar>a\<bar> * d"
    by (simp only: dev_sum_affine)
  have q: "a * c / (\<bar>a\<bar> * d) = sgn a * (c / d)" for c
    using assms by (simp add: sgn_if)
  have "lib_corr x (map (map_option (\<lambda>v. a * v + b)) y) =
        (if length ps < 1 then None else if \<bar>a\<bar> * d = 0 then None else Some (a * co_dev ps / (\<bar>a\<bar> * d)))"
    unfolding lib_corr_def Let_def p map_affine_snd length_map co_dev_affine d' ..
  moreover have "lib_corr x y = (if length ps < 1 then None else if d = 0 then None else Some (co_dev ps / d))"
    unfolding lib_corr_def Let_def ps_def [symmetric] d_def [symmetric] ..
  ultimately show ?thesis
    using assms by (simp add: q)
qed

lemma frame_corr_labels: "labels (frame_corr df) = map fst (numeric_data (columns df))"
  by (simp add: frame_corr_def Let_def)

lemma frame_corr_cell:
  assumes "i < length (labels (frame_corr df))" and "j < length (labels (frame_corr df))"
  shows "cells (frame_corr df) ! i ! j =
           lib_corr (snd (numeric_data (columns df) ! i)) (snd (numeric_data (columns df) ! j))"
proof -
  have "cells (frame_corr df) ! i ! j =
          lib_corr (snd (numeric_data (columns df) ! max i j)) (snd (numeric_data (columns df) ! min i j))"
    using assms by (simp add: frame_corr_def Let_def)
  then show ?thesis
    by (cases "i \<le> j") (simp_all add: max_def min_def lib_corr_swap)
qed

lemma linear_as_affine:
  "map (\<lambda>x. Some (a * x + b)) xs = map (map_option (\<lambda>v. a * v + b)) (map Some xs)"
  by simp

text \<open>
  C21. The two code paths agree: \<open>Series.corr\<close> of lines 57--58 (numpy's \<open>corrcoef\<close>,
  with its \<open>n - 1\<close> factors and its clipping) gives the same value, or NaN, as the cell
  \<open>libalgos.nancorr\<close> computes for the matrix of line 97; the clipping never changes the
  value.
\<close>

theorem series_corr_eq_matrix: "series_corr a b = lib_corr a b"
  by (rule series_corr_lib)

lemma corr_swap_self:
  "series_corr a b = series_corr b a \<and>
   series_corr a a = (if 2 \<le> card (set (dropna a)) then Some 1 else None)"
  by (simp add: series_corr_lib lib_corr_swap lib_corr_self)

lemma corr_linear_aux:
  assumes "a \<noteq> 0" and "2 \<le> card (set xs)"
  shows "series_corr (map Some xs) (map (\<lambda>x. Some (a * x + b)) xs) = Some (sgn a)"
proof -
  have "lib_corr (map Some xs) (map Some xs) = Some 1"
    using assms(2) by (simp add: lib_corr_self dropna_all_Some)
  then show ?thesis
    unfolding linear_as_affine series_corr_lib lib_corr_affine [OF assms(1)] by simp
qed

text \<open>
  C22. The correlation is invariant under an increasing affine change \<open>a v + b\<close> of one
  variable and changes sign under a decreasing one (NaN stays NaN); in particular values in
  an exact linear relationship \<open>y = a x + b\<close> with at least two distinct \<open>x\<close> have
  correlation the sign of the slope, 1 or -1. The spec's two correlation tests: the
  correlation does not depend on the order of the columns, and the correlation of a column
  with itself is 1 when the column has two distinct values, NaN otherwise.
\<close>

theorem corr_affine:
  assumes "a \<noteq> 0"
  shows "series_corr x (map (map_option (\<lambda>v. a * v + b)) y) = map_option (\<lambda>r. sgn a * r) (series_corr x y) \<and>
         (2 \<le> card (set xs) \<longrightarrow> series_corr (map Some xs) (map (\<lambda>x. Some (a * x + b)) xs) = Some (sgn a)) \<and>
         series_corr x y = series_corr y x \<and>
         series_corr x x = (if 2 \<le> card (set (dropna x)) then Some 1 else None)"
proof (intro conjI impI)
  show "series_corr x y = series_corr y x"
    and "series_corr x x = (if 2 \<le> card (set (dropna x)) then Some 1 else None)"
    using corr_swap_self by simp_all
next
  show "series_corr x (map (map_option (\<lambda>v. a * v + b)) y) = map_option (\<lambda>r. sgn a * r) (series_corr x y)"
    using assms by (simp add: series_corr_lib lib_corr_affine)
next
  assume "2 \<le> card (set xs)"
  with assms show "series_corr (map Some xs) (map (\<lambda>x. Some (a * x + b)) xs) = Some (sgn a)"
    by (rule corr_linear_aux)
qed

text \<open>
  C23. The matrix of line 97 is labelled by the numeric columns in order, is square, and
  its cell \<open>(i, j)\<close> is the correlation of columns \<open>i\<close> and \<open>j\<close>, whichever of the two
  the loop of \<open>libalgos.nancorr\<close> computed; so it is symmetric.
\<close>

theorem frame_corr_cells:
  assumes "i < length (labels (frame_corr df))" and "j < length (labels (frame_corr df))"
  shows "labels (frame_corr df) = map fst (numeric_data (columns df)) \<and>
         length (cells (frame_corr df)) = length (labels (frame_corr df)) \<and>
         length (cells (frame_corr df) ! i) = length (labels (frame_corr df)) \<and>
         cells (frame_corr df) ! i ! j =
           lib_corr (snd (numeric_data (columns df) ! i)) (snd (numeric_data (columns df) ! j)) \<and>
         cells (frame_corr df) ! i ! j = cells (frame_corr df) ! j ! i"
proof -
  have "length (cells (frame_corr df)) = length (labels (frame_corr df)) \<and>
        length (cells (frame_corr df) ! i) = length (labels (frame_corr df))"
    using assms(1) by (simp add: frame_corr_def Let_def)
  then show ?thesis
    using frame_corr_cell [OF assms] frame_corr_cell [OF assms(2,1)]
    by (simp add: frame_corr_labels lib_corr_swap)
qed

text \<open>
  C24. Every value of the matrix lies in \<open>[-1, 1]\<close>; the diagonal is 1 for a numeric
  column with two distinct values and NaN for the others.
\<close>

theorem frame_corr_diag_bounds:
  assumes "i < length (labels (frame_corr df))" and "j < length (labels (frame_corr df))"
  shows "(\<forall>r. cells (frame_corr df) ! i ! j = Some r \<longrightarrow> \<bar>r\<bar> \<le> 1) \<and>
         cells (frame_corr df) ! i ! i =
           (if 2 \<le> card (set (dropna (snd (numeric_data (columns df) ! i)))) then Some 1 else None)"
  using frame_corr_cell [OF assms] frame_corr_cell [OF assms(1,1)]
  by (simp add: lib_corr_bound lib_corr_self)

end
