(* ===== verification/Plot.thy ===== *)
theory Plot
  imports Corr
begin

text \<open>
  The data the plots of src/house_prices_eda.py receive, as the plotting libraries compute
  it before drawing: the two-column frames \<open>pd.concat([df_train['SalePrice'], df_train[var]],
  axis=1)\<close> (lines 47, 52, 63, 70), the points of \<open>data.plot.scatter\<close> (lines 48, 53), the
  groups and box statistics of \<open>sns.boxplot\<close> (lines 65, 72; seaborn's
  \<open>categorical_order\<close> and matplotlib's \<open>cbook.boxplot_stats\<close> with \<open>whis=1.5\<close>), the
  colour indices of \<open>sns.heatmap(corrmat, vmax=.8)\<close> (line 99; \<open>Normalize\<close> and a
  colormap of 256 colours), and the histogram and density curve of \<open>sns.distplot\<close>
  (line 17; the Freedman--Diaconis bin count capped at 50, \<open>np.histogram\<close>, density
  normalisation; seaborn's \<open>KDE\<close> on scipy's \<open>gaussian_kde\<close>). The drawing itself is
  not modelled.
\<close>

section \<open>Two-column frames and scatter points\<close>

text \<open>\<open>pd.concat([df[a], df[b]], axis=1)\<close>: both columns on the frame's index.\<close>

definition concat2 :: "frame \<Rightarrow> string \<Rightarrow> string \<Rightarrow> frame result" where
  "concat2 df a b =
     (case get_column df a of
        Inl e \<Rightarrow> Inl e
      | Inr ca \<Rightarrow>
          (case get_column df b of
             Inl e \<Rightarrow> Inl e
           | Inr cb \<Rightarrow> Inr \<lparr>index = index df, columns = [(a, ca), (b, cb)]\<rparr>))"

text \<open>
  \<open>data.plot.scatter(x=x, y=y)\<close> (pandas 1.x): the plot keeps the numeric columns of
  \<open>data\<close> (\<open>TypeError\<close> when there is none) and then reads \<open>data[x]\<close> and \<open>data[y]\<close>
  from them (\<open>KeyError\<close> for an object column); matplotlib draws the rows where both
  values are present.
\<close>

definition scatter_points :: "frame \<Rightarrow> string \<Rightarrow> string \<Rightarrow> (real \<times> real) list result" where
  "scatter_points data x y =
     (case numeric_data (columns data) of
        [] \<Rightarrow> Inl (TypeError ''no numeric data to plot'')
      | nd \<Rightarrow>
          (case map_of nd x of
             None \<Rightarrow> Inl (KeyError x)
           | Some xs \<Rightarrow>
               (case map_of nd y of
                  None \<Rightarrow> Inl (KeyError y)
                | Some ys \<Rightarrow> Inr (pair_complete xs ys))))"

section \<open>Box plots\<close>

datatype level = NumLevel real | StrLevel string

text \<open>The values of \<open>y\<close> in the rows whose category is \<open>l\<close>, NaN removed (\<open>remove_na\<close>).\<close>

definition group_of :: "'a option list \<Rightarrow> real option list \<Rightarrow> 'a \<Rightarrow> real list" where
  "group_of x y l = dropna (map snd (filter (\<lambda>(a, b). a = Some l) (zip x y)))"

text \<open>
  \<open>categorical_order\<close>: the distinct non-null categories, sorted for a numeric column
  (\<open>np.sort(pd.unique(values))\<close>), in order of first appearance otherwise; one group per
  category.
\<close>

primrec box_groups :: "column \<Rightarrow> real option list \<Rightarrow> (level \<times> real list) list" where
  "box_groups (NumCol x) y = map (\<lambda>l. (NumLevel l, group_of x y l)) (sort (remdups (dropna x)))"
| "box_groups (StrCol x) y = map (\<lambda>l. (StrLevel l, group_of x y l)) (remdups (dropna x))"

record box =
  b_q1 :: real
  b_med :: real
  b_q3 :: real
  b_whislo :: real
  b_whishi :: real
  b_fliers :: "real list"

text \<open>
  \<open>cbook.boxplot_stats(x, whis=1.5)\<close>: the quartiles by \<open>np.percentile\<close>, the fences
  \<open>q1 - 1.5 iqr\<close> and \<open>q3 + 1.5 iqr\<close>, the whiskers at the extreme values inside the
  fences (but never inside the box), and the fliers beyond the whiskers.
\<close>

definition box_stats :: "real list \<Rightarrow> box" where
  "box_stats xs =
     (let q1 = quantile xs (1 / 4); med = quantile xs (1 / 2); q3 = quantile xs (3 / 4);
          iqr = q3 - q1; loval = q1 - 3 / 2 * iqr; hival = q3 + 3 / 2 * iqr;
          wiskhi = filter (\<lambda>x. x \<le> hival) xs; wisklo = filter (\<lambda>x. loval \<le> x) xs;
          whishi = (if wiskhi = [] then q3 else if Max (set wiskhi) < q3 then q3 else Max (set wiskhi));
          whislo = (if wisklo = [] then q1 else if q1 < Min (set wisklo) then q1 else Min (set wisklo))
      in \<lparr>b_q1 = q1, b_med = med, b_q3 = q3, b_whislo = whislo, b_whishi = whishi,
          b_fliers = filter (\<lambda>x. x < whislo) xs @ filter (\<lambda>x. whishi < x) xs\<rparr>)"

text \<open>
  \<open>sns.boxplot(x=xn, y=yn, data=data)\<close> on \<open>data = pd.concat([df[yn], df[xn]], axis=1)\<close>:
  one box per category with at least one value (seaborn skips empty boxes); the values
  must be numeric.
\<close>

definition boxplot_data :: "frame \<Rightarrow> string \<Rightarrow> string \<Rightarrow> (level \<times> box) list result" where
  "boxplot_data df xn yn =
     (case concat2 df yn xn of
        Inl e \<Rightarrow> Inl e
      | Inr data \<Rightarrow>
          (case get_column data yn of
             Inr (NumCol y) \<Rightarrow>
               (case get_column data xn of
                  Inr cx \<Rightarrow>
                    Inr (map (\<lambda>(l, g). (l, box_stats g)) (filter (\<lambda>(l, g). g \<noteq> []) (box_groups cx y)))
                | Inl e \<Rightarrow> Inl e)
           | Inr (StrCol _) \<Rightarrow> Inl (TypeError ''could not convert string to float'')
           | Inl e \<Rightarrow> Inl e))"

section \<open>The heatmap\<close>

text \<open>
  \<open>Normalize(vmin, vmax)\<close>: 0 everywhere when \<open>vmin = vmax\<close>, else the affine map taking
  \<open>vmin\<close> to 0 and \<open>vmax\<close> to 1 (no clipping). A colormap of \<open>n\<close> colours maps a
  normalised value below 0 to the first colour (\<open>under\<close>), from 1 on to the last one
  (\<open>over\<close>), and \<open>x\<close> in between to colour \<open>\<lfloor>x n\<rfloor>\<close>.
\<close>

definition norm_val :: "real \<Rightarrow> real \<Rightarrow> real \<Rightarrow> real" where
  "norm_val vmin vmax v = (if vmin = vmax then 0 else (v - vmin) / (vmax - vmin))"

definition cmap_index :: "nat \<Rightarrow> real \<Rightarrow> nat" where
  "cmap_index n x = (if x < 0 then 0 else min (n - 1) (nat \<lfloor>x * real n\<rfloor>))"

definition heat_vmax :: real where
  "heat_vmax = 8 / 10"

text \<open>
  \<open>sns.heatmap(corrmat, vmax=.8)\<close>: NaN cells are masked (no colour); \<open>vmin\<close> is the
  least value shown (\<open>np.nanmin\<close>); \<open>Normalize\<close> raises \<open>ValueError\<close> when \<open>vmin\<close>
  exceeds \<open>vmax\<close>. The default colormap has 256 colours.
\<close>

definition heatmap_colors :: "corr_matrix \<Rightarrow> nat option list list result" where
  "heatmap_colors m =
     (let vals = dropna (concat (cells m))
      in if vals = [] then Inr (map (map (\<lambda>_. None)) (cells m))
         else (let vmin = Min (set vals)
               in if heat_vmax < vmin
                  then Inl (ValueError ''minvalue must be less than or equal to maxvalue'')
                  else Inr (map (map (map_option (\<lambda>v. cmap_index 256 (norm_val vmin heat_vmax v))))
                              (cells m))))"

section \<open>The histogram of \<open>distplot\<close>\<close>

definition iqr :: "real list \<Rightarrow> real" where
  "iqr xs = quantile xs (3 / 4) - quantile xs (1 / 4)"

text \<open>
  seaborn's \<open>_freedman_diaconis_bins\<close>: 1 bin below two values, else the bin width
  \<open>h = 2 iqr / n^(1/3)\<close> and \<open>\<lceil>(max - min) / h\<rceil>\<close> bins, \<open>int(sqrt n)\<close> when \<open>h = 0\<close>;
  \<open>distplot\<close> takes at most 50.
\<close>

definition fd_bins :: "real list \<Rightarrow> nat" where
  "fd_bins a =
     (if length a < 2 then 1
      else (let h = 2 * iqr a / root 3 (real (length a))
            in if h = 0 then nat \<lfloor>sqrt (real (length a))\<rfloor>
               else nat \<lceil>(Max (set a) - Min (set a)) / h\<rceil>))"

definition hist_bins :: "real list \<Rightarrow> nat" where
  "hist_bins a = min (fd_bins a) 50"

text \<open>\<open>np.histogram\<close>: the range of the data, widened by 0.5 each side when it is a point.\<close>

definition hist_range :: "real list \<Rightarrow> real \<times> real" where
  "hist_range a =
     (if a = [] then (0, 1)
      else (let lo = Min (set a); hi = Max (set a) in if lo = hi then (lo - 1 / 2, hi + 1 / 2) else (lo, hi)))"

text \<open>The bin of a value: \<open>\<lfloor>(v - lo) k / (hi - lo)\<rfloor>\<close>, the last bin closed on the right.\<close>

definition bin_of :: "nat \<Rightarrow> real \<Rightarrow> real \<Rightarrow> real \<Rightarrow> nat" where
  "bin_of k lo hi v = (let i = nat \<lfloor>(v - lo) * real k / (hi - lo)\<rfloor> in if i = k then k - 1 else i)"

definition hist_counts :: "nat \<Rightarrow> real list \<Rightarrow> nat list" where
  "hist_counts k a =
     (let (lo, hi) = hist_range a in map (\<lambda>i. length (filter (\<lambda>v. bin_of k lo hi v = i) a)) [0..<k])"

text \<open>
  \<open>sns.distplot(df_train['SalePrice'])\<close>: NaN removed, the histogram drawn as a density
  (\<open>kde=True\<close> makes \<open>norm_hist\<close> true): each count over the number of values and the
  bin width.
\<close>

definition hist_density :: "real option list \<Rightarrow> real list" where
  "hist_density v =
     (let a = dropna v; k = hist_bins a; (lo, hi) = hist_range a; w = (hi - lo) / real k
      in map (\<lambda>c. real c / (real (length a) * w)) (hist_counts k a))"

section \<open>The density curve of \<open>distplot\<close>\<close>

text \<open>
  \<open>kde=True\<close>: seaborn 0.11's \<open>distplot\<close> calls \<open>kdeplot\<close> on the values without NaN,
  whose \<open>plot_univariate_density\<close> skips the curve (issuing the \<open>UserWarning\<close> "Dataset has
  0 variance; skipping density estimate.") when the sample variance is 0 or NaN; otherwise
  the \<open>KDE\<close> estimator (\<open>bw_method="scott"\<close>, \<open>bw_adjust=1\<close>, \<open>gridsize=200\<close>,
  \<open>cut=3\<close>, no clip) fits scipy's \<open>gaussian_kde\<close>: covariance the sample variance
  (\<open>np.cov\<close>, \<open>ddof=1\<close>) times the square of Scott's factor \<open>n^(-1/5)\<close>, a support grid
  \<open>np.linspace(min - 3 bw, max + 3 bw, 200)\<close> with \<open>bw\<close> the square root of the
  covariance, and the mean of the Gaussian kernels evaluated on it.
\<close>

definition scotts_factor :: "nat \<Rightarrow> real" where
  "scotts_factor n = real n powr (- 1 / 5)"

definition kde_eval :: "real list \<Rightarrow> real \<Rightarrow> real \<Rightarrow> real" where
  "kde_eval xs cov x =
     (\<Sum>xi\<leftarrow>xs. exp (- ((x - xi)\<^sup>2 / (2 * cov)))) / (real (length xs) * sqrt (2 * pi * cov))"

text \<open>\<open>np.linspace(a, b, k)\<close> with its endpoint: \<open>k\<close> evenly spaced values from \<open>a\<close> to \<open>b\<close>.\<close>

definition linspace :: "real \<Rightarrow> real \<Rightarrow> nat \<Rightarrow> real list" where
  "linspace a b k = (if k = 1 then [a] else map (\<lambda>i. a + real i * ((b - a) / real (k - 1))) [0..<k])"

definition kde_support :: "real list \<Rightarrow> real \<Rightarrow> real list" where
  "kde_support xs bw = linspace (Min (set xs) - bw * 3) (Max (set xs) + bw * 3) 200"

definition kde_curve :: "real option list \<Rightarrow> (real \<times> real) list option" where
  "kde_curve v =
     (case series_var v of
        None \<Rightarrow> None
      | Some var \<Rightarrow>
          if var = 0 then None
          else (let xs = dropna v; cov = var * (scotts_factor (length xs))\<^sup>2
                in Some (map (\<lambda>x. (x, kde_eval xs cov x)) (kde_support xs (sqrt cov)))))"

section \<open>Lemmas: the box-plot groups\<close>

lemma mset_dropna_Cons:
  "mset (dropna (b # xs)) = (case b of None \<Rightarrow> {#} | Some v \<Rightarrow> {#v#}) + mset (dropna xs)"
  by (cases b) simp_all

lemma sum_list_if_eq:
  fixes M :: "'b::comm_monoid_add"
  shows "distinct L \<Longrightarrow> (\<Sum>l\<leftarrow>L. if c = l then M else 0) = (if c \<in> set L then M else 0)"
  by (induction L) auto

lemma mask_keep_zip: "mask_keep (map P x) y = map snd (filter (\<lambda>(a, b). P a) (zip x y))"
proof (induction x arbitrary: y)
  case Nil
  then show ?case by simp
next
  case (Cons a x)
  then show ?case by (cases y) simp_all
qed

lemma group_pairs_sum:
  assumes "distinct L" and "\<forall>(a, b)\<in>set ps. \<forall>l. a = Some l \<longrightarrow> l \<in> set L"
  shows "(\<Sum>l\<leftarrow>L. mset (dropna (map snd (filter (\<lambda>(a, b). a = Some l) ps)))) =
         mset (dropna (map snd (filter (\<lambda>(a, b). a \<noteq> None) ps)))"
  using assms(2)
proof (induction ps)
  case Nil
  then show ?case by simp
next
  case (Cons p ps)
  obtain a b where p: "p = (a, b)" by fastforce
  have IH: "(\<Sum>l\<leftarrow>L. mset (dropna (map snd (filter (\<lambda>(a, b). a = Some l) ps)))) =
         mset (dropna (map snd (filter (\<lambda>(a, b). a \<noteq> None) ps)))"
    using Cons by simp
  show ?case
  proof (cases a)
    case None
    with IH show ?thesis by (simp add: p)
  next
    case (Some l0)
    with Cons.prems p have "l0 \<in> set L" by auto
    have "(\<Sum>l\<leftarrow>L. mset (dropna (map snd (filter (\<lambda>(a, b). a = Some l) (p # ps))))) =
          (\<Sum>l\<leftarrow>L. (if l0 = l then (case b of None \<Rightarrow> {#} | Some v \<Rightarrow> {#v#}) else 0) +
                     mset (dropna (map snd (filter (\<lambda>(a, b). a = Some l) ps))))"
      by (rule arg_cong [where f = sum_list], rule map_cong)
         (simp_all add: p Some mset_dropna_Cons)
    also have "\<dots> = (case b of None \<Rightarrow> {#} | Some v \<Rightarrow> {#v#}) + mset (dropna (map snd (filter (\<lambda>(a, b). a \<noteq> None) ps)))"
      using assms(1) \<open>l0 \<in> set L\<close> by (simp add: sum_list_addf sum_list_if_eq IH)
    finally show ?thesis
      by (simp add: p Some mset_dropna_Cons)
  qed
qed

lemma group_of_sum:
  assumes "distinct L" and "set L = set (dropna x)"
  shows "(\<Sum>l\<leftarrow>L. mset (group_of x y l)) = mset (dropna (mask_keep (map (\<lambda>a. a \<noteq> None) x) y))"
proof -
  have "\<forall>(a, b)\<in>set (zip x y). \<forall>l. a = Some l \<longrightarrow> l \<in> set L"
    using assms(2) by (auto dest!: set_zip_leftD simp: set_dropna)
  then show ?thesis
    unfolding group_of_def mask_keep_zip using group_pairs_sum [OF assms(1)] by simp
qed

lemma box_groups_partition_aux:
  "distinct (map fst (box_groups c y)) \<and>
   (\<Sum>(l, g)\<leftarrow>box_groups c y. mset g) = mset (dropna (mask_keep (map Not (col_isnull c)) y))"
proof (cases c)
  case (NumCol x)
  have "(\<Sum>l\<leftarrow>sort (remdups (dropna x)). mset (group_of x y l)) =
        mset (dropna (mask_keep (map (\<lambda>a. a \<noteq> None) x) y))"
    by (rule group_of_sum) simp_all
  then show ?thesis
    using NumCol by (simp add: comp_def distinct_map inj_on_def)
next
  case (StrCol x)
  have "(\<Sum>l\<leftarrow>remdups (dropna x). mset (group_of x y l)) =
        mset (dropna (mask_keep (map (\<lambda>a. a \<noteq> None) x) y))"
    by (rule group_of_sum) simp_all
  then show ?thesis
    using StrCol by (simp add: comp_def distinct_map inj_on_def)
qed

section \<open>Lemmas: box statistics\<close>

lemma whisker_lo:
  fixes xs :: "real list"
  assumes "loval \<le> q1" and "xs \<noteq> []" and "Min (set xs) \<le> q1"
    and w: "w = (if filter (\<lambda>x. loval \<le> x) xs = [] then q1
                 else if q1 < Min (set (filter (\<lambda>x. loval \<le> x) xs)) then q1
                 else Min (set (filter (\<lambda>x. loval \<le> x) xs)))"
  shows "loval \<le> w \<and> w \<le> q1 \<and> Min (set xs) \<le> w \<and> filter (\<lambda>x. x < w) xs = filter (\<lambda>x. x < loval) xs"
proof -
  let ?wl = "filter (\<lambda>x. loval \<le> x) xs"
  have mem: "x \<in> set xs \<Longrightarrow> loval \<le> x \<Longrightarrow> Min (set ?wl) \<le> x" for x by simp
  have lo: "?wl \<noteq> [] \<Longrightarrow> loval \<le> Min (set ?wl)"
    by (subst Min_ge_iff) (auto simp: filter_empty_conv)
  have mn: "?wl \<noteq> [] \<Longrightarrow> Min (set xs) \<le> Min (set ?wl)"
    using assms(2) by (intro Min_antimono) (auto simp: filter_empty_conv)
  have b: "loval \<le> w \<and> w \<le> q1 \<and> Min (set xs) \<le> w"
    using assms(1,3) lo mn unfolding w by auto
  have "x < w \<longleftrightarrow> x < loval" if "x \<in> set xs" for x
  proof
    assume "x < w"
    show "x < loval"
    proof (rule ccontr)
      assume "\<not> x < loval"
      then have "Min (set ?wl) \<le> x" and "?wl \<noteq> []" using mem that by (auto simp: filter_empty_conv not_less)
      with \<open>x < w\<close> show False unfolding w by (auto split: if_splits)
    qed
  next
    assume "x < loval"
    with b show "x < w" by linarith
  qed
  then show ?thesis using b by (auto intro: filter_cong)
qed

lemma whisker_hi:
  fixes xs :: "real list"
  assumes "q3 \<le> hival" and "xs \<noteq> []" and "q3 \<le> Max (set xs)"
    and w: "w = (if filter (\<lambda>x. x \<le> hival) xs = [] then q3
                 else if Max (set (filter (\<lambda>x. x \<le> hival) xs)) < q3 then q3
                 else Max (set (filter (\<lambda>x. x \<le> hival) xs)))"
  shows "w \<le> hival \<and> q3 \<le> w \<and> w \<le> Max (set xs) \<and> filter (\<lambda>x. w < x) xs = filter (\<lambda>x. hival < x) xs"
proof -
  let ?wh = "filter (\<lambda>x. x \<le> hival) xs"
  have mem: "x \<in> set xs \<Longrightarrow> x \<le> hival \<Longrightarrow> x \<le> Max (set ?wh)" for x by simp
  have hi: "?wh \<noteq> [] \<Longrightarrow> Max (set ?wh) \<le> hival"
    by (subst Max_le_iff) (auto simp: filter_empty_conv)
  have mx: "?wh \<noteq> [] \<Longrightarrow> Max (set ?wh) \<le> Max (set xs)"
    using assms(2) by (intro Max_mono) (auto simp: filter_empty_conv)
  have b: "w \<le> hival \<and> q3 \<le> w \<and> w \<le> Max (set xs)"
    using assms(1,3) hi mx unfolding w by auto
  have "w < x \<longleftrightarrow> hival < x" if "x \<in> set xs" for x
  proof
    assume "w < x"
    show "hival < x"
    proof (rule ccontr)
      assume "\<not> hival < x"
      then have "x \<le> Max (set ?wh)" and "?wh \<noteq> []" using mem that by (auto simp: filter_empty_conv not_less)
      with \<open>w < x\<close> show False unfolding w by (auto split: if_splits)
    qed
  next
    assume "hival < x"
    with b show "w < x" by linarith
  qed
  then show ?thesis using b by (auto intro: filter_cong)
qed

lemma box_stats_fences_aux:
  assumes "xs \<noteq> []"
  shows "Min (set xs) \<le> b_whislo (box_stats xs) \<and> b_whislo (box_stats xs) \<le> b_q1 (box_stats xs) \<and>
         b_q1 (box_stats xs) \<le> b_med (box_stats xs) \<and> b_med (box_stats xs) \<le> b_q3 (box_stats xs) \<and>
         b_q3 (box_stats xs) \<le> b_whishi (box_stats xs) \<and> b_whishi (box_stats xs) \<le> Max (set xs) \<and>
         b_fliers (box_stats xs) =
           filter (\<lambda>x. x < b_q1 (box_stats xs) - 3 / 2 * (b_q3 (box_stats xs) - b_q1 (box_stats xs))) xs @
           filter (\<lambda>x. b_q3 (box_stats xs) + 3 / 2 * (b_q3 (box_stats xs) - b_q1 (box_stats xs)) < x) xs"
proof -
  define q1 where "q1 = quantile xs (1 / 4)"
  define med where "med = quantile xs (1 / 2)"
  define q3 where "q3 = quantile xs (3 / 4)"
  define loval where "loval = q1 - 3 / 2 * (q3 - q1)"
  define hival where "hival = q3 + 3 / 2 * (q3 - q1)"
  define whislo where "whislo = (if filter (\<lambda>x. loval \<le> x) xs = [] then q1
                 else if q1 < Min (set (filter (\<lambda>x. loval \<le> x) xs)) then q1
                 else Min (set (filter (\<lambda>x. loval \<le> x) xs)))"
  define whishi where "whishi = (if filter (\<lambda>x. x \<le> hival) xs = [] then q3
                 else if Max (set (filter (\<lambda>x. x \<le> hival) xs)) < q3 then q3
                 else Max (set (filter (\<lambda>x. x \<le> hival) xs)))"
  have bs: "box_stats xs = \<lparr>b_q1 = q1, b_med = med, b_q3 = q3, b_whislo = whislo, b_whishi = whishi,
            b_fliers = filter (\<lambda>x. x < whislo) xs @ filter (\<lambda>x. whishi < x) xs\<rparr>"
    unfolding box_stats_def Let_def whislo_def whishi_def loval_def hival_def q1_def med_def q3_def
    by (rule refl)
  have q: "q1 \<le> med" "med \<le> q3"
    unfolding q1_def med_def q3_def using quantile_mono [OF assms] by simp_all
  have m: "Min (set xs) \<le> q1" "q3 \<le> Max (set xs)"
    unfolding q1_def q3_def using quantile_bounds [OF assms] by simp_all
  have "loval \<le> q1" "q3 \<le> hival"
    using q unfolding loval_def hival_def by simp_all
  then have lo: "loval \<le> whislo \<and> whislo \<le> q1 \<and> Min (set xs) \<le> whislo \<and>
                 filter (\<lambda>x. x < whislo) xs = filter (\<lambda>x. x < loval) xs"
    and hi: "whishi \<le> hival \<and> q3 \<le> whishi \<and> whishi \<le> Max (set xs) \<and>
                 filter (\<lambda>x. whishi < x) xs = filter (\<lambda>x. hival < x) xs"
    using whisker_lo [OF _ assms m(1) whislo_def] whisker_hi [OF _ assms m(2) whishi_def] by auto
  show ?thesis
    using q lo hi unfolding bs loval_def hival_def by simp
qed

section \<open>Lemmas: the heatmap colours\<close>

lemma cmap_index_top: "1 \<le> x \<Longrightarrow> 0 < n \<Longrightarrow> cmap_index n x = n - 1"
proof -
  assume "1 \<le> x" "0 < n"
  then have "real n \<le> x * real n" by simp
  then have "n \<le> nat \<lfloor>x * real n\<rfloor>" by (simp add: le_nat_floor)
  with \<open>1 \<le> x\<close> show ?thesis by (simp add: cmap_index_def)
qed

lemma cmap_index_mono: "x \<le> y \<Longrightarrow> cmap_index n x \<le> cmap_index n y"
proof -
  assume "x \<le> y"
  then have "nat \<lfloor>x * real n\<rfloor> \<le> nat \<lfloor>y * real n\<rfloor>"
    by (intro nat_mono floor_mono mult_right_mono) simp_all
  with \<open>x \<le> y\<close> show ?thesis by (auto simp: cmap_index_def)
qed

lemma cmap_index_le: "cmap_index n x \<le> n - 1"
  by (simp add: cmap_index_def)

lemma norm_val_ge_1: "vmin < vmax \<Longrightarrow> vmax \<le> v \<Longrightarrow> 1 \<le> norm_val vmin vmax v"
  by (simp add: norm_val_def)

lemma norm_val_mono: "vmin < vmax \<Longrightarrow> v \<le> w \<Longrightarrow> norm_val vmin vmax v \<le> norm_val vmin vmax w"
  by (simp add: norm_val_def divide_right_mono)

lemma heatmap_colors_Inl:
  "(\<exists>e. heatmap_colors m = Inl e) \<longleftrightarrow>
     dropna (concat (cells m)) \<noteq> [] \<and> heat_vmax < Min (set (dropna (concat (cells m))))"
  by (simp add: heatmap_colors_def Let_def)

lemma heatmap_colors_Inr:
  assumes "heatmap_colors m = Inr cs" and "dropna (concat (cells m)) \<noteq> []"
  shows "Min (set (dropna (concat (cells m)))) \<le> heat_vmax \<and>
         cs = map (map (map_option (\<lambda>v. cmap_index 256
                (norm_val (Min (set (dropna (concat (cells m))))) heat_vmax v)))) (cells m)"
  using assms by (auto simp: heatmap_colors_def Let_def not_less simp del: Min_gr_iff split: if_splits)

section \<open>Lemmas: the histogram\<close>

lemma iqr_nonneg: "xs \<noteq> [] \<Longrightarrow> 0 \<le> iqr xs"
  using quantile_mono [of xs "1 / 4" "3 / 4"] by (simp add: iqr_def)

lemma iqr_pos_range: "xs \<noteq> [] \<Longrightarrow> 0 < iqr xs \<Longrightarrow> Min (set xs) < Max (set xs)"
  using quantile_bounds [of xs "1 / 4"] quantile_bounds [of xs "3 / 4"] by (simp add: iqr_def)

lemma fd_bins_pos: "1 \<le> fd_bins a"
proof (cases "length a < 2")
  case True
  then show ?thesis by (simp add: fd_bins_def)
next
  case False
  then have a: "a \<noteq> []" by (cases a) simp_all
  have n: "2 \<le> real (length a)" using False by simp
  define h where "h = 2 * iqr a / root 3 (real (length a))"
  have r: "0 < root 3 (real (length a))" using a by simp
  show ?thesis
  proof (cases "h = 0")
    case True
    have "1 \<le> sqrt (real (length a))" using n by simp
    then have "1 \<le> nat \<lfloor>sqrt (real (length a))\<rfloor>" by (simp add: le_nat_floor)
    with True False show ?thesis by (simp add: fd_bins_def h_def [symmetric] Let_def)
  next
    case False
    then have "0 < iqr a" using iqr_nonneg [OF a] r unfolding h_def by auto
    then have "0 < h" using r unfolding h_def by simp
    moreover have "Min (set a) < Max (set a)" by (rule iqr_pos_range [OF a \<open>0 < iqr a\<close>])
    ultimately have "0 < (Max (set a) - Min (set a)) / h" by simp
    then have "1 \<le> nat \<lceil>(Max (set a) - Min (set a)) / h\<rceil>" by linarith
    with False \<open>\<not> length a < 2\<close> show ?thesis by (simp add: fd_bins_def h_def [symmetric] Let_def)
  qed
qed

lemma hist_range_bounds:
  assumes "a \<noteq> []"
  shows "fst (hist_range a) < snd (hist_range a) \<and>
         (\<forall>v\<in>set a. fst (hist_range a) \<le> v \<and> v \<le> snd (hist_range a))"
proof -
  have le: "Min (set a) \<le> Max (set a)" using assms by simp
  have mm: "Min (set a) \<le> v \<and> v \<le> Max (set a)" if "v \<in> set a" for v
    using that by simp
  show ?thesis
  proof (cases "Min (set a) = Max (set a)")
    case True
    have hr: "hist_range a = (Min (set a) - 1 / 2, Max (set a) + 1 / 2)"
      using assms True by (simp add: hist_range_def Let_def)
    have "fst (hist_range a) < snd (hist_range a)"
      using le by (simp add: hr)
    moreover have "fst (hist_range a) \<le> v \<and> v \<le> snd (hist_range a)" if "v \<in> set a" for v
      using mm [OF that] by (simp add: hr)
    ultimately show ?thesis by blast
  next
    case False
    have hr: "hist_range a = (Min (set a), Max (set a))"
      using assms False by (simp add: hist_range_def Let_def)
    have "fst (hist_range a) < snd (hist_range a)"
      using le False by (simp add: hr)
    moreover have "fst (hist_range a) \<le> v \<and> v \<le> snd (hist_range a)" if "v \<in> set a" for v
      using mm [OF that] by (simp add: hr)
    ultimately show ?thesis by blast
  qed
qed

lemma bin_of_less:
  assumes "0 < k" and "lo < hi" and "lo \<le> v" and "v \<le> hi"
  shows "bin_of k lo hi v < k"
proof -
  have "(v - lo) * real k / (hi - lo) \<le> real k"
    using assms by (simp add: divide_le_eq mult_left_mono mult.commute)
  then have "nat \<lfloor>(v - lo) * real k / (hi - lo)\<rfloor> \<le> k"
    by (metis floor_of_nat nat_le_iff order_trans le_floor_iff order_refl)
  then show ?thesis using assms(1) by (auto simp: bin_of_def Let_def)
qed

lemma sum_filter_bins:
  "(\<Sum>i\<leftarrow>[0..<k]. length (filter (\<lambda>v. f v = i) a)) = length (filter (\<lambda>v. f v < k) a)"
proof (induction a)
  case Nil
  then show ?case by simp
next
  case (Cons x a)
  have "(\<Sum>i\<leftarrow>[0..<k]. length (filter (\<lambda>v. f v = i) (x # a))) =
        (\<Sum>i\<leftarrow>[0..<k]. (if f x = i then 1 else 0) + length (filter (\<lambda>v. f v = i) a))"
    by (rule arg_cong [where f = sum_list], rule map_cong) simp_all
  also have "\<dots> = (if f x < k then 1 else 0) + length (filter (\<lambda>v. f v < k) a)"
    by (simp add: sum_list_addf sum_list_if_eq Cons.IH)
  finally show ?case by simp
qed

lemma sum_list_real_div: "(\<Sum>c\<leftarrow>cs. real c / d) = real (sum_list cs) / d"
  by (induction cs) (auto simp: add_divide_distrib)

lemma hist_bins_bounds: "1 \<le> hist_bins a \<and> hist_bins a \<le> 50"
  using fd_bins_pos [of a] by (simp add: hist_bins_def)

lemma hist_total_aux:
  assumes "dropna v \<noteq> []"
  shows "sum_list (hist_counts (hist_bins (dropna v)) (dropna v)) = length (dropna v) \<and>
         sum_list (hist_density v) *
           ((snd (hist_range (dropna v)) - fst (hist_range (dropna v))) / real (hist_bins (dropna v))) = 1"
proof -
  define a where "a = dropna v"
  define k where "k = hist_bins a"
  obtain lo hi where hr: "hist_range a = (lo, hi)" by fastforce
  have a: "a \<noteq> []" using assms by (simp add: a_def)
  have k: "0 < k" using hist_bins_bounds [of a] by (simp add: k_def)
  have r: "lo < hi" "\<forall>x\<in>set a. lo \<le> x \<and> x \<le> hi"
    using hist_range_bounds [OF a] by (simp_all add: hr)
  have "filter (\<lambda>x. bin_of k lo hi x < k) a = a"
    using r k bin_of_less by (simp add: filter_id_conv)
  then have c: "sum_list (hist_counts k a) = length a"
    by (simp add: hist_counts_def hr sum_filter_bins)
  define w where "w = (hi - lo) / real k"
  have w: "0 < w" using r(1) k by (simp add: w_def)
  have n: "0 < real (length a)" using a by simp
  have "hist_density v = map (\<lambda>c. real c / (real (length a) * w)) (hist_counts k a)"
    unfolding hist_density_def Let_def a_def [symmetric] k_def [symmetric] hr prod.case w_def
    by (rule refl)
  then have "sum_list (hist_density v) = real (sum_list (hist_counts k a)) / (real (length a) * w)"
    by (simp only: sum_list_real_div)
  also have "\<dots> = 1 / w" using c n by simp
  finally have "sum_list (hist_density v) * w = 1" using w by simp
  then have "sum_list (hist_density v) * ((hi - lo) / real k) = 1" by (simp only: w_def)
  with c show ?thesis
    unfolding a_def [symmetric] k_def [symmetric] hr fst_conv snd_conv by (rule conjI)
qed

lemma heatmap_cell_top:
  assumes "heatmap_colors m = Inr cs" and "i < length (cells m)" and "j < length (cells m ! i)"
    and "cells m ! i ! j = Some v" and "heat_vmax \<le> v"
    and "Some u \<in> set (concat (cells m))" and "u < heat_vmax"
  shows "cs ! i ! j = Some 255"
proof -
  let ?vals = "dropna (concat (cells m))"
  have u: "u \<in> set ?vals" using assms(6) by (simp add: set_dropna)
  then have ne: "?vals \<noteq> []" by auto
  have "Min (set ?vals) \<le> u" using u by simp
  with assms(7) have lt: "Min (set ?vals) < heat_vmax" by linarith
  have cs: "cs = map (map (map_option (\<lambda>v. cmap_index 256 (norm_val (Min (set ?vals)) heat_vmax v))))
                   (cells m)"
    using heatmap_colors_Inr [OF assms(1) ne] by blast
  have "1 \<le> norm_val (Min (set ?vals)) heat_vmax v"
    using norm_val_ge_1 [OF lt assms(5)] .
  then have "cmap_index 256 (norm_val (Min (set ?vals)) heat_vmax v) = 255"
    by (simp add: cmap_index_top)
  with assms(2-4) show ?thesis by (simp add: cs)
qed

section \<open>Lemmas: the density curve\<close>

lemma linspace_ends:
  assumes "2 \<le> k"
  shows "length (linspace a b k) = k \<and> hd (linspace a b k) = a \<and> last (linspace a b k) = b"
proof -
  have "last (map (\<lambda>i. a + real i * ((b - a) / real (k - 1))) [0..<k]) = b"
    using assms by (simp add: last_map of_nat_diff)
  moreover have "hd (map (\<lambda>i. a + real i * ((b - a) / real (k - 1))) [0..<k]) = a"
    using assms by (simp add: hd_map upt_conv_Cons)
  ultimately show ?thesis using assms by (simp add: linspace_def)
qed

lemma linspace_shift: "linspace (a + c) (b + c) k = map (\<lambda>x. x + c) (linspace a b k)"
  by (simp add: linspace_def algebra_simps)

lemma sum_exp_pos: "xs \<noteq> [] \<Longrightarrow> 0 < (\<Sum>x\<leftarrow>xs. exp (f x :: real))"
proof (induction xs)
  case (Cons a xs)
  have "0 \<le> (\<Sum>x\<leftarrow>xs. exp (f x))" by (rule sum_list_nonneg) auto
  then show ?case by (simp add: add_pos_nonneg)
qed simp

lemma kde_eval_pos: "xs \<noteq> [] \<Longrightarrow> 0 < cov \<Longrightarrow> 0 < kde_eval xs cov x"
  unfolding kde_eval_def by (intro divide_pos_pos sum_exp_pos) auto

lemma kde_eval_shift:
  "kde_eval (map (\<lambda>x. x + c) xs) cov (x + c) = kde_eval xs cov x"
  by (simp add: kde_eval_def comp_def)

lemma series_var_shift:
  "series_var (map (map_option (\<lambda>x. x + c)) v) = series_var v"
  by (cases "dropna v = []") (simp_all add: series_var_def Let_def dev_sum_shift)

lemma kde_curve_None: "kde_curve v = None \<longleftrightarrow> length (dropna v) < 2 \<or> card (set (dropna v)) = 1"
proof -
  have "2 \<le> length (dropna v) \<Longrightarrow> dropna v \<noteq> []" by auto
  then show ?thesis
    using dev_sum_2_zero_iff [of "dropna v"]
    by (auto simp: kde_curve_def series_var_def Let_def)
qed

lemma Min_Max_shift:
  fixes xs :: "real list"
  assumes "xs \<noteq> []"
  shows "Min (set (map (\<lambda>x. x + c) xs)) = Min (set xs) + c \<and> Max (set (map (\<lambda>x. x + c) xs)) = Max (set xs) + c"
proof -
  have m: "mono (\<lambda>x::real. x + c)" by (rule monoI) simp
  show ?thesis using assms mono_Min_commute [OF m, of "set xs"] mono_Max_commute [OF m, of "set xs"]
    by simp
qed

lemma kde_support_shift:
  "xs \<noteq> [] \<Longrightarrow> kde_support (map (\<lambda>x. x + c) xs) bw = map (\<lambda>x. x + c) (kde_support xs bw)"
  using Min_Max_shift [of xs c] linspace_shift [of "Min (set xs) - bw * 3" c "Max (set xs) + bw * 3" 200]
  by (simp add: kde_support_def algebra_simps)

lemma kde_curve_shift:
  "kde_curve (map (map_option (\<lambda>x. x + c)) v) = map_option (map (\<lambda>(x, y). (x + c, y))) (kde_curve v)"
proof (cases "series_var v")
  case None
  then show ?thesis by (simp add: kde_curve_def series_var_shift)
next
  case (Some var)
  then have ne: "dropna v \<noteq> []" by (auto simp: series_var_def Let_def split: if_splits)
  show ?thesis
    using Some ne kde_support_shift [OF ne, of c] kde_eval_shift [of c "dropna v"]
    by (simp add: kde_curve_def series_var_shift Let_def comp_def)
qed

lemma kde_curve_Some:
  assumes "kde_curve v = Some cv"
  shows "length cv = 200 \<and> (\<forall>p\<in>set cv. 0 < snd p) \<and>
         (\<exists>bw>0. fst (hd cv) = Min (set (dropna v)) - 3 * bw \<and> fst (last cv) = Max (set (dropna v)) + 3 * bw)"
proof -
  define xs where "xs = dropna v"
  obtain var where var: "series_var v = Some var" "var \<noteq> 0"
    using assms by (auto simp: kde_curve_def split: option.splits if_splits)
  have n: "2 \<le> length xs" and vdef: "var = dev_sum 2 xs / real (length xs - 1)"
    using var by (auto simp: series_var_def Let_def xs_def split: if_splits)
  have vpos: "0 < var"
    using var(2) dev_sum_2_nonneg [of xs] n by (simp add: vdef order_less_le)
  define cov where "cov = var * (scotts_factor (length xs))\<^sup>2"
  have "xs \<noteq> []" using n by auto
  then have "0 < scotts_factor (length xs)" by (simp add: scotts_factor_def)
  then have cpos: "0 < cov" using vpos by (simp add: cov_def)
  define bw where "bw = sqrt cov"
  have bpos: "0 < bw" using cpos by (simp add: bw_def)
  have cv: "cv = map (\<lambda>x. (x, kde_eval xs cov x)) (kde_support xs bw)"
    using assms var by (simp add: kde_curve_def xs_def cov_def bw_def Let_def)
  have ls: "length (kde_support xs bw) = 200 \<and> hd (kde_support xs bw) = Min (set xs) - bw * 3 \<and>
            last (kde_support xs bw) = Max (set xs) + bw * 3"
    unfolding kde_support_def by (rule linspace_ends) simp
  have ne: "kde_support xs bw \<noteq> []" using ls by auto
  have "\<forall>p\<in>set cv. 0 < snd p"
    using n cpos by (auto simp: cv intro!: kde_eval_pos)
  moreover have "fst (hd cv) = Min (set xs) - 3 * bw \<and> fst (last cv) = Max (set xs) + 3 * bw"
    using ls ne by (simp add: cv hd_map last_map)
  ultimately show ?thesis using ls bpos by (auto simp: cv xs_def)
qed

section \<open>Properties of the plot data\<close>

text \<open>
  C25. The box plots of lines 65 and 72 show every price whose category is present exactly
  once: the categories are distinct, and the groups together hold the non-NaN prices of the
  rows with a category, with their multiplicities.
\<close>

theorem box_groups_partition:
  "distinct (map fst (box_groups c y)) \<and>
   (\<Sum>(l, g)\<leftarrow>box_groups c y. mset g) = mset (dropna (mask_keep (map Not (col_isnull c)) y))"
  by (rule box_groups_partition_aux)

text \<open>
  C26. Each box is ordered, min \<open>\<le>\<close> lower whisker \<open>\<le>\<close> q1 \<open>\<le>\<close> median \<open>\<le>\<close> q3
  \<open>\<le>\<close> upper whisker \<open>\<le>\<close> max, and its fliers are exactly the values beyond the fences
  \<open>q1 - 1.5 iqr\<close> and \<open>q3 + 1.5 iqr\<close>.
\<close>

theorem box_stats_fences:
  assumes "xs \<noteq> []"
  shows "Min (set xs) \<le> b_whislo (box_stats xs) \<and> b_whislo (box_stats xs) \<le> b_q1 (box_stats xs) \<and>
         b_q1 (box_stats xs) \<le> b_med (box_stats xs) \<and> b_med (box_stats xs) \<le> b_q3 (box_stats xs) \<and>
         b_q3 (box_stats xs) \<le> b_whishi (box_stats xs) \<and> b_whishi (box_stats xs) \<le> Max (set xs) \<and>
         b_fliers (box_stats xs) =
           filter (\<lambda>x. x < b_q1 (box_stats xs) - 3 / 2 * (b_q3 (box_stats xs) - b_q1 (box_stats xs))) xs @
           filter (\<lambda>x. b_q3 (box_stats xs) + 3 / 2 * (b_q3 (box_stats xs) - b_q1 (box_stats xs)) < x) xs"
  by (rule box_stats_fences_aux [OF assms])

text \<open>
  C27. In the heatmap of line 99 every correlation of at least \<open>vmax = 0.8\<close> gets the top
  colour of the colormap, as soon as some value shown lies below 0.8: the saturated squares
  the docstring of lines 103--106 reads as strong correlations are exactly these.
\<close>

theorem heatmap_top_color:
  assumes "heatmap_colors m = Inr cs" and "i < length (cells m)" and "j < length (cells m ! i)"
    and "cells m ! i ! j = Some v" and "heat_vmax \<le> v"
    and "Some u \<in> set (concat (cells m))" and "u < heat_vmax"
  shows "cs ! i ! j = Some 255"
  using assms by (rule heatmap_cell_top)

text \<open>
  C28. The data \<open>distplot\<close> draws at line 17. The histogram has between 1 and 50 bins,
  counts every non-NaN value once, and, drawn as a density, has total area 1. The density
  curve is skipped exactly when fewer than two values are left or all are equal; otherwise
  it has 200 points, positive everywhere, running from 3 bandwidths below the least value
  to 3 bandwidths above the greatest; shifting the data shifts the curve and keeps its
  heights.
\<close>

theorem distplot_data:
  assumes "dropna v \<noteq> []"
  shows "1 \<le> hist_bins (dropna v) \<and> hist_bins (dropna v) \<le> 50 \<and>
         sum_list (hist_counts (hist_bins (dropna v)) (dropna v)) = length (dropna v) \<and>
         sum_list (hist_density v) *
           ((snd (hist_range (dropna v)) - fst (hist_range (dropna v))) / real (hist_bins (dropna v))) = 1 \<and>
         (kde_curve v = None \<longleftrightarrow> length (dropna v) < 2 \<or> card (set (dropna v)) = 1) \<and>
         (kde_curve v = Some cv \<longrightarrow>
            length cv = 200 \<and> (\<forall>p\<in>set cv. 0 < snd p) \<and>
            (\<exists>bw>0. fst (hd cv) = Min (set (dropna v)) - 3 * bw \<and>
                     fst (last cv) = Max (set (dropna v)) + 3 * bw)) \<and>
         kde_curve (map (map_option (\<lambda>x. x + c)) v) = map_option (map (\<lambda>(x, y). (x + c, y))) (kde_curve v)"
  using hist_bins_bounds [of "dropna v"] hist_total_aux [OF assms] kde_curve_None [of v]
    kde_curve_Some [of v cv] kde_curve_shift [of c v]
  by blast

end
