(* ===== verification/Script.thy ===== *)
theory Script
  imports Missing Read_Csv Plot
begin

text \<open>
  The script src/house_prices_eda.py as a program: its statements are steps of a small
  interpreter over the script's variables. \<open>df_train\<close> and \<open>missing_data\<close> are the
  variables later lines read, \<open>shown\<close> is what the run prints or plots, in order. A step
  that reads a variable no line has assigned yet raises \<open>NameError\<close>, as Python does. As
  committed, only line 12 is code (\<open>shipped_steps\<close>); the analysis the comments document,
  meant to be run by uncommenting it, is \<open>eda_steps\<close>, line by line.
\<close>

section \<open>Values shown and the script's variables\<close>

datatype shown_value =
    OutColumns "string list"
  | OutDescribe description
  | OutDescribeObj nat nat    \<comment> \<open>count and number of distinct values of an object column\<close>
  | OutDist "real list" "(real \<times> real) list option"   \<comment> \<open>histogram densities and density curve\<close>
  | OutSkew "real option"
  | OutScatter "(real \<times> real) list"
  | OutCorr "real option"
  | OutBoxes "(level \<times> box) list"
  | OutHeatmap "nat option list list"
  | OutTable "(string \<times> nat \<times> real option) list"
  | OutMax "nat option"

record script_state =
  df_train :: "frame option"
  missing_data_var :: "(string \<times> nat \<times> real option) list option"
  shown :: "shown_value list"

definition init_state :: script_state where
  "init_state = \<lparr>df_train = None, missing_data_var = None, shown = []\<rparr>"

section \<open>The statements\<close>

datatype step =
    ReadCsv string               \<comment> \<open>line 12\<close>
  | PrintColumns                 \<comment> \<open>line 14\<close>
  | Describe string              \<comment> \<open>line 15\<close>
  | DistPlot string              \<comment> \<open>lines 17--18\<close>
  | Skew string                  \<comment> \<open>line 28\<close>
  | Scatter string string        \<comment> \<open>lines 47--49, 52--54\<close>
  | SeriesCorr string string     \<comment> \<open>lines 57--58\<close>
  | BoxPlot string string        \<comment> \<open>lines 63--67, 70--75\<close>
  | CorrMat                      \<comment> \<open>lines 97--100\<close>
  | Audit                        \<comment> \<open>lines 131--134\<close>
  | Clean                        \<comment> \<open>lines 164--165\<close>
  | Check                        \<comment> \<open>line 166\<close>

text \<open>
  Lines 164--165 read the variable \<open>missing_data\<close> of line 133, not a fresh audit of the
  current frame.
\<close>

definition clean_with :: "(string \<times> nat \<times> real option) list \<Rightarrow> frame \<Rightarrow> frame result" where
  "clean_with md df =
     (case drop_columns (high_missing md) df of
        Inl e \<Rightarrow> Inl e
      | Inr df1 \<Rightarrow>
          (case null_labels df1 ''Electrical'' of
             Inl e \<Rightarrow> Inl e
           | Inr nan_rows \<Rightarrow> drop_rows nan_rows df1))"

definition emit :: "shown_value \<Rightarrow> script_state \<Rightarrow> script_state result" where
  "emit out s = Inr (s\<lparr>shown := shown s @ [out]\<rparr>)"

text \<open>One statement; every statement after line 12 reads \<open>df_train\<close> first.\<close>

fun exec_step :: "(string \<rightharpoonup> string) \<Rightarrow> step \<Rightarrow> script_state \<Rightarrow> script_state result" where
  "exec_step fs (ReadCsv p) s =
     (case read_csv fs p of Inl e \<Rightarrow> Inl e | Inr df \<Rightarrow> Inr (s\<lparr>df_train := Some df\<rparr>))"
| "exec_step fs st s =
     (case df_train s of
        None \<Rightarrow> Inl (NameError ''df_train'')
      | Some df \<Rightarrow>
          (case st of
             PrintColumns \<Rightarrow> emit (OutColumns (col_names df)) s
           | Describe c \<Rightarrow>
               (case get_column df c of
                  Inl e \<Rightarrow> Inl e
                | Inr (NumCol v) \<Rightarrow> emit (OutDescribe (describe v)) s
                | Inr (StrCol v) \<Rightarrow> emit (OutDescribeObj (length (dropna v)) (card (set (dropna v)))) s)
           | DistPlot c \<Rightarrow>
               (case get_column df c of
                  Inl e \<Rightarrow> Inl e
                | Inr (NumCol v) \<Rightarrow> emit (OutDist (hist_density v) (kde_curve v)) s
                | Inr (StrCol _) \<Rightarrow> Inl (ValueError ''could not convert string to float''))
           | Skew c \<Rightarrow>
               (case get_column df c of
                  Inl e \<Rightarrow> Inl e
                | Inr col \<Rightarrow> (case col_skew col of Inl e \<Rightarrow> Inl e | Inr r \<Rightarrow> emit (OutSkew r) s))
           | Scatter x y \<Rightarrow>
               (case concat2 df y x of
                  Inl e \<Rightarrow> Inl e
                | Inr data \<Rightarrow>
                    (case scatter_points data x y of Inl e \<Rightarrow> Inl e | Inr ps \<Rightarrow> emit (OutScatter ps) s))
           | SeriesCorr x y \<Rightarrow>
               (case col_corr df x y of Inl e \<Rightarrow> Inl e | Inr r \<Rightarrow> emit (OutCorr r) s)
           | BoxPlot x y \<Rightarrow>
               (case boxplot_data df x y of Inl e \<Rightarrow> Inl e | Inr bs \<Rightarrow> emit (OutBoxes bs) s)
           | CorrMat \<Rightarrow>
               (case heatmap_colors (frame_corr df) of Inl e \<Rightarrow> Inl e | Inr cs \<Rightarrow> emit (OutHeatmap cs) s)
           | Audit \<Rightarrow>
               emit (OutTable (missing_head df)) (s\<lparr>missing_data_var := Some (missing_data df)\<rparr>)
           | Clean \<Rightarrow>
               (case missing_data_var s of
                  None \<Rightarrow> Inl (NameError ''missing_data'')
                | Some md \<Rightarrow>
                    (case clean_with md df of Inl e \<Rightarrow> Inl e | Inr df' \<Rightarrow> Inr (s\<lparr>df_train := Some df'\<rparr>)))
           | Check \<Rightarrow> emit (OutMax (max_missing df)) s
           | ReadCsv p \<Rightarrow> Inr s))"

text \<open>Statements run in order; the first exception ends the run.\<close>

fun run_steps :: "(string \<rightharpoonup> string) \<Rightarrow> step list \<Rightarrow> script_state \<Rightarrow> script_state result" where
  "run_steps fs [] s = Inr s"
| "run_steps fs (st # sts) s =
     (case exec_step fs st s of Inl e \<Rightarrow> Inl e | Inr s' \<Rightarrow> run_steps fs sts s')"

section \<open>The script\<close>

definition shipped_steps :: "step list" where
  "shipped_steps = [ReadCsv ''train.csv'']"

definition eda_steps :: "step list" where
  "eda_steps =
     [ReadCsv ''train.csv'', PrintColumns, Describe ''SalePrice'', DistPlot ''SalePrice'',
      Skew ''SalePrice'',
      Scatter ''GrLivArea'' ''SalePrice'', Scatter ''TotalBsmtSF'' ''SalePrice'',
      SeriesCorr ''GrLivArea'' ''SalePrice'', SeriesCorr ''TotalBsmtSF'' ''SalePrice'',
      BoxPlot ''OverallQual'' ''SalePrice'', BoxPlot ''YearBuilt'' ''SalePrice'',
      CorrMat, Audit, Clean, Check]"

definition eda_script :: "(string \<rightharpoonup> string) \<Rightarrow> script_state result" where
  "eda_script fs = run_steps fs eda_steps init_state"

text \<open>The state invariant: a frame held in \<open>df_train\<close> is well formed.\<close>

definition script_inv :: "script_state \<Rightarrow> bool" where
  "script_inv s = (case df_train s of None \<Rightarrow> True | Some df \<Rightarrow> wf_frame df)"

text \<open>The statements that only show values: they change no variable.\<close>

fun is_display :: "step \<Rightarrow> bool" where
  "is_display (ReadCsv p) = False"
| "is_display Audit = False"
| "is_display Clean = False"
| "is_display st = True"

section \<open>The variables the statements read and assign\<close>

text \<open>
  Python looks a module variable up when the statement runs and raises \<open>NameError\<close> if no
  earlier statement assigned it. \<open>step_reads\<close> and \<open>step_assigns\<close> list the variables of
  each statement (line 12 assigns \<open>df_train\<close>, line 133 \<open>missing_data\<close>, line 165
  reassigns \<open>df_train\<close>; every other line reads \<open>df_train\<close>, line 164 also
  \<open>missing_data\<close>); \<open>scope_ok\<close> is the static check that every variable is assigned
  before it is read, \<open>assigned_vars\<close> the variables a state holds.
\<close>

fun step_reads :: "step \<Rightarrow> string list" where
  "step_reads (ReadCsv p) = []"
| "step_reads Clean = [''df_train'', ''missing_data'']"
| "step_reads st = [''df_train'']"

fun step_assigns :: "step \<Rightarrow> string list" where
  "step_assigns (ReadCsv p) = [''df_train'']"
| "step_assigns Audit = [''missing_data'']"
| "step_assigns Clean = [''df_train'']"
| "step_assigns st = []"

fun scope_ok :: "string list \<Rightarrow> step list \<Rightarrow> bool" where
  "scope_ok vs [] = True"
| "scope_ok vs (st # sts) = (set (step_reads st) \<subseteq> set vs \<and> scope_ok (step_assigns st @ vs) sts)"

definition assigned_vars :: "script_state \<Rightarrow> string list" where
  "assigned_vars s =
     (if df_train s = None then [] else [''df_train'']) @
     (if missing_data_var s = None then [] else [''missing_data''])"

section \<open>Lemmas: the statements\<close>

lemma clean_with_missing_data: "clean_with (missing_data df) df = clean df"
  by (simp add: clean_with_def clean_def)

lemma clean_with_wf: "wf_frame df \<Longrightarrow> clean_with md df = Inr df' \<Longrightarrow> wf_frame df'"
  by (auto simp: clean_with_def split: sum.splits intro: wf_drop_columns wf_drop_rows)

lemma exec_display:
  "is_display st \<Longrightarrow> exec_step fs st s = Inr s' \<Longrightarrow>
     df_train s' = df_train s \<and> missing_data_var s' = missing_data_var s"
  by (cases st) (auto simp: emit_def split: option.splits sum.splits column.splits)

lemma exec_audit:
  "exec_step fs Audit s = Inr s' \<Longrightarrow>
     \<exists>df. df_train s = Some df \<and> s' = s\<lparr>missing_data_var := Some (missing_data df),
                                        shown := shown s @ [OutTable (missing_head df)]\<rparr>"
  by (auto simp: emit_def split: option.splits)

lemma exec_clean:
  "exec_step fs Clean s = Inr s' \<Longrightarrow>
     \<exists>df md df'. df_train s = Some df \<and> missing_data_var s = Some md \<and> clean_with md df = Inr df' \<and>
                 s' = s\<lparr>df_train := Some df'\<rparr>"
  by (auto split: option.splits sum.splits)

lemma not_display_cases:
  assumes "\<not> is_display st"
  obtains p where "st = ReadCsv p" | "st = Audit" | "st = Clean"
  using assms by (cases st) auto

lemma exec_step_inv:
  assumes inv: "script_inv s" and ex: "exec_step fs st s = Inr s'"
  shows "script_inv s'"
proof (cases "is_display st")
  case True
  from exec_display [OF True ex] inv show ?thesis by (simp add: script_inv_def)
next
  case False
  then show ?thesis
  proof (cases rule: not_display_cases)
    case (1 p)
    with ex show ?thesis
      by (auto simp: script_inv_def split: sum.splits intro: read_csv_wf)
  next
    case 2
    from exec_audit [OF ex [unfolded 2]] obtain df where "df_train s = Some df"
      "df_train s' = df_train s"
      by auto
    with inv show ?thesis by (simp add: script_inv_def)
  next
    case 3
    from exec_clean [OF ex [unfolded 3]] obtain df md df' where "df_train s = Some df"
      "clean_with md df = Inr df'" "df_train s' = Some df'"
      by auto
    with inv show ?thesis by (auto simp: script_inv_def intro: clean_with_wf)
  qed
qed

lemma run_steps_Cons_Inr:
  "run_steps fs (st # sts) s = Inr s' \<Longrightarrow> \<exists>s1. exec_step fs st s = Inr s1 \<and> run_steps fs sts s1 = Inr s'"
  by (auto split: sum.splits)

lemma run_steps_append:
  "run_steps fs (xs @ ys) s = (case run_steps fs xs s of Inl e \<Rightarrow> Inl e | Inr s' \<Rightarrow> run_steps fs ys s')"
  by (induction xs arbitrary: s) (auto split: sum.splits)

lemma run_display:
  "list_all is_display sts \<Longrightarrow> run_steps fs sts s = Inr s' \<Longrightarrow>
     df_train s' = df_train s \<and> missing_data_var s' = missing_data_var s"
proof (induction sts arbitrary: s)
  case Nil
  then show ?case by simp
next
  case (Cons st sts)
  obtain s1 where "exec_step fs st s = Inr s1" "run_steps fs sts s1 = Inr s'"
    using run_steps_Cons_Inr [OF Cons.prems(2)] by blast
  with Cons show ?case by (auto dest!: exec_display)
qed

lemma exec_not_audit_missing:
  assumes "st \<noteq> Audit" and ex: "exec_step fs st s = Inr s'"
  shows "missing_data_var s' = missing_data_var s"
proof (cases "is_display st")
  case True
  from exec_display [OF True ex] show ?thesis by simp
next
  case False
  then show ?thesis
  proof (cases rule: not_display_cases)
    case (1 p)
    with ex show ?thesis by (auto split: sum.splits)
  next
    case 2
    with assms(1) show ?thesis by simp
  next
    case 3
    from exec_clean [OF ex [unfolded 3]] show ?thesis by auto
  qed
qed

lemma exec_clean_no_missing: "missing_data_var s = None \<Longrightarrow> \<exists>e. exec_step fs Clean s = Inl e"
  by (auto split: option.splits)

lemma run_steps_inv: "script_inv s \<Longrightarrow> run_steps fs sts s = Inr s' \<Longrightarrow> script_inv s'"
proof (induction sts arbitrary: s)
  case Nil
  then show ?case by simp
next
  case (Cons st sts)
  obtain s1 where "exec_step fs st s = Inr s1" "run_steps fs sts s1 = Inr s'"
    using run_steps_Cons_Inr [OF Cons.prems(2)] by blast
  with Cons.IH Cons.prems(1) show ?case by (blast intro: exec_step_inv)
qed

lemma run_clean_unassigned:
  "Audit \<notin> set pre \<Longrightarrow> missing_data_var s = None \<Longrightarrow> \<exists>e. run_steps fs (pre @ Clean # post) s = Inl e"
proof (induction pre arbitrary: s)
  case Nil
  then obtain e where "exec_step fs Clean s = Inl e" using exec_clean_no_missing by blast
  then show ?case by simp
next
  case (Cons st pre)
  show ?case
  proof (cases "exec_step fs st s")
    case (Inl e)
    then show ?thesis by simp
  next
    case (Inr s1)
    have "st \<noteq> Audit" using Cons.prems(1) by auto
    with Inr Cons.prems(2) have "missing_data_var s1 = None" by (simp add: exec_not_audit_missing)
    with Cons.IH Cons.prems(1) Inr show ?thesis by simp
  qed
qed

lemma eda_script_runs_aux:
  assumes r: "read_csv fs ''train.csv'' = Inr df"
    and num: "\<forall>c\<in>set [''SalePrice'', ''GrLivArea'', ''TotalBsmtSF'', ''OverallQual'', ''YearBuilt''].
                \<exists>v. map_of (columns df) c = Some (NumCol v)"
    and hm: "\<exists>cs. heatmap_colors (frame_corr df) = Inr cs"
    and cl: "clean df = Inr df'"
  shows "\<exists>s. eda_script fs = Inr s \<and> df_train s = Some df' \<and> length (shown s) = 13 \<and>
             last (shown s) = OutMax (max_missing df')"
proof -
  obtain v1 v2 v3 v4 v5 where
    m: "map_of (columns df) ''SalePrice'' = Some (NumCol v1)"
       "map_of (columns df) ''GrLivArea'' = Some (NumCol v2)"
       "map_of (columns df) ''TotalBsmtSF'' = Some (NumCol v3)"
       "map_of (columns df) ''OverallQual'' = Some (NumCol v4)"
       "map_of (columns df) ''YearBuilt'' = Some (NumCol v5)"
    using num by auto
  obtain cs where h: "heatmap_colors (frame_corr df) = Inr cs" using hm by blast
  show ?thesis
    using r m h cl
    by (simp add: eda_script_def eda_steps_def init_state_def emit_def get_column_def concat2_def
        scatter_points_def col_corr_def boxplot_data_def col_skew_def clean_with_missing_data)
qed

section \<open>Lemmas: no statement in scope raises NameError\<close>

lemma get_column_KeyError: "get_column df c = Inl e \<Longrightarrow> \<exists>k. e = KeyError k"
  by (auto simp: get_column_def split: option.splits)

lemma concat2_Inl: "concat2 df a b = Inl e \<Longrightarrow> \<exists>k. e = KeyError k"
  by (auto simp: concat2_def split: sum.splits dest: get_column_KeyError)

lemma frame_call_errors:
  "col_skew c = Inl e \<Longrightarrow> e \<noteq> NameError x"
  "scatter_points data a b = Inl e \<Longrightarrow> e \<noteq> NameError x"
  "col_corr df a b = Inl e \<Longrightarrow> e \<noteq> NameError x"
  "boxplot_data df a b = Inl e \<Longrightarrow> e \<noteq> NameError x"
  "heatmap_colors m = Inl e \<Longrightarrow> e \<noteq> NameError x"
  "clean_with md df = Inl e \<Longrightarrow> e \<noteq> NameError x"
  "read_csv fs p = Inl e \<Longrightarrow> e \<noteq> NameError x"
  by (auto simp: col_skew_def scatter_points_def col_corr_def boxplot_data_def heatmap_colors_def
      clean_with_def drop_columns_def null_labels_def drop_rows_def Let_def
      split: column.splits sum.splits list.splits option.splits if_splits prod.splits
      dest: get_column_KeyError concat2_Inl read_csv_Inl)

lemma exec_step_no_name_error:
  assumes "set (step_reads st) \<subseteq> set (assigned_vars s)"
  shows "exec_step fs st s \<noteq> Inl (NameError x)"
proof (cases st)
  case (ReadCsv p)
  then show ?thesis by (auto split: sum.splits dest: frame_call_errors(7))
next
  case Clean
  with assms obtain df md where "df_train s = Some df" "missing_data_var s = Some md"
    by (auto simp: assigned_vars_def split: if_splits)
  with Clean show ?thesis by (auto split: sum.splits dest: frame_call_errors(6))
qed (use assms in \<open>auto simp: assigned_vars_def emit_def split: if_splits option.splits sum.splits column.splits
      dest: get_column_KeyError concat2_Inl frame_call_errors\<close>)

lemma exec_step_assigns:
  assumes "exec_step fs st s = Inr s'"
  shows "set (step_assigns st @ assigned_vars s) \<subseteq> set (assigned_vars s')"
proof (cases "is_display st")
  case True
  then have "step_assigns st = []" by (cases st) auto
  with exec_display [OF True assms] show ?thesis by (simp add: assigned_vars_def)
next
  case False
  then show ?thesis
  proof (cases rule: not_display_cases)
    case (1 p)
    with assms show ?thesis by (auto simp: assigned_vars_def split: sum.splits)
  next
    case 2
    from exec_audit [OF assms [unfolded 2]] 2 show ?thesis by (auto simp: assigned_vars_def)
  next
    case 3
    from exec_clean [OF assms [unfolded 3]] 3 show ?thesis by (auto simp: assigned_vars_def)
  qed
qed

lemma scope_ok_mono: "scope_ok vs sts \<Longrightarrow> set vs \<subseteq> set vs' \<Longrightarrow> scope_ok vs' sts"
proof (induction vs sts arbitrary: vs' rule: scope_ok.induct)
  case (2 vs st sts)
  from "2.prems" have a: "set (step_reads st) \<subseteq> set vs" "scope_ok (step_assigns st @ vs) sts"
    "set vs \<subseteq> set vs'"
    by auto
  have "scope_ok (step_assigns st @ vs') sts"
    using "2.IH" [OF a(2), of "step_assigns st @ vs'"] a(3) by auto
  with a(1,3) show ?case by auto
qed simp

lemma run_scope_ok:
  "scope_ok (assigned_vars s) sts \<Longrightarrow> run_steps fs sts s \<noteq> Inl (NameError x)"
proof (induction sts arbitrary: s)
  case (Cons st sts)
  show ?case
  proof (cases "exec_step fs st s")
    case (Inl e)
    with Cons.prems exec_step_no_name_error [of st s fs x] show ?thesis by auto
  next
    case (Inr s')
    from Cons.prems have "scope_ok (step_assigns st @ assigned_vars s) sts" by simp
    then have "scope_ok (assigned_vars s') sts"
      using exec_step_assigns [OF Inr] by (rule scope_ok_mono)
    with Cons.IH Inr show ?thesis by simp
  qed
qed simp

section \<open>Properties of the script\<close>

text \<open>
  C29. The state invariant of the script: whatever statements run, in whatever order, a
  frame held in \<open>df_train\<close> stays well formed (unique labels and names, one cell per row in
  every column): \<open>read_csv\<close> makes one and the cleaning of lines 164--165 keeps it.
\<close>

theorem script_wf_run:
  assumes "script_inv s" and "run_steps fs sts s = Inr s'"
  shows "script_inv s'"
  using assms by (rule run_steps_inv)

text \<open>
  C31. Loading does not check for the target: a file without a \<open>SalePrice\<close> column is read
  without error, and the analysis then stops at line 15 with \<open>KeyError('SalePrice')\<close>.
\<close>

theorem eda_script_no_target:
  assumes "read_csv fs ''train.csv'' = Inr df" and "map_of (columns df) ''SalePrice'' = None"
  shows "eda_script fs = Inl (KeyError ''SalePrice'')"
  using assms by (simp add: eda_script_def eda_steps_def init_state_def emit_def get_column_def)

text \<open>
  C32. The analysis runs to its end when the file loads, the five columns it studies are
  numeric, the heatmap can be drawn and the cleaning succeeds: it shows thirteen values, the
  last one the check of line 166 on the cleaned frame, which it leaves in \<open>df_train\<close>.
\<close>

theorem eda_script_runs:
  assumes "read_csv fs ''train.csv'' = Inr df"
    and "\<forall>c\<in>set [''SalePrice'', ''GrLivArea'', ''TotalBsmtSF'', ''OverallQual'', ''YearBuilt''].
           \<exists>v. map_of (columns df) c = Some (NumCol v)"
    and "\<exists>cs. heatmap_colors (frame_corr df) = Inr cs"
    and "clean df = Inr df'"
  shows "\<exists>s. eda_script fs = Inr s \<and> df_train s = Some df' \<and> length (shown s) = 13 \<and>
             last (shown s) = OutMax (max_missing df')"
  using assms by (rule eda_script_runs_aux)

text \<open>
  C30. Scope soundness, the script's type discipline: a sequence of statements that passes
  the static check (every variable read was assigned by an earlier statement or is held by
  the state) never raises \<open>NameError\<close>, whatever the file holds; the documented analysis
  \<open>eda_steps\<close> passes it from the empty namespace. The order of the statements matters:
  the cleaning of lines 164--165 reads the variable \<open>missing_data\<close> of line 133, so a run
  that reaches it without having run the audit fails instead of cleaning.
\<close>

theorem scope_no_name_error:
  "(scope_ok (assigned_vars s) sts \<longrightarrow> run_steps fs sts s \<noteq> Inl (NameError x)) \<and>
   scope_ok [] eda_steps \<and>
   (Audit \<notin> set pre \<and> missing_data_var s = None \<longrightarrow> (\<exists>e. run_steps fs (pre @ Clean # post) s = Inl e))"
  using run_scope_ok run_clean_unassigned by (simp add: eda_steps_def)

end
