(* ===== verification/Warnings.thy ===== *)
theory Warnings
  imports Prelude
begin

text \<open>
  Python's \<open>warnings\<close> module, which line 8 imports and line 9 configures with
  \<open>warnings.filterwarnings('ignore')\<close>, as the reference implementation
  \<open>Lib/warnings.py\<close> of CPython 3 writes it: the list \<open>filters\<close> of
  \<open>(action, message, category, module, lineno)\<close> tuples searched first match first,
  \<open>_filters_version\<close> (bumped by every change of the list), the per-module
  \<open>__warningregistry__\<close> of locations already warned, \<open>onceregistry\<close>, and the
  messages \<open>_showwarnmsg\<close> writes to \<open>stderr\<close>. \<open>warn_explicit\<close> is the function every
  \<open>warnings.warn\<close> of the libraries ends in; \<open>filterwarnings\<close> and \<open>add_filter\<close>
  (\<open>_add_filter\<close>) change the list; \<open>python_startup\<close> is the state the interpreter
  starts the script in: CPython's initial filters (\<open>_warnings.c\<close>, release build) with the
  \<open>-W\<close> options of the command line in front of them.
\<close>

section \<open>Categories, actions and filters\<close>

text \<open>\<open>__mro__\<close> of each warning class, up to \<open>Warning\<close>.\<close>

fun mro :: "category \<Rightarrow> category list" where
  "mro Warning = [Warning]"
| "mro MatplotlibDeprecationWarning = [MatplotlibDeprecationWarning, DeprecationWarning, Warning]"
| "mro c = [c, Warning]"

definition issubclass :: "category \<Rightarrow> category \<Rightarrow> bool" where
  "issubclass c d \<longleftrightarrow> d \<in> set (mro c)"

datatype action = Error | Ignore | Always | Default | Module | Once

text \<open>
  A message or module field of a filter: \<open>None\<close> matches everything; \<open>Exact s\<close> is a
  string in the list (CPython's initial filters hold the module as the string
  \<open>'__main__'\<close>, compared with \<open>==\<close>); \<open>Regex p i\<close> is \<open>re.compile(p)\<close>, with \<open>re.I\<close>
  when \<open>i\<close>, matched with \<open>.match\<close>. Patterns are taken literally (no metacharacters),
  for which \<open>re.match\<close> is an anchored prefix test; \<open>re.I\<close> folds ASCII letters.
\<close>

datatype pattern = Exact string | Regex string bool

definition lower_ascii :: "char \<Rightarrow> char" where
  "lower_ascii c = (let n = of_char c :: nat in if 65 \<le> n \<and> n \<le> 90 then char_of (n + 32) else c)"

fun pat_match :: "pattern option \<Rightarrow> string \<Rightarrow> bool" where
  "pat_match None s = True"
| "pat_match (Some (Exact p)) s = (p = s)"
| "pat_match (Some (Regex p False)) s = (take (length p) s = p)"
| "pat_match (Some (Regex p True)) s =
     (take (length p) (map lower_ascii s) = map lower_ascii p)"

type_synonym wfilter = "action \<times> pattern option \<times> category \<times> pattern option \<times> nat"

text \<open>The test of the \<open>for item in filters\<close> loop of \<open>warn_explicit\<close>.\<close>

fun filter_matches :: "wfilter \<Rightarrow> string \<Rightarrow> category \<Rightarrow> string \<Rightarrow> nat \<Rightarrow> bool" where
  "filter_matches (a, msg, cat, md, fl) text c m lineno \<longleftrightarrow>
     pat_match msg text \<and> issubclass c cat \<and> pat_match md m \<and> (fl = 0 \<or> lineno = fl)"

text \<open>The first matching filter's action, else \<open>defaultaction = "default"\<close>.\<close>

fun get_action :: "wfilter list \<Rightarrow> string \<Rightarrow> category \<Rightarrow> string \<Rightarrow> nat \<Rightarrow> action" where
  "get_action [] text c m lineno = Default"
| "get_action (f # fs) text c m lineno =
     (if filter_matches f text c m lineno then fst f else get_action fs text c m lineno)"

section \<open>Registries and the module state\<close>

text \<open>
  Keys of a registry: \<open>(text, category, lineno)\<close> for a location, \<open>(text, category)\<close>
  in \<open>onceregistry\<close>. A registry's \<open>'version'\<close> entry is \<open>reg_version\<close>, 0 when absent
  (\<open>registry.get('version', 0)\<close>).
\<close>

datatype reg_key = LineKey string category nat | TextKey string category

record registry =
  reg_version :: nat
  reg_keys :: "reg_key set"

definition empty_registry :: registry where
  "empty_registry = \<lparr>reg_version = 0, reg_keys = {}\<rparr>"

text \<open>
  A warning as \<open>warnings.warn\<close> hands it to \<open>warn_explicit\<close>: its category, text, and the
  module (\<open>__name__\<close> of the frame \<open>stacklevel\<close> points at) and line it is attributed to.
\<close>

datatype warning_msg = WarningMsg category string string nat

record warnings_state =
  filters :: "wfilter list"
  filters_version :: nat
  registries :: "string \<Rightarrow> registry"      \<comment> \<open>\<open>__warningregistry__\<close> of each module\<close>
  onceregistry :: "reg_key set"
  stderr_warnings :: "warning_msg list"     \<comment> \<open>what \<open>_showwarnmsg\<close> printed, in order\<close>

section \<open>warn_explicit\<close>

definition show_warning :: "warning_msg \<Rightarrow> warnings_state \<Rightarrow> warnings_state" where
  "show_warning w st = st\<lparr>stderr_warnings := stderr_warnings st @ [w]\<rparr>"

definition set_registry :: "string \<Rightarrow> registry \<Rightarrow> warnings_state \<Rightarrow> warnings_state" where
  "set_registry m r st = st\<lparr>registries := (registries st)(m := r)\<rparr>"

text \<open>
  \<open>warn_explicit\<close> line by line: the registry of the module is cleared when its version
  is not \<open>_filters_version\<close>; a location already in it returns at once; otherwise the
  first matching filter decides: \<open>ignore\<close> returns, \<open>error\<close> raises the warning,
  \<open>once\<close>, \<open>module\<close> and \<open>default\<close> record the location (and the text in
  \<open>onceregistry\<close>, or \<open>(text, category, 0)\<close> in the registry) and show it unless that
  second key was already there; \<open>always\<close> shows it and records nothing.
\<close>

definition warn_explicit :: "warning_msg \<Rightarrow> warnings_state \<Rightarrow> warnings_state result" where
  "warn_explicit w st =
     (case w of WarningMsg c text m lineno \<Rightarrow>
        let r0 = registries st m;
            r = (if reg_version r0 \<noteq> filters_version st
                 then \<lparr>reg_version = filters_version st, reg_keys = {}\<rparr> else r0);
            key = LineKey text c lineno;
            st1 = set_registry m r st;
            r1 = r\<lparr>reg_keys := insert key (reg_keys r)\<rparr>
        in if key \<in> reg_keys r then Inr st1
           else (case get_action (filters st) text c m lineno of
                   Ignore \<Rightarrow> Inr st1
                 | Error \<Rightarrow> Inl (WarningRaised c text)
                 | Once \<Rightarrow>
                     (if TextKey text c \<in> onceregistry st then Inr (set_registry m r1 st)
                      else Inr (show_warning w ((set_registry m r1 st)
                                 \<lparr>onceregistry := insert (TextKey text c) (onceregistry st)\<rparr>)))
                 | Always \<Rightarrow> Inr (show_warning w st1)
                 | Module \<Rightarrow>
                     (if LineKey text c 0 \<in> reg_keys r1 then Inr (set_registry m r1 st)
                      else Inr (show_warning w
                             (set_registry m (r1\<lparr>reg_keys := insert (LineKey text c 0) (reg_keys r1)\<rparr>) st)))
                 | Default \<Rightarrow> Inr (show_warning w (set_registry m r1 st))))"

text \<open>Warnings issued one after the other; one that an \<open>error\<close> filter raises ends the run.\<close>

fun warn_all :: "warning_msg list \<Rightarrow> warnings_state \<Rightarrow> warnings_state result" where
  "warn_all [] st = Inr st"
| "warn_all (w # ws) st = (case warn_explicit w st of Inl e \<Rightarrow> Inl e | Inr st' \<Rightarrow> warn_all ws st')"

section \<open>Changing the filters\<close>

text \<open>\<open>_add_filter\<close> followed by \<open>_filters_mutated\<close>.\<close>

definition add_filter :: "wfilter \<Rightarrow> bool \<Rightarrow> warnings_state \<Rightarrow> warnings_state" where
  "add_filter f app st =
     st\<lparr>filters := (if app then (if f \<in> set (filters st) then filters st else filters st @ [f])
                   else f # remove1 f (filters st)),
        filters_version := Suc (filters_version st)\<rparr>"

text \<open>The tuple \<open>filterwarnings\<close> builds: empty message and module fields match everything.\<close>

definition compile_filter :: "action \<Rightarrow> string \<Rightarrow> category \<Rightarrow> string \<Rightarrow> nat \<Rightarrow> wfilter" where
  "compile_filter a msg c m lno =
     (a, if msg = [] then None else Some (Regex msg True), c,
      if m = [] then None else Some (Regex m False), lno)"

definition filterwarnings ::
  "action \<Rightarrow> string \<Rightarrow> category \<Rightarrow> string \<Rightarrow> nat \<Rightarrow> bool \<Rightarrow> warnings_state \<Rightarrow> warnings_state" where
  "filterwarnings a msg c m lno app st = add_filter (compile_filter a msg c m lno) app st"

section \<open>The interpreter's initial state\<close>

definition default_filters :: "wfilter list" where
  "default_filters =
     [(Default, None, DeprecationWarning, Some (Exact ''__main__''), 0),
      (Ignore, None, DeprecationWarning, None, 0),
      (Ignore, None, PendingDeprecationWarning, None, 0),
      (Ignore, None, ImportWarning, None, 0),
      (Ignore, None, ResourceWarning, None, 0)]"

definition init_warnings :: warnings_state where
  "init_warnings =
     \<lparr>filters = default_filters, filters_version = 1, registries = (\<lambda>m. empty_registry),
      onceregistry = {}, stderr_warnings = []\<rparr>"

text \<open>
  The \<open>-W\<close> options, already parsed by \<open>_setoption\<close>, each added in front by
  \<open>filterwarnings\<close>, so a later option takes precedence.
\<close>

definition python_startup :: "wfilter list \<Rightarrow> warnings_state" where
  "python_startup opts = fold (\<lambda>f st. add_filter f False st) opts init_warnings"


section \<open>What the default filters show\<close>

text \<open>
  The warnings CPython's initial filters let through: a \<open>DeprecationWarning\<close> (or
  subclass) only when attributed to \<open>__main__\<close>, no \<open>PendingDeprecationWarning\<close>,
  \<open>ImportWarning\<close> or \<open>ResourceWarning\<close>, every other category.
\<close>

fun default_visible :: "warning_msg \<Rightarrow> bool" where
  "default_visible (WarningMsg c t m n) =
     (if issubclass c DeprecationWarning then m = ''__main__''
      else c \<notin> {PendingDeprecationWarning, ImportWarning, ResourceWarning})"

text \<open>A location the registry of its module remembers under the current filters.\<close>

fun seen :: "warnings_state \<Rightarrow> warning_msg \<Rightarrow> bool" where
  "seen st (WarningMsg c t m n) \<longleftrightarrow>
     reg_version (registries st m) = filters_version st \<and> LineKey t c n \<in> reg_keys (registries st m)"

section \<open>Lemmas: filters\<close>

lemma issubclass_Warning [simp]: "issubclass c Warning"
  by (cases c) (simp_all add: issubclass_def)

lemma get_action_ignore_all [simp]:
  "get_action ((Ignore, None, Warning, None, 0) # fs) t c m n = Ignore"
  by simp

lemma add_filter_filters:
  "distinct (filters st) \<Longrightarrow>
     distinct (filters (add_filter f app st)) \<and>
     set (filters (add_filter f app st)) = insert f (set (filters st))"
  by (auto simp: add_filter_def set_remove1_eq)

lemma add_filter_first:
  "filter_matches f t c m n \<Longrightarrow> get_action (filters (add_filter f False st)) t c m n = fst f"
  by (simp add: add_filter_def)

lemma distinct_default_filters: "distinct default_filters"
  by (simp add: default_filters_def)

lemma python_startup_distinct: "distinct (filters (python_startup opts))"
proof -
  have "distinct (filters (fold (\<lambda>f st. add_filter f False st) opts st))" if "distinct (filters st)" for st
    using that by (induction opts arbitrary: st) (simp_all add: add_filter_filters)
  then show ?thesis by (simp add: python_startup_def init_warnings_def distinct_default_filters)
qed

section \<open>Lemmas: warn_explicit\<close>

lemma warn_all_append:
  "warn_all (ws @ vs) st = (case warn_all ws st of Inl e \<Rightarrow> Inl e | Inr st' \<Rightarrow> warn_all vs st')"
  by (induction ws arbitrary: st) (auto split: sum.split)

lemma warn_explicit_filters:
  "warn_explicit w st = Inr st' \<Longrightarrow>
     filters st' = filters st \<and> filters_version st' = filters_version st"
  by (cases w) (auto simp: warn_explicit_def Let_def set_registry_def show_warning_def
      split: if_splits action.splits)

lemma warn_explicit_ignored:
  assumes "case w of WarningMsg c t m n \<Rightarrow> get_action (filters st) t c m n = Ignore"
  shows "\<exists>st'. warn_explicit w st = Inr st' \<and> stderr_warnings st' = stderr_warnings st \<and>
           filters st' = filters st \<and> filters_version st' = filters_version st"
  using assms by (cases w) (auto simp: warn_explicit_def Let_def set_registry_def)

lemma warn_all_ignored:
  assumes "list_all (\<lambda>w. case w of WarningMsg c t m n \<Rightarrow> get_action (filters st) t c m n = Ignore) ws"
  shows "\<exists>st'. warn_all ws st = Inr st' \<and> stderr_warnings st' = stderr_warnings st \<and>
           filters st' = filters st \<and> filters_version st' = filters_version st"
  using assms
proof (induction ws arbitrary: st)
  case (Cons w ws)
  obtain st1 where st1: "warn_explicit w st = Inr st1" "stderr_warnings st1 = stderr_warnings st"
    "filters st1 = filters st" "filters_version st1 = filters_version st"
    using warn_explicit_ignored [where w = w and st = st] Cons.prems by auto
  have "list_all (\<lambda>w. case w of WarningMsg c t m n \<Rightarrow> get_action (filters st1) t c m n = Ignore) ws"
    using Cons.prems unfolding st1(3) by simp
  with Cons.IH [of st1] st1 show ?case by auto
qed simp

lemma warn_all_ignore_all:
  "filters st = (Ignore, None, Warning, None, 0) # fs \<Longrightarrow>
     \<exists>st'. warn_all ws st = Inr st' \<and> stderr_warnings st' = stderr_warnings st \<and> filters st' = filters st"
proof -
  assume f: "filters st = (Ignore, None, Warning, None, 0) # fs"
  have "list_all (\<lambda>w. case w of WarningMsg c t m n \<Rightarrow> get_action (filters st) t c m n = Ignore) ws"
    by (simp add: f list_all_iff split: warning_msg.split)
  from warn_all_ignored [OF this] show ?thesis by auto
qed


lemma get_action_cases: "get_action fl t c m n \<in> insert Default (fst ` set fl)"
  by (induction fl) auto

lemma warn_all_no_error:
  assumes "Error \<notin> fst ` set (filters st)"
  shows "\<exists>st'. warn_all ws st = Inr st' \<and> filters st' = filters st"
  using assms
proof (induction ws arbitrary: st)
  case (Cons w ws)
  obtain c t m n where w: "w = WarningMsg c t m n" by (cases w)
  have "get_action (filters st) t c m n \<noteq> Error"
    using get_action_cases [of "filters st" t c m n] Cons.prems by (force simp: image_iff)
  then have "\<exists>st1. warn_explicit w st = Inr st1"
    by (cases "get_action (filters st) t c m n") (simp_all add: warn_explicit_def w Let_def)
  then obtain st1 where "warn_explicit w st = Inr st1" by blast
  moreover from this have "filters st1 = filters st" by (simp add: warn_explicit_filters)
  ultimately show ?case using Cons.IH [of st1] Cons.prems by auto
qed simp

section \<open>Lemmas: the default filters\<close>

lemma default_action:
  "get_action default_filters t c m n = (if default_visible (WarningMsg c t m n) then Default else Ignore)"
  by (cases c) (auto simp: default_filters_def issubclass_def)

lemma seen_set_registry:
  "seen (set_registry m r st) (WarningMsg c t m' n) =
     (if m' = m then reg_version r = filters_version st \<and> LineKey t c n \<in> reg_keys r
      else seen st (WarningMsg c t m' n))"
  by (simp add: set_registry_def)

lemma seen_show_warning [simp]: "seen (show_warning w st) v = seen st v"
  by (cases v) (simp add: show_warning_def)

lemma stderr_show_warning [simp]: "stderr_warnings (show_warning w st) = stderr_warnings st @ [w]"
  and filters_show_warning [simp]: "filters (show_warning w st) = filters st"
  by (simp_all add: show_warning_def)

lemma stderr_set_registry [simp]: "stderr_warnings (set_registry m r st) = stderr_warnings st"
  and filters_set_registry [simp]: "filters (set_registry m r st) = filters st"
  and version_set_registry [simp]: "filters_version (set_registry m r st) = filters_version st"
  by (simp_all add: set_registry_def)

lemma warn_default_step:
  assumes f: "filters st = default_filters" and j: "\<forall>v. seen st v \<longleftrightarrow> v \<in> set (stderr_warnings st)"
  shows "\<exists>st'. warn_explicit w st = Inr st' \<and> filters st' = default_filters \<and>
           (\<forall>v. seen st' v \<longleftrightarrow> v \<in> set (stderr_warnings st')) \<and>
           stderr_warnings st' = stderr_warnings st @
             (if default_visible w \<and> w \<notin> set (stderr_warnings st) then [w] else [])"
proof -
  obtain c t m n where w: "w = WarningMsg c t m n" by (cases w)
  define r where "r = (if reg_version (registries st m) \<noteq> filters_version st
                       then \<lparr>reg_version = filters_version st, reg_keys = {}\<rparr> else registries st m)"
  have ver: "reg_version r = filters_version st" by (simp add: r_def)
  have keys: "LineKey t' c' n' \<in> reg_keys r \<longleftrightarrow> seen st (WarningMsg c' t' m n')" for t' c' n'
    by (auto simp: r_def)
  have act: "get_action (filters st) t c m n = (if default_visible w then Default else Ignore)"
    using f w default_action by simp
  have we: "warn_explicit w st =
     (if LineKey t c n \<in> reg_keys r then Inr (set_registry m r st)
      else if default_visible w
      then Inr (show_warning w (set_registry m (r\<lparr>reg_keys := insert (LineKey t c n) (reg_keys r)\<rparr>) st))
      else Inr (set_registry m r st))"
    unfolding warn_explicit_def w Let_def r_def [symmetric] warning_msg.case
    using act [unfolded w] by (simp del: default_visible.simps)
  have other: "seen (set_registry m r' st) v \<longleftrightarrow> seen st v"
    if "reg_version r' = filters_version st"
       "\<And>t' c' n'. LineKey t' c' n' \<in> reg_keys r' \<longleftrightarrow> seen st (WarningMsg c' t' m n')" for r' v
    using that by (cases v) (simp only: seen_set_registry split: if_split, auto)
  show ?thesis
  proof (cases "seen st w")
    case True
    then have "LineKey t c n \<in> reg_keys r" using keys w by simp
    moreover have "w \<in> set (stderr_warnings st)" using j True by blast
    ultimately show ?thesis using we f j other [OF ver keys] by auto
  next
    case False
    then have nk: "LineKey t c n \<notin> reg_keys r" using keys w by simp
    have nin: "w \<notin> set (stderr_warnings st)" using j False by blast
    show ?thesis
    proof (cases "default_visible w")
      case True
      define st' where "st' = show_warning w (set_registry m (r\<lparr>reg_keys := insert (LineKey t c n) (reg_keys r)\<rparr>) st)"
      have eq: "seen st' v \<longleftrightarrow> v = w \<or> seen st v" for v
        using ver keys unfolding st'_def seen_show_warning
        by (cases v) (simp only: seen_set_registry split: if_split, auto simp: w)
      have "warn_explicit w st = Inr st'" using we nk True by (simp add: st'_def)
      moreover have "filters st' = default_filters" using f by (simp add: st'_def)
      moreover have "\<forall>v. seen st' v \<longleftrightarrow> v \<in> set (stderr_warnings st')"
        using eq j by (simp add: st'_def)
      moreover have "stderr_warnings st' = stderr_warnings st @ [w]" by (simp add: st'_def)
      ultimately show ?thesis using True nin by simp
    next
      case False
      with we nk f j other [OF ver keys] show ?thesis by auto
    qed
  qed
qed

lemma rev_remdups_snoc:
  "rev (remdups (rev (xs @ [x]))) = rev (remdups (rev xs)) @ (if x \<in> set xs then [] else [x])"
  by simp

lemma warn_all_default:
  "\<exists>st'. warn_all ws init_warnings = Inr st' \<and> filters st' = default_filters \<and>
     (\<forall>v. seen st' v \<longleftrightarrow> v \<in> set (stderr_warnings st')) \<and>
     stderr_warnings st' = rev (remdups (rev (filter default_visible ws)))"
proof (induction ws rule: rev_induct)
  case Nil
  have "seen init_warnings v = False" for v
    by (cases v) (simp add: init_warnings_def empty_registry_def)
  then show ?case by (simp add: init_warnings_def)
next
  case (snoc w ws)
  then obtain st where st: "warn_all ws init_warnings = Inr st" "filters st = default_filters"
    "\<forall>v. seen st v \<longleftrightarrow> v \<in> set (stderr_warnings st)"
    "stderr_warnings st = rev (remdups (rev (filter default_visible ws)))"
    by blast
  obtain st' where st': "warn_explicit w st = Inr st'" "filters st' = default_filters"
    "\<forall>v. seen st' v \<longleftrightarrow> v \<in> set (stderr_warnings st')"
    "stderr_warnings st' = stderr_warnings st @
       (if default_visible w \<and> w \<notin> set (stderr_warnings st) then [w] else [])"
    using warn_default_step [OF st(2,3), of w] by blast
  have "warn_all (ws @ [w]) init_warnings = Inr st'"
    using st(1) st'(1) by (simp add: warn_all_append)
  moreover have "stderr_warnings st' = rev (remdups (rev (filter default_visible (ws @ [w]))))"
    using st'(4) st(4) by simp
  ultimately show ?case using st'(2,3) by blast
qed


lemma get_action_remove1:
  "\<not> filter_matches f t c m n \<Longrightarrow> get_action (remove1 f fs) t c m n = get_action fs t c m n"
  by (induction fs) auto

lemma get_action_snoc:
  "\<not> filter_matches f t c m n \<Longrightarrow> get_action (fs @ [f]) t c m n = get_action fs t c m n"
  by (induction fs) auto

lemma get_action_add_filter:
  "\<not> filter_matches f t c m n \<Longrightarrow>
     get_action (filters (add_filter f app st)) t c m n = get_action (filters st) t c m n"
  by (simp add: add_filter_def get_action_remove1 get_action_snoc)

lemma warn_after_change:
  assumes "default_visible (WarningMsg c t m n)" and "\<not> filter_matches f t c m n"
  shows "\<exists>st1 st2. warn_all [WarningMsg c t m n] init_warnings = Inr st1 \<and>
           warn_all [WarningMsg c t m n] (add_filter f app st1) = Inr st2 \<and>
           stderr_warnings st2 = [WarningMsg c t m n, WarningMsg c t m n]"
proof -
  have a0: "get_action default_filters t c m n = Default" using assms(1) by (simp add: default_action)
  define st1 where "st1 = show_warning (WarningMsg c t m n)
      (set_registry m \<lparr>reg_version = 1, reg_keys = {LineKey t c n}\<rparr> init_warnings)"
  have w1: "warn_all [WarningMsg c t m n] init_warnings = Inr st1"
    using a0 by (simp add: st1_def warn_explicit_def init_warnings_def empty_registry_def)
  have f1: "filters st1 = default_filters" "filters_version st1 = 1"
    "registries st1 m = \<lparr>reg_version = 1, reg_keys = {LineKey t c n}\<rparr>"
    "stderr_warnings st1 = [WarningMsg c t m n]"
    by (simp_all add: st1_def init_warnings_def set_registry_def show_warning_def)
  have a1: "get_action (filters (add_filter f app st1)) t c m n = Default"
    using get_action_add_filter [OF assms(2)] a0 f1(1) by simp
  have v: "filters_version (add_filter f app st1) = 2" and
    r: "registries (add_filter f app st1) m = \<lparr>reg_version = 1, reg_keys = {LineKey t c n}\<rparr>" and
    e: "stderr_warnings (add_filter f app st1) = [WarningMsg c t m n]"
    using f1 by (simp_all add: add_filter_def)
  have "\<exists>st2. warn_all [WarningMsg c t m n] (add_filter f app st1) = Inr st2 \<and>
          stderr_warnings st2 = [WarningMsg c t m n, WarningMsg c t m n]"
    using a1 v r e by (simp add: warn_explicit_def Let_def)
  with w1 show ?thesis by blast
qed

section \<open>Properties of the warnings module\<close>

text \<open>
  C35. \<open>filterwarnings\<close> keeps the filter list free of duplicates (\<open>_add_filter\<close>
  removes an equal filter before inserting it in front, and appends only a new one), adds
  exactly its filter, bumps \<open>_filters_version\<close>, and, inserting in front, takes precedence
  over every older filter for the warnings it matches.
\<close>

theorem filterwarnings_invariant:
  assumes "distinct (filters st)"
  shows "distinct (filters (filterwarnings a msg c m lno app st)) \<and>
         set (filters (filterwarnings a msg c m lno app st)) =
           insert (compile_filter a msg c m lno) (set (filters st)) \<and>
         filters_version (filterwarnings a msg c m lno app st) = Suc (filters_version st) \<and>
         (filter_matches (compile_filter a msg c m lno) t c' m' n \<longrightarrow>
            get_action (filters (filterwarnings a msg c m lno False st)) t c' m' n = a)"
  using add_filter_filters [OF assms] add_filter_first [of "compile_filter a msg c m lno"]
  by (simp add: filterwarnings_def add_filter_def compile_filter_def)

text \<open>
  C36. What Python shows when nothing changes the filters: under CPython's initial
  filters the warnings written to \<open>stderr\<close> are exactly the default-visible ones, each
  location (category, text, module, line) once, in the order first issued; and every
  change of the filters clears the registries, so a location already shown is shown again
  even when the new filter does not apply to it.
\<close>

theorem default_filters_shown:
  "(\<exists>st'. warn_all ws (python_startup []) = Inr st' \<and>
          stderr_warnings st' = rev (remdups (rev (filter default_visible ws)))) \<and>
   (default_visible (WarningMsg c t m n) \<and> \<not> filter_matches f t c m n \<longrightarrow>
      (\<exists>st1 st2. warn_all [WarningMsg c t m n] (python_startup []) = Inr st1 \<and>
         warn_all [WarningMsg c t m n] (add_filter f app st1) = Inr st2 \<and>
         stderr_warnings st2 = [WarningMsg c t m n, WarningMsg c t m n]))"
  using warn_all_default [of ws] warn_after_change [of c t m n f app]
  by (auto simp: python_startup_def)

end
