(* ===== verification/Module.thy ===== *)
theory Module
  imports Script Warnings
begin

text \<open>
  The whole module src/house_prices_eda.py as the interpreter runs it: the imports of
  lines 1--8, each binding a name or raising \<open>ModuleNotFoundError\<close>, and running the code
  of the package it loads (which may issue warnings); \<open>warnings.filterwarnings('ignore')\<close>
  of line 9; then the statements of Script, each issuing the warnings its library calls
  issue before it completes or raises. \<open>module_state\<close> holds the names lines 1--8 bound,
  the \<open>warnings\<close> module's state and the script's variables. Which packages are installed,
  which warnings the libraries issue and the \<open>-W\<close> options of the command line are
  parameters: the theorems hold for every choice.
\<close>

section \<open>The imports of lines 1--8\<close>

datatype import_stmt =
    ImportAs string string      \<comment> \<open>\<open>import m as name\<close>\<close>
  | FromImport string string    \<comment> \<open>\<open>from m import name\<close>\<close>

fun import_module :: "import_stmt \<Rightarrow> string" where
  "import_module (ImportAs m x) = m"
| "import_module (FromImport m x) = m"

fun import_binds :: "import_stmt \<Rightarrow> string" where
  "import_binds (ImportAs m x) = x"
| "import_binds (FromImport m x) = x"

text \<open>The top-level package, the one \<open>ModuleNotFoundError\<close> names when it is missing.\<close>

definition top_package :: "string \<Rightarrow> string" where
  "top_package m = takeWhile (\<lambda>c. c \<noteq> CHR ''.'') m"

definition import_lines :: "(nat \<times> import_stmt) list" where
  "import_lines =
     [(1, ImportAs ''pandas'' ''pd''), (2, ImportAs ''matplotlib.pyplot'' ''plt''),
      (3, ImportAs ''seaborn'' ''sns''), (4, ImportAs ''numpy'' ''np''),
      (5, FromImport ''scipy.stats'' ''norm''),
      (6, FromImport ''sklearn.preprocessing'' ''StandardScaler''),
      (7, FromImport ''scipy'' ''stats''), (8, ImportAs ''warnings'' ''warnings'')]"

record module_state =
  mod_names :: "string list"
  mod_warnings :: warnings_state
  mod_script :: script_state

definition fresh_module :: "wfilter list \<Rightarrow> module_state" where
  "fresh_module opts = \<lparr>mod_names = [], mod_warnings = python_startup opts, mod_script = init_state\<rparr>"

text \<open>
  One import: a package that is not installed raises \<open>ModuleNotFoundError\<close>; otherwise
  the warnings its code issues (\<open>imp k\<close> for line \<open>k\<close>) go through the filters, then the
  name is bound.
\<close>

definition exec_import ::
  "string list \<Rightarrow> (nat \<Rightarrow> warning_msg list) \<Rightarrow> nat \<times> import_stmt \<Rightarrow> module_state \<Rightarrow> module_state result" where
  "exec_import inst imp ki ms =
     (case ki of (k, i) \<Rightarrow>
        if top_package (import_module i) \<notin> set inst
        then Inl (ModuleNotFoundError (top_package (import_module i)))
        else (case warn_all (imp k) (mod_warnings ms) of
                Inl e \<Rightarrow> Inl e
              | Inr ws \<Rightarrow> Inr (ms\<lparr>mod_names := import_binds i # mod_names ms, mod_warnings := ws\<rparr>)))"

fun run_imports ::
  "string list \<Rightarrow> (nat \<Rightarrow> warning_msg list) \<Rightarrow> (nat \<times> import_stmt) list \<Rightarrow> module_state \<Rightarrow> module_state result" where
  "run_imports inst imp [] ms = Inr ms"
| "run_imports inst imp (ki # kis) ms =
     (case exec_import inst imp ki ms of Inl e \<Rightarrow> Inl e | Inr ms' \<Rightarrow> run_imports inst imp kis ms')"

section \<open>Line 9 and the statements\<close>

definition line9 :: "module_state \<Rightarrow> module_state" where
  "line9 ms = ms\<lparr>mod_warnings := filterwarnings Ignore [] Warning [] 0 False (mod_warnings ms)\<rparr>"

definition exec_stmt ::
  "(string \<rightharpoonup> string) \<Rightarrow> (step \<Rightarrow> warning_msg list) \<Rightarrow> step \<Rightarrow> module_state \<Rightarrow> module_state result" where
  "exec_stmt fs lib st ms =
     (case warn_all (lib st) (mod_warnings ms) of
        Inl e \<Rightarrow> Inl e
      | Inr ws \<Rightarrow>
          (case exec_step fs st (mod_script ms) of
             Inl e \<Rightarrow> Inl e
           | Inr s \<Rightarrow> Inr (ms\<lparr>mod_warnings := ws, mod_script := s\<rparr>)))"

fun run_stmts ::
  "(string \<rightharpoonup> string) \<Rightarrow> (step \<Rightarrow> warning_msg list) \<Rightarrow> step list \<Rightarrow> module_state \<Rightarrow> module_state result" where
  "run_stmts fs lib [] ms = Inr ms"
| "run_stmts fs lib (st # sts) ms =
     (case exec_stmt fs lib st ms of Inl e \<Rightarrow> Inl e | Inr ms' \<Rightarrow> run_stmts fs lib sts ms')"

text \<open>
  The module from a fresh interpreter started with the \<open>-W\<close> options \<open>opts\<close>: lines 1--8,
  line 9, then the statements \<open>sts\<close> (\<open>shipped_steps\<close> as committed, \<open>eda_steps\<close> for
  the documented analysis).
\<close>

definition run_module ::
  "string list \<Rightarrow> (nat \<Rightarrow> warning_msg list) \<Rightarrow> (step \<Rightarrow> warning_msg list) \<Rightarrow>
   (string \<rightharpoonup> string) \<Rightarrow> wfilter list \<Rightarrow> step list \<Rightarrow> module_state result" where
  "run_module inst imp lib fs opts sts =
     (case run_imports inst imp import_lines (fresh_module opts) of
        Inl e \<Rightarrow> Inl e
      | Inr ms \<Rightarrow> run_stmts fs lib sts (line9 ms))"


section \<open>Lemmas\<close>

abbreviation ignore_all :: wfilter where
  "ignore_all \<equiv> (Ignore, None, Warning, None, 0)"

lemma line9_filters: "filters (mod_warnings (line9 ms)) = ignore_all # remove1 ignore_all (filters (mod_warnings ms))"
  and line9_stderr: "stderr_warnings (mod_warnings (line9 ms)) = stderr_warnings (mod_warnings ms)"
  and line9_script: "mod_script (line9 ms) = mod_script ms"
  by (simp_all add: line9_def filterwarnings_def compile_filter_def add_filter_def)

lemma run_stmts_silenced:
  assumes "filters (mod_warnings ms) = ignore_all # fl"
  shows "(case run_stmts fs lib sts ms of
            Inl e \<Rightarrow> run_steps fs sts (mod_script ms) = Inl e
          | Inr ms' \<Rightarrow> run_steps fs sts (mod_script ms) = Inr (mod_script ms') \<and>
              stderr_warnings (mod_warnings ms') = stderr_warnings (mod_warnings ms))"
  using assms
proof (induction sts arbitrary: ms)
  case (Cons st sts)
  obtain ws where ws: "warn_all (lib st) (mod_warnings ms) = Inr ws"
    "stderr_warnings ws = stderr_warnings (mod_warnings ms)" "filters ws = filters (mod_warnings ms)"
    using warn_all_ignore_all [OF Cons.prems] by blast
  show ?case
  proof (cases "exec_step fs st (mod_script ms)")
    case (Inl e)
    with ws show ?thesis by (simp add: exec_stmt_def)
  next
    case (Inr s)
    let ?ms = "ms\<lparr>mod_warnings := ws, mod_script := s\<rparr>"
    have "filters (mod_warnings ?ms) = ignore_all # fl" using ws(3) Cons.prems by simp
    from Cons.IH [OF this] Inr ws show ?thesis
      by (simp add: exec_stmt_def split: sum.splits)
  qed
qed simp

lemma run_imports_script:
  "run_imports inst imp kis ms = Inr ms' \<Longrightarrow> mod_script ms' = mod_script ms"
  by (induction kis arbitrary: ms)
     (auto simp: exec_import_def split: sum.splits if_splits prod.splits)

lemma run_imports_missing:
  assumes "find (\<lambda>(k, i). top_package (import_module i) \<notin> set inst) kis = Some (k, i)"
    and "Error \<notin> fst ` set (filters (mod_warnings ms))"
  shows "run_imports inst imp kis ms = Inl (ModuleNotFoundError (top_package (import_module i)))"
  using assms
proof (induction kis arbitrary: ms)
  case (Cons ki kis)
  obtain k' i' where ki: "ki = (k', i')" by (cases ki)
  show ?case
  proof (cases "top_package (import_module i') \<in> set inst")
    case True
    obtain ws where "warn_all (imp k') (mod_warnings ms) = Inr ws" "filters ws = filters (mod_warnings ms)"
      using warn_all_no_error [OF Cons.prems(2)] by blast
    with True Cons.IH [of "ms\<lparr>mod_names := import_binds i' # mod_names ms, mod_warnings := ws\<rparr>"]
      Cons.prems ki show ?thesis
      by (simp add: exec_import_def)
  next
    case False
    with Cons.prems(1) ki show ?thesis by (simp add: exec_import_def)
  qed
qed simp


abbreviation error_all :: wfilter where
  "error_all \<equiv> (Error, None, Warning, None, 0)"

lemma compile_error_all: "compile_filter Error [] Warning [] 0 = error_all"
  by (simp add: compile_filter_def)

lemma run_imports_warning_raised:
  assumes "j \<in> set (map fst kis)" and "list_all (\<lambda>(k, i). top_package (import_module i) \<in> set inst) kis"
    and "filters (mod_warnings ms) = error_all # fl"
    and "registries (mod_warnings ms) = (\<lambda>m. empty_registry)" and "0 < filters_version (mod_warnings ms)"
  shows "run_imports inst (\<lambda>k. if k = j then [WarningMsg c t m n] else []) kis ms = Inl (WarningRaised c t)"
  using assms
proof (induction kis arbitrary: ms)
  case (Cons ki kis)
  obtain k i where ki: "ki = (k, i)" by (cases ki)
  show ?case
  proof (cases "k = j")
    case True
    with Cons.prems ki show ?thesis
      by (simp add: exec_import_def warn_explicit_def empty_registry_def Let_def set_registry_def)
  next
    case False
    with Cons.prems ki have "j \<in> set (map fst kis)" by auto
    from Cons.IH [OF this] Cons.prems ki False show ?thesis by (simp add: exec_import_def)
  qed
qed simp

lemma module_refines_aux:
  "map_sum id mod_script (run_module inst imp lib fs opts sts) =
     (case run_imports inst imp import_lines (fresh_module opts) of
        Inl e \<Rightarrow> Inl e | Inr ms \<Rightarrow> run_steps fs sts init_state) \<and>
   (run_imports inst imp import_lines (fresh_module opts) = Inr ms \<and>
    run_module inst imp lib fs opts sts = Inr ms' \<longrightarrow>
      stderr_warnings (mod_warnings ms') = stderr_warnings (mod_warnings ms))"
proof (cases "run_imports inst imp import_lines (fresh_module opts)")
  case (Inl e)
  then show ?thesis by (simp add: run_module_def)
next
  case (Inr ms0)
  have sc: "mod_script (line9 ms0) = init_state"
    using run_imports_script [OF Inr] by (simp add: line9_script fresh_module_def)
  have r: "case run_stmts fs lib sts (line9 ms0) of
             Inl e \<Rightarrow> run_steps fs sts (mod_script (line9 ms0)) = Inl e
           | Inr ms' \<Rightarrow> run_steps fs sts (mod_script (line9 ms0)) = Inr (mod_script ms') \<and>
               stderr_warnings (mod_warnings ms') = stderr_warnings (mod_warnings (line9 ms0))"
    by (rule run_stmts_silenced [OF line9_filters])
  with Inr sc show ?thesis
    by (auto simp: run_module_def line9_stderr split: sum.splits)
qed

section \<open>Properties of the module\<close>

text \<open>
  C33. Composition of the module: lines 1--9 followed by the statements refine the model
  of the statements alone. Whatever the command line's \<open>-W\<close> options and whatever
  warnings the libraries issue, once the imports succeed the script's variables and output
  are those of \<open>run_steps\<close> from the empty namespace, errors included, and nothing more is
  written to \<open>stderr\<close> after line 9: \<open>filterwarnings('ignore')\<close> puts a filter matching
  every warning in front of all others, so no warning is shown or raised.
\<close>

theorem module_refines_script:
  "map_sum id mod_script (run_module inst imp lib fs opts sts) =
     (case run_imports inst imp import_lines (fresh_module opts) of
        Inl e \<Rightarrow> Inl e | Inr ms \<Rightarrow> run_steps fs sts init_state) \<and>
   (run_imports inst imp import_lines (fresh_module opts) = Inr ms \<and>
    run_module inst imp lib fs opts sts = Inr ms' \<longrightarrow>
      stderr_warnings (mod_warnings ms') = stderr_warnings (mod_warnings ms))"
  by (rule module_refines_aux)

text \<open>
  C34. The errors of lines 1--8, raised before line 12 reads any file: without \<open>-W\<close>
  options the first import whose package is not installed stops the module with
  \<open>ModuleNotFoundError\<close> naming that package; and line 9 comes too late for the imports:
  started with \<open>-W error\<close>, a warning issued while lines 1--8 load a package is raised.
\<close>

theorem import_errors:
  "(find (\<lambda>(k, i). top_package (import_module i) \<notin> set inst) import_lines = Some (k, i) \<longrightarrow>
      run_module inst imp lib fs [] sts = Inl (ModuleNotFoundError (top_package (import_module i)))) \<and>
   (list_all (\<lambda>(k, i). top_package (import_module i) \<in> set inst) import_lines \<and>
    j \<in> set (map fst import_lines) \<longrightarrow>
      run_module inst (\<lambda>k. if k = j then [WarningMsg c t m n] else []) lib fs
        [compile_filter Error [] Warning [] 0] sts = Inl (WarningRaised c t))"
proof (intro conjI impI)
  assume "find (\<lambda>(k, i). top_package (import_module i) \<notin> set inst) import_lines = Some (k, i)"
  moreover have "Error \<notin> fst ` set (filters (mod_warnings (fresh_module [])))"
    by (auto simp: fresh_module_def python_startup_def init_warnings_def default_filters_def)
  ultimately show "run_module inst imp lib fs [] sts = Inl (ModuleNotFoundError (top_package (import_module i)))"
    by (simp add: run_module_def run_imports_missing)
next
  assume a: "list_all (\<lambda>(k, i). top_package (import_module i) \<in> set inst) import_lines \<and>
    j \<in> set (map fst import_lines)"
  have "filters (mod_warnings (fresh_module [compile_filter Error [] Warning [] 0])) = error_all # default_filters"
    "registries (mod_warnings (fresh_module [compile_filter Error [] Warning [] 0])) = (\<lambda>m. empty_registry)"
    "0 < filters_version (mod_warnings (fresh_module [compile_filter Error [] Warning [] 0]))"
    by (simp_all add: fresh_module_def python_startup_def init_warnings_def add_filter_def
        compile_error_all default_filters_def)
  with a show "run_module inst (\<lambda>k. if k = j then [WarningMsg c t m n] else []) lib fs
        [compile_filter Error [] Warning [] 0] sts = Inl (WarningRaised c t)"
    by (simp add: run_module_def run_imports_warning_raised)
qed

end
