(* ===== verification/Spec2Isabelle.thy ===== *)
theory Spec2Isabelle
  imports Module
begin

text \<open>
  A verification library for src/house_prices_eda.py, the exploratory analysis of the
  house-price table \<open>train.csv\<close>. As committed the module runs
  \<open>pd.read_csv('train.csv')\<close> (line 12) and nothing else; the analysis itself is written
  as commented-out statements meant to be run by hand: the columns and description of
  \<open>SalePrice\<close> (lines 14--15), its histogram (line 17) and skewness (line 28),
  scatter data and correlations of numeric features
  (lines 47--58), box plots over categories (lines 63--75), the correlation matrix and its
  heatmap (lines 97--100), the missing-data audit (lines 131--134) and the cleaning with
  its check (lines 164--166). Every one of these calls is modelled by the semantics of the
  pandas, numpy, seaborn or matplotlib code it runs, as executable HOL definitions; the
  statements form a program over the module's variables, and the module as a whole adds
  the imports of lines 1--8 and the warnings filter of line 9 in front of them.

  \<^bold>\<open>Theories.\<close>
  \<^item> \<open>Prelude\<close>: the Python exceptions the calls raise (\<open>py_error\<close>; a call that may
    raise returns \<open>py_error + 'a\<close>), the warning classes (\<open>category\<close>), NaN as \<open>None\<close> with \<open>dropna\<close> and
    \<open>count_none\<close>, and shared lemmas on lists and real sums (Cauchy--Schwarz on lists of
    pairs).
  \<^item> \<open>Frame\<close>: the \<open>DataFrame\<close> as a record of a row index and named typed columns
    (\<open>NumCol\<close> of reals, \<open>StrCol\<close> of strings), its invariant \<open>wf_frame\<close>, and the
    frame calls: \<open>df[name]\<close> (\<open>get_column\<close>), \<open>isnull().sum()\<close>,
    \<open>isnull().count()\<close>, \<open>drop(labels, 1)\<close> (\<open>drop_columns\<close>), \<open>drop(labels)\<close>
    (\<open>drop_rows\<close>), \<open>loc[mask].index\<close> (\<open>null_labels\<close>), \<open>isnull().sum().max()\<close>
    (\<open>max_missing\<close>); each keeps \<open>wf_frame\<close>.
  \<^item> \<open>Missing\<close>: the audit table of lines 131--134 (\<open>total_series\<close>, \<open>percent\<close>,
    \<open>missing_data\<close>, \<open>missing_head\<close>, pandas' \<open>nargsort\<close> as \<open>nargsort_desc\<close>) and
    the cleaning of lines 164--165 (\<open>high_missing\<close>, \<open>clean\<close>): C1--C10.
  \<^item> \<open>Csv\<close>: the field-level parts of \<open>pd.read_csv\<close> with pandas 1.x defaults: the
    number syntax of the C parser (\<open>parse_num\<close>), NA tokens, numeric-or-object inference
    (\<open>infer_column\<close>), \<open>Unnamed: i\<close> and the mangling of duplicate names, and the
    line-based reading of a file (\<open>numbered_lines\<close>, \<open>split_on\<close>) used as a reference.
    The mangling loop is modelled twice: \<open>mangle\<close>, a \<open>function\<close> with a termination proof
    (the measure is the longest counted name plus one minus the length of the current name,
    which every round lengthens), and \<open>mangle_while\<close>, the \<open>while\<close> loop as written as a
    \<open>partial_function (option)\<close>; C18 proves the latter always returns the former's result.
  \<^item> \<open>Tokenizer\<close>: pandas' C tokenizer (\<open>tokenizer.c\<close>) as a state machine over the
    characters of the file: \<open>tok_state\<close> holds the states of \<open>tokenize_bytes\<close>,
    \<open>tokenizer\<close> the parser fields it uses, \<open>tok_step\<close> one character (\<open>start_record\<close>,
    \<open>start_field\<close>, \<open>in_field\<close> and the quoted, carriage-return and white-space states),
    \<open>end_field\<close>, \<open>end_line\<close> (width check against the previous record, padding of
    short records) and \<open>tok_eof\<close> (\<open>parser_handle_eof\<close>); \<open>tokenize\<close> runs it over the
    file after \<open>CHECK_FOR_BOM\<close>. C14--C17: on files without quotes, with Unix or
    Windows (CR LF) line ends, it refines the line-based reading of Csv, quoted fields
    round-trip, an open quote at the end raises
    \<open>ParserError\<close>, and the records always have the shape \<open>end_line\<close> enforces.
  \<^item> \<open>Read_Csv\<close>: \<open>read_csv\<close> itself: file lookup (\<open>FileNotFoundError\<close>), the tokenizer,
    \<open>EmptyDataError\<close>, the header, object columns for a header without rows, the implicit
    index (where the model stops with \<open>ImplicitIndex\<close>), and the frame with a
    \<open>RangeIndex\<close>: C11--C13.
  \<^item> \<open>Stats\<close>: \<open>describe()\<close> (count, mean, std with \<open>ddof=1\<close>, min, linear-interpolation
    quartiles, max), \<open>skew()\<close> as pandas' \<open>nanskew\<close> (adjusted Fisher--Pearson
    coefficient, NaN below three values, 0 when \<open>m2 = 0\<close>, the \<open>1e-14\<close> cutoff of
    \<open>_zero_out_fperr\<close>): C19--C20.
  \<^item> \<open>Corr\<close>: \<open>Series.corr\<close> (numpy's \<open>corrcoef\<close> on the pairwise-complete rows,
    clipped) and \<open>DataFrame.corr\<close> (\<open>libalgos.nancorr\<close> on the numeric columns, the loop
    filling both triangles): C21--C24, among them that the two code paths agree and that
    the clipping never acts.
  \<^item> \<open>Plot\<close>: the data the plots compute before drawing: \<open>pd.concat\<close> of two columns, the
    scatter points, seaborn's box-plot categories and matplotlib's \<open>boxplot_stats\<close>
    (\<open>whis=1.5\<close>), the heatmap's \<open>Normalize\<close> and 256-colour lookup with its
    \<open>ValueError\<close>, the histogram of \<open>distplot\<close> (Freedman--Diaconis bins capped at 50,
    \<open>np.histogram\<close>, density) and its density curve (seaborn 0.11's \<open>KDE\<close>: skipped
    with a \<open>UserWarning\<close> when the variance is 0 or NaN, else scipy's \<open>gaussian_kde\<close>
    with Scott's factor on \<open>np.linspace(min - 3 bw, max + 3 bw, 200)\<close>): C25--C28.
  \<^item> \<open>Script\<close>: the module as a program. \<open>step\<close> has one constructor per statement,
    \<open>exec_step\<close> runs one over the state \<open>script_state\<close> (the variables \<open>df_train\<close> and
    \<open>missing_data\<close> that later lines read, and the values shown), raising \<open>NameError\<close> for
    a variable not yet assigned; \<open>run_steps\<close> runs a list and stops at the first
    exception. \<open>shipped_steps\<close> is the committed module, \<open>eda_steps\<close> the documented
    analysis uncommented, \<open>eda_script\<close> its run. \<open>step_reads\<close> and \<open>step_assigns\<close>
    list the variables each statement reads and assigns; \<open>scope_ok\<close> checks statically
    that every read follows an assignment. C29--C32: the state invariant, scope soundness
    (a sequence that passes the check never raises \<open>NameError\<close>), the order of audit and
    cleaning, the error for a missing target, and that the run completes, showing the
    check of line 166 on the cleaned frame.
  \<^item> \<open>Warnings\<close>: Python's \<open>warnings\<close> module as \<open>Lib/warnings.py\<close> writes it: the
    filter list searched first match first (\<open>get_action\<close>), \<open>filterwarnings\<close> and
    \<open>_add_filter\<close> (\<open>add_filter\<close>), \<open>_filters_version\<close>, the per-module
    \<open>__warningregistry__\<close> and \<open>onceregistry\<close>, \<open>warn_explicit\<close> with its six actions,
    and the interpreter's start (\<open>python_startup\<close>: CPython's initial filters with the
    \<open>-W\<close> options in front). C35: \<open>filterwarnings\<close> keeps the list free of duplicates
    and its filter takes precedence; C36: under the initial filters exactly the
    default-visible warnings are shown, each location once, and a filter change resets that.
  \<^item> \<open>Module\<close>: the whole module: the imports of lines 1--8 (\<open>import_lines\<close>,
    \<open>exec_import\<close>: \<open>ModuleNotFoundError\<close> for a package that is not installed,
    otherwise the warnings the package's code issues, then the name bound), line 9
    (\<open>line9\<close>), and the statements of Script each issuing its libraries' warnings
    (\<open>exec_stmt\<close>); \<open>run_module\<close> runs it from a fresh interpreter. Installed packages,
    the warnings libraries issue and the \<open>-W\<close> options are parameters. C33: the module
    refines \<open>run_steps\<close> and shows nothing on \<open>stderr\<close> after line 9; C34: the import
    errors, raised before any file is read, and import-time warnings that line 9 is too
    late to silence.

  This theory holds concrete frames and files and the witnesses: each theorem with a
  hypothesis is applied at a concrete input there, its hypotheses discharged by \<open>simp\<close>.

  \<^bold>\<open>Modelling choices.\<close> float64 values are exact reals: rounding is not modelled, so
  statements about computed statistics hold of the exact values (the \<open>1e-14\<close> cutoff of
  \<open>nanskew\<close> is modelled because it changes results, C19). \<open>sort_values\<close> is pandas'
  \<open>nargsort\<close>, whose argsort (numpy's \<open>kind='quicksort'\<close>) is not stable: the
  model sorts stably, which fixes one of the orders the code may give columns with equal
  NaN counts; C8 and C9 hold for every such order, and no theorem states the order of
  ties. pandas behaviour is that of
  the 1.x series the script was written for (\<open>DataFrame.corr\<close> skips object columns;
  \<open>drop(labels, 1)\<close> takes the axis positionally; \<open>read_csv\<close> with the C engine and
  its defaults). Files are strings of 8-bit characters, read whole: the C tokenizer reads
  them in chunks but keeps its state from one chunk to the next. No loop needs fuel:
  the tokenizer consumes one character per step (structural recursion on the file), and
  the only loop that is not structural recursion is the name mangling, whose termination
  is proved.

  \<^bold>\<open>Not modelled.\<close> The drawing itself (figure sizes, axis limits, tick rotation,
  colours beyond their index, \<open>plt.show\<close>);
  \<open>top\<close> and \<open>freq\<close> of \<open>describe()\<close> on an object column (ties make them depend on hash
  order); in \<open>read_csv\<close>: date, boolean and \<open>inf\<close> inference, the dtype of a column
  split across \<open>low_memory\<close> chunks (files with more than about \<open>2\<^sup>2\<^sup>0\<close> divided
  by the width rows), the frame read with an implicit index (the model stops with
  \<open>ImplicitIndex\<close>, as its frames have a \<open>RangeIndex\<close>), and the tokenizer's
  backtracking over a white-space line right after a lone CR line end, which re-reads
  the previous line in the C code and only the white space here. For the module: which
  warnings each library version issues and where its \<open>stacklevel\<close> attributes them
  (a parameter of the theorems, which hold for every choice); regular-expression
  metacharacters in a filter's message or module pattern (patterns are taken literally,
  which the one filter of the script, with empty patterns, does not use);
  \<open>showwarning\<close>'s text formatting; an import that fails inside a package because
  one of that package's own dependencies is missing (the error then names the dependency);
  a library that changes the warnings filters itself after line 9 (the statements of
  Script issue warnings but never call \<open>filterwarnings\<close>); the C accelerator
  \<open>_warnings\<close>, which replaces \<open>Lib/warnings.py\<close> in CPython and keeps the
  \<open>once\<close> registry in the interpreter state (the script's filters use no \<open>once\<close>
  action). The skewness convention of the docstring (lines 30--34) is prose that no
  statement applies, so it is not modelled. Which exception \<open>data.plot.scatter\<close>
  raises for an object column differs between pandas 1.x releases; \<open>scatter_points\<close>
  raises \<open>KeyError\<close>, and the theorems use only that it is not a \<open>NameError\<close>.
\<close>

abbreviation one_nan_frame :: frame where
  "one_nan_frame \<equiv>
     \<lparr>index = [0, 1, 2],
      columns = [(''LotFrontage'', NumCol [Some 65, None, Some 68]),
                 (''Electrical'', StrCol [Some ''SBrkr'', Some ''FuseA'', None])]\<rparr>"

abbreviation one_nan_cleaned :: frame where
  "one_nan_cleaned \<equiv>
     \<lparr>index = [0, 1],
      columns = [(''LotFrontage'', NumCol [Some 65, None]),
                 (''Electrical'', StrCol [Some ''SBrkr'', Some ''FuseA''])]\<rparr>"

abbreviation two_nan_frame :: frame where
  "two_nan_frame \<equiv>
     \<lparr>index = [0, 1, 2],
      columns = [(''Id'', NumCol [Some 1, Some 2, Some 3]),
                 (''Electrical'', StrCol [None, Some ''FuseA'', None])]\<rparr>"

abbreviation electrical_frame :: frame where
  "electrical_frame \<equiv>
     \<lparr>index = [0, 1, 2],
      columns = [(''Id'', NumCol [Some 1, Some 2, Some 3]),
                 (''PoolQC'', StrCol [None, None, Some ''Gd'']),
                 (''Electrical'', StrCol [Some ''SBrkr'', None, Some ''FuseA''])]\<rparr>"

abbreviation electrical_only_frame :: frame where
  "electrical_only_frame \<equiv>
     \<lparr>index = [0, 1, 2],
      columns = [(''Id'', NumCol [Some 1, Some 2, Some 3]),
                 (''Electrical'', StrCol [Some ''SBrkr'', None, Some ''FuseA''])]\<rparr>"

abbreviation corr_frame :: frame where
  "corr_frame \<equiv>
     \<lparr>index = [0, 1, 2],
      columns = [(''SalePrice'', NumCol [Some 1, Some 2, Some 4]),
                 (''Street'', StrCol [Some ''Pave'', Some ''Grvl'', Some ''Pave'']),
                 (''GrLivArea'', NumCol [Some 3, None, Some 5])]\<rparr>"

abbreviation heat_matrix :: corr_matrix where
  "heat_matrix \<equiv> \<lparr>labels = [''SalePrice'', ''GrLivArea''], cells = [[Some 1, Some 0], [Some 0, Some 1]]\<rparr>"

abbreviation no_target_fs :: "string \<rightharpoonup> string" where
  "no_target_fs \<equiv> [''train.csv'' \<mapsto> ''Id,Price\<newline>1,2\<newline>'']"

abbreviation study_fs :: "string \<rightharpoonup> string" where
  "study_fs \<equiv> [''train.csv'' \<mapsto>
     ''SalePrice,GrLivArea,TotalBsmtSF,OverallQual,YearBuilt,Electrical\<newline>5,5,5,5,5,SBrkr\<newline>5,5,5,5,5,FuseA\<newline>'']"

abbreviation study_frame :: frame where
  "study_frame \<equiv>
     \<lparr>index = [0, 1],
      columns = [(''SalePrice'', NumCol [Some 5, Some 5]), (''GrLivArea'', NumCol [Some 5, Some 5]),
                 (''TotalBsmtSF'', NumCol [Some 5, Some 5]), (''OverallQual'', NumCol [Some 5, Some 5]),
                 (''YearBuilt'', NumCol [Some 5, Some 5]),
                 (''Electrical'', StrCol [Some ''SBrkr'', Some ''FuseA''])]\<rparr>"

section \<open>Witnesses of the cleaning theorems\<close>

lemma wf_one_nan_frame: "wf_frame one_nan_frame"
  by (simp add: wf_frame_def col_names_def)

lemma wf_two_nan_frame: "wf_frame two_nan_frame"
  by (simp add: wf_frame_def col_names_def)

lemma wf_electrical_frame: "wf_frame electrical_frame"
  by (simp add: wf_frame_def col_names_def)

lemma clean_one_nan_frame: "clean one_nan_frame = Inr one_nan_cleaned"
  by (subst clean_branches [OF wf_one_nan_frame]) simp

theorem clean_eq_witness:
  "wf_frame one_nan_frame \<and> clean one_nan_frame = Inr one_nan_cleaned"
  using clean_eq [OF wf_one_nan_frame] wf_one_nan_frame by simp

theorem clean_error_witness:
  "wf_frame two_nan_frame \<and> clean two_nan_frame = Inl (KeyError ''Electrical'')"
  using clean_error [OF wf_two_nan_frame, of "KeyError ''Electrical''"] wf_two_nan_frame
  by simp

theorem clean_at_most_one_nan_witness:
  "wf_frame one_nan_frame \<and> clean one_nan_frame = Inr one_nan_cleaned \<and>
   (''LotFrontage'', NumCol [Some 65, None]) \<in> set (columns one_nan_cleaned) \<and>
   col_nulls (NumCol [Some 65, None]) \<le> 1"
  using clean_at_most_one_nan [OF wf_one_nan_frame clean_one_nan_frame,
      of "''LotFrontage''" "NumCol [Some 65, None]"]
  using wf_one_nan_frame clean_one_nan_frame by simp

theorem clean_no_nan_left_witness:
  "wf_frame electrical_frame \<and>
   map (\<lambda>(n, c). (n, col_nulls c)) (columns electrical_frame) =
     [(''Id'', 0), (''PoolQC'', 2), (''Electrical'', 1)] \<and>
   clean electrical_frame =
     Inr \<lparr>index = [0, 2], columns = [(''Id'', NumCol [Some 1, Some 3]),
                                    (''Electrical'', StrCol [Some ''SBrkr'', Some ''FuseA''])]\<rparr> \<and>
   max_missing \<lparr>index = [0, 2], columns = [(''Id'', NumCol [Some 1, Some 3]),
                                    (''Electrical'', StrCol [Some ''SBrkr'', Some ''FuseA''])]\<rparr> = Some 0"
proof -
  have hyp: "\<forall>(n, c)\<in>set (columns electrical_frame). col_nulls c = 1 \<longrightarrow> n = ''Electrical''"
    by simp
  have cl: "clean electrical_frame =
     Inr \<lparr>index = [0, 2], columns = [(''Id'', NumCol [Some 1, Some 3]),
                                    (''Electrical'', StrCol [Some ''SBrkr'', Some ''FuseA''])]\<rparr>"
    by (subst clean_branches [OF wf_electrical_frame]) simp
  show ?thesis
    using clean_no_nan_left [OF wf_electrical_frame hyp cl] wf_electrical_frame cl by simp
qed

theorem clean_leaves_nan_witness:
  "wf_frame one_nan_frame \<and> clean one_nan_frame = Inr one_nan_cleaned \<and>
   (\<exists>c'. (''LotFrontage'', c') \<in> set (columns one_nan_cleaned) \<and> col_nulls c' = 1) \<and>
   max_missing one_nan_cleaned = Some 1"
proof -
  have hyps: "(''LotFrontage'', NumCol [Some 65, None, Some 68]) \<in> set (columns one_nan_frame)"
    "col_nulls (NumCol [Some 65, None, Some 68]) = 1"
    "map_of (columns one_nan_frame) ''Electrical'' = Some (StrCol [Some ''SBrkr'', Some ''FuseA'', None])"
    "list_all2 (\<lambda>a b. \<not> (a \<and> b)) (col_isnull (NumCol [Some 65, None, Some 68]))
       (col_isnull (StrCol [Some ''SBrkr'', Some ''FuseA'', None]))"
    by simp_all
  show ?thesis
    using clean_leaves_nan [OF wf_one_nan_frame clean_one_nan_frame hyps] wf_one_nan_frame
      clean_one_nan_frame by blast
qed

theorem clean_one_electrical_nan_witness:
  "wf_frame electrical_only_frame \<and>
   (\<exists>df'. clean electrical_only_frame = Inr df' \<and> col_names df' = [''Id'', ''Electrical''] \<and>
          length (index df') = 2 \<and> max_missing df' = Some 0)"
proof -
  have wf: "wf_frame electrical_only_frame"
    by (simp add: wf_frame_def col_names_def)
  have hyps: "map_of (columns electrical_only_frame) ''Electrical'' =
      Some (StrCol [Some ''SBrkr'', None, Some ''FuseA''])"
    "col_nulls (StrCol [Some ''SBrkr'', None, Some ''FuseA'']) = 1"
    "\<forall>(n, c)\<in>set (columns electrical_only_frame). n \<noteq> ''Electrical'' \<longrightarrow> col_nulls c = 0"
    by simp_all
  have names: "col_names electrical_only_frame = [''Id'', ''Electrical'']"
    by (simp add: col_names_def)
  obtain df' where "clean electrical_only_frame = Inr df'"
    and "col_names df' = col_names electrical_only_frame"
    and "length (index df') = length (index electrical_only_frame) - 1"
    and "max_missing df' = Some 0"
    using clean_one_electrical_nan [OF wf hyps] by blast
  with wf names show ?thesis by auto
qed

theorem clean_rows_witness:
  "wf_frame one_nan_frame \<and> clean one_nan_frame = Inr one_nan_cleaned \<and>
   length (index one_nan_cleaned) = 3 - 1"
  using clean_rows [OF wf_one_nan_frame clean_one_nan_frame]
  using wf_one_nan_frame clean_one_nan_frame by simp

theorem wf_clean_witness:
  "wf_frame one_nan_frame \<and> clean one_nan_frame = Inr one_nan_cleaned \<and> wf_frame one_nan_cleaned"
  using wf_clean [OF wf_one_nan_frame clean_one_nan_frame]
  using wf_one_nan_frame clean_one_nan_frame by simp

theorem missing_data_percent_witness:
  "wf_frame one_nan_frame \<and> (''LotFrontage'', 1, Some (1 / 3)) \<in> set (missing_data one_nan_frame)"
proof -
  have mem: "(''LotFrontage'', 1, Some (1 / 3)) \<in> set (missing_data one_nan_frame)"
    by (simp add: missing_data_def total_series_def percent_def null_share_def nargsort_desc_def
        isnull_sum_def isnull_count_def) (rule exI [where x = "1 / 3"], simp)
  show ?thesis
    using missing_data_percent [OF wf_one_nan_frame mem] mem wf_one_nan_frame by simp
qed

section \<open>Witnesses of the loading theorems\<close>

abbreviation train_fs :: "string \<rightharpoonup> string" where
  "train_fs \<equiv> [''train.csv'' \<mapsto> ''Id,SalePrice,Electrical\<newline>1,208500,SBrkr\<newline>2,181500,NA\<newline>'']"

theorem tokenize_plain_witness:
  "quotechar \<notin> set (''a,b'' @ carriage # ''\<newline>\<newline>1,2,3'' @ [carriage]) \<and>
   list_all (\<lambda>l. carriage \<notin> set (strip_cr l))
     (split_on lineterminator (''a,b'' @ carriage # ''\<newline>\<newline>1,2,3'' @ [carriage])) \<and>
   take 3 (''a,b'' @ carriage # ''\<newline>\<newline>1,2,3'' @ [carriage]) \<noteq> bom \<and>
   tokenize (''a,b'' @ carriage # ''\<newline>\<newline>1,2,3'' @ [carriage]) =
     Inr [[''a'', ''b''], [''1'', ''2'', ''3'']]"
proof -
  let ?s = "''a,b'' @ carriage # ''\<newline>\<newline>1,2,3'' @ [carriage]"
  have q: "quotechar \<notin> set ?s" by simp
  have c: "list_all (\<lambda>l. carriage \<notin> set (strip_cr l)) (split_on lineterminator ?s)"
    by (simp add: split_on_def strip_cr_def)
  have b: "take 3 ?s \<noteq> bom" by (simp add: bom_def)
  have n: "numbered_lines ?s = [(1, ''a,b''), (3, ''1,2,3'')]"
    by (simp add: numbered_lines_def split_on_def strip_cr_def is_blank_def)
  have r: "split_records [(1, ''a,b''), (3, ''1,2,3'')] [] = Inr [[''a'', ''b''], [''1'', ''2'', ''3'']]"
    by (simp add: end_line_def split_on_def)
  show ?thesis using tokenize_plain [OF q c [unfolded list_all_iff] b] q c b n r by simp
qed

theorem quoted_roundtrip_witness:
  "length [''a'', ''b,c''] = 2 \<and> length [[quotechar], ''x\<newline>y''] = 2 \<and> (0::nat) < 2 \<and>
   tokenize (write_rows [[''a'', ''b,c''], [[quotechar], ''x\<newline>y'']]) =
     Inr [[''a'', ''b,c''], [[quotechar], ''x\<newline>y'']]"
  using quoted_roundtrip [of "[[''a'', ''b,c''], [[quotechar], ''x\<newline>y'']]" 2] by simp

theorem unclosed_quote_error_witness:
  "length [''a'', ''b''] = 2 \<and> (0::nat) < 2 \<and> quotechar \<notin> set ''x,y'' \<and>
   tokenize (write_rows [[''a'', ''b'']] @ quotechar # ''x,y'') = Inl (ParserErrorEOF 1)"
  using unclosed_quote_error [of "[[''a'', ''b'']]" 2 "''x,y''"] by simp

theorem tokenize_records_ok_witness:
  "tokenize ''a,b\<newline>1,2,3\<newline>4\<newline>'' = Inr [[''a'', ''b''], [''1'', ''2'', ''3''], [''4'', [], []]] \<and>
   records_ok [[''a'', ''b''], [''1'', ''2'', ''3''], [''4'', [], []]]"
proof -
  have t: "tokenize ''a,b\<newline>1,2,3\<newline>4\<newline>'' = Inr [[''a'', ''b''], [''1'', ''2'', ''3''], [''4'', [], []]]"
    by (simp add: read_csv_eval)
  show ?thesis using tokenize_records_ok [OF t] t by simp
qed

theorem read_csv_frame_witness:
  "read_csv train_fs ''train.csv'' =
     Inr \<lparr>index = [0, 1], columns = [(''Id'', NumCol [Some 1, Some 2]),
            (''SalePrice'', NumCol [Some 208500, Some 181500]),
            (''Electrical'', StrCol [Some ''SBrkr'', None])]\<rparr> \<and>
   wf_frame \<lparr>index = [0, 1], columns = [(''Id'', NumCol [Some 1, Some 2]),
            (''SalePrice'', NumCol [Some 208500, Some 181500]),
            (''Electrical'', StrCol [Some ''SBrkr'', None])]\<rparr>"
proof -
  have r: "read_csv train_fs ''train.csv'' =
     Inr \<lparr>index = [0, 1], columns = [(''Id'', NumCol [Some 1, Some 2]),
            (''SalePrice'', NumCol [Some 208500, Some 181500]),
            (''Electrical'', StrCol [Some ''SBrkr'', None])]\<rparr>"
    by (simp add: read_csv_eval)
  show ?thesis using read_csv_frame [OF r] r by blast
qed

theorem read_csv_header_witness:
  "numbered_lines ''Id,SalePrice,Electrical\<newline>1,208500,SBrkr\<newline>2,181500,NA\<newline>'' =
     [(1, ''Id,SalePrice,Electrical''), (2, ''1,208500,SBrkr''), (3, ''2,181500,NA'')] \<and>
   (\<exists>df. read_csv train_fs ''train.csv'' = Inr df \<and>
        col_names df = [''Id'', ''SalePrice'', ''Electrical''] \<and> length (index df) = 2)"
proof -
  have nl: "numbered_lines ''Id,SalePrice,Electrical\<newline>1,208500,SBrkr\<newline>2,181500,NA\<newline>'' =
     [(1, ''Id,SalePrice,Electrical''), (2, ''1,208500,SBrkr''), (3, ''2,181500,NA'')]"
    by (simp add: numbered_lines_def split_on_def strip_cr_def is_blank_def)
  have h: "split_on delimiter ''Id,SalePrice,Electrical'' = [''Id'', ''SalePrice'', ''Electrical'']"
    by (simp add: split_on_def)
  have fit: "\<forall>(j, l)\<in>set [(2::nat, ''1,208500,SBrkr''), (3, ''2,181500,NA'')].
      length (split_on delimiter l) \<le> length (split_on delimiter ''Id,SalePrice,Electrical'')"
    by (simp add: split_on_def)
  have p: "list_all (\<lambda>c. c \<noteq> quotechar \<and> c \<noteq> carriage)
             ''Id,SalePrice,Electrical\<newline>1,208500,SBrkr\<newline>2,181500,NA\<newline>''"
    by simp
  have b: "take 3 ''Id,SalePrice,Electrical\<newline>1,208500,SBrkr\<newline>2,181500,NA\<newline>'' \<noteq> bom"
    by (simp add: bom_def)
  show ?thesis
    using read_csv_header [of train_fs "''train.csv''" _ 1 "''Id,SalePrice,Electrical''"
        "[(2, ''1,208500,SBrkr''), (3, ''2,181500,NA'')]"] nl h fit p b
    by (simp add: eval_nat_numeral)
qed

theorem read_csv_succeeds_iff_witness:
  "tokenize ''Id,SalePrice,Electrical\<newline>1,208500,SBrkr\<newline>2,181500,NA\<newline>'' =
     Inr [[''Id'', ''SalePrice'', ''Electrical''], [''1'', ''208500'', ''SBrkr''], [''2'', ''181500'', ''NA'']] \<and>
   (\<exists>df. read_csv train_fs ''train.csv'' = Inr df) \<and>
   read_csv [''bad.csv'' \<mapsto> ''a,b\<newline>1,2\<newline>1,2,3\<newline>''] ''bad.csv'' = Inl (ParserError 2 3 3) \<and>
   (\<exists>l. (3, l) \<in> set [(1::nat, ''a,b''), (2, ''1,2''), (3, ''1,2,3'')] \<and> length (split_on delimiter l) = 3)"
proof -
  have t: "tokenize ''Id,SalePrice,Electrical\<newline>1,208500,SBrkr\<newline>2,181500,NA\<newline>'' =
     Inr [[''Id'', ''SalePrice'', ''Electrical''], [''1'', ''208500'', ''SBrkr''], [''2'', ''181500'', ''NA'']]"
    by (simp add: read_csv_eval)
  have r: "read_csv [''bad.csv'' \<mapsto> ''a,b\<newline>1,2\<newline>1,2,3\<newline>''] ''bad.csv'' = Inl (ParserError 2 3 3)"
    by (simp add: read_csv_eval)
  have nl: "numbered_lines ''a,b\<newline>1,2\<newline>1,2,3\<newline>'' = [(1, ''a,b''), (2, ''1,2''), (3, ''1,2,3'')]"
    by (simp add: numbered_lines_def split_on_def strip_cr_def is_blank_def)
  have p: "list_all (\<lambda>c. c \<noteq> quotechar \<and> c \<noteq> carriage) ''a,b\<newline>1,2\<newline>1,2,3\<newline>''" by simp
  have b: "take 3 ''a,b\<newline>1,2\<newline>1,2,3\<newline>'' \<noteq> bom" by (simp add: bom_def)
  have d: "\<exists>df. read_csv train_fs ''train.csv'' = Inr df"
    using conjunct1 [OF read_csv_succeeds_iff [of train_fs "''train.csv''"]] t by auto
  have "\<exists>l. (3, l) \<in> set (numbered_lines ''a,b\<newline>1,2\<newline>1,2,3\<newline>'') \<and>
      3 = length (split_on delimiter l) \<and> 2 < (3::nat)"
  proof (rule mp [OF conjunct2 [OF read_csv_succeeds_iff [of "[''bad.csv'' \<mapsto> ''a,b\<newline>1,2\<newline>1,2,3\<newline>'']"
        "''bad.csv''" "''a,b\<newline>1,2\<newline>1,2,3\<newline>''" 2 3 3]]])
    show "[''bad.csv'' \<mapsto> ''a,b\<newline>1,2\<newline>1,2,3\<newline>''] ''bad.csv'' = Some ''a,b\<newline>1,2\<newline>1,2,3\<newline>'' \<and>
        list_all (\<lambda>c. c \<noteq> quotechar \<and> c \<noteq> carriage) ''a,b\<newline>1,2\<newline>1,2,3\<newline>'' \<and>
        take 3 ''a,b\<newline>1,2\<newline>1,2,3\<newline>'' \<noteq> bom \<and>
        read_csv [''bad.csv'' \<mapsto> ''a,b\<newline>1,2\<newline>1,2,3\<newline>''] ''bad.csv'' = Inl (ParserError 2 3 3)"
      using p b r by simp
  qed
  have e: "\<exists>l. (3, l) \<in> set [(1::nat, ''a,b''), (2, ''1,2''), (3, ''1,2,3'')] \<and> length (split_on delimiter l) = 3"
    by (rule exI [of _ "''1,2,3''"]) (simp add: split_on_def)
  show ?thesis using t d r e by blast
qed

section \<open>Witnesses of the statistics theorems\<close>

theorem skew_shift_reflect_witness:
  "mset (map (\<lambda>x. 2 * 2 - x) [1, 2, 3 :: real]) = mset [1, 2, 3] \<and> 3 \<le> length [1, 2, 3 :: real] \<and>
   series_skew (map Some [1, 2, 3 :: real]) = Some 0"
proof -
  have m: "mset (map (\<lambda>x. 2 * 2 - x) [1, 2, 3 :: real]) = mset [1, 2, 3]"
    by (simp add: add_mset_commute)
  show ?thesis using skew_shift_reflect [of 0 "[]" 2 "[1, 2, 3 :: real]"] m by simp
qed

theorem describe_ordered_witness:
  "dropna [Some 1, None, Some (3 :: real)] \<noteq> [] \<and>
   (\<exists>mn a b c mx m.
      d_min (describe [Some 1, None, Some 3]) = Some mn \<and> d_q25 (describe [Some 1, None, Some 3]) = Some a \<and>
      d_q50 (describe [Some 1, None, Some 3]) = Some b \<and> d_q75 (describe [Some 1, None, Some 3]) = Some c \<and>
      d_max (describe [Some 1, None, Some 3]) = Some mx \<and> d_mean (describe [Some 1, None, Some 3]) = Some m \<and>
      mn \<le> a \<and> a \<le> b \<and> b \<le> c \<and> c \<le> mx \<and> mn \<le> m \<and> m \<le> mx)"
  using describe_ordered [of "[Some 1, None, Some 3]"] by simp

section \<open>Witnesses of the correlation theorems\<close>

theorem corr_affine_witness:
  "(- 2 :: real) \<noteq> 0 \<and>
   series_corr [Some 1, Some 2, Some 4] (map (map_option (\<lambda>v. - 2 * v + 1)) [Some 1, None, Some 2]) =
   map_option (\<lambda>r. sgn (- 2) * r) (series_corr [Some 1, Some 2, Some 4] [Some 1, None, Some 2]) \<and>
   2 \<le> card (set [1, 2, 3 :: real]) \<and>
   series_corr (map Some [1, 2, 3]) (map (\<lambda>x. Some (- 2 * x + 1)) [1, 2, 3]) = Some (- 1)"
  using corr_affine [of "- 2" "[Some 1, Some 2, Some 4]" 1 "[Some 1, None, Some 2]" "[1, 2, 3]"] by simp

theorem frame_corr_cells_witness:
  "0 < length (labels (frame_corr corr_frame)) \<and> 1 < length (labels (frame_corr corr_frame)) \<and>
   labels (frame_corr corr_frame) = map fst (numeric_data (columns corr_frame)) \<and>
   length (cells (frame_corr corr_frame)) = length (labels (frame_corr corr_frame)) \<and>
   length (cells (frame_corr corr_frame) ! 0) = length (labels (frame_corr corr_frame)) \<and>
   cells (frame_corr corr_frame) ! 0 ! 1 =
     lib_corr (snd (numeric_data (columns corr_frame) ! 0)) (snd (numeric_data (columns corr_frame) ! 1)) \<and>
   cells (frame_corr corr_frame) ! 0 ! 1 = cells (frame_corr corr_frame) ! 1 ! 0"
proof -
  have h: "0 < length (labels (frame_corr corr_frame))" "1 < length (labels (frame_corr corr_frame))"
    by (simp_all add: frame_corr_labels)
  show ?thesis
    by (rule conjI [OF h(1) conjI [OF h(2) frame_corr_cells [OF h]]])
qed

theorem frame_corr_diag_bounds_witness:
  "0 < length (labels (frame_corr corr_frame)) \<and> 1 < length (labels (frame_corr corr_frame)) \<and>
   cells (frame_corr corr_frame) ! 0 ! 0 = Some 1"
proof -
  have h: "0 < length (labels (frame_corr corr_frame))" "1 < length (labels (frame_corr corr_frame))"
    by (simp_all add: frame_corr_labels)
  have d: "cells (frame_corr corr_frame) ! 0 ! 0 =
     (if 2 \<le> card (set (dropna (snd (numeric_data (columns corr_frame) ! 0)))) then Some 1 else None)"
    using frame_corr_diag_bounds [OF h] by (rule conjunct2)
  have "2 \<le> card (set (dropna (snd (numeric_data (columns corr_frame) ! 0))))"
    by simp
  with d h show ?thesis by simp
qed

section \<open>Witnesses of the plot theorems\<close>

theorem box_stats_fences_witness:
  "[1, 2, 3, 4, 100 :: real] \<noteq> [] \<and>
   b_whishi (box_stats [1, 2, 3, 4, 100]) \<le> Max (set [1, 2, 3, 4, 100 :: real]) \<and>
   b_fliers (box_stats [1, 2, 3, 4, 100]) =
     filter (\<lambda>x. x < b_q1 (box_stats [1, 2, 3, 4, 100]) -
                      3 / 2 * (b_q3 (box_stats [1, 2, 3, 4, 100]) - b_q1 (box_stats [1, 2, 3, 4, 100])))
       [1, 2, 3, 4, 100] @
     filter (\<lambda>x. b_q3 (box_stats [1, 2, 3, 4, 100]) +
                      3 / 2 * (b_q3 (box_stats [1, 2, 3, 4, 100]) - b_q1 (box_stats [1, 2, 3, 4, 100])) < x)
       [1, 2, 3, 4, 100]"
proof -
  have ne: "[1, 2, 3, 4, 100 :: real] \<noteq> []" by simp
  from box_stats_fences [OF ne] ne show ?thesis by blast
qed

lemma heat_matrix_colors: "heatmap_colors heat_matrix = Inr [[Some 255, Some 0], [Some 0, Some 255]]"
  by (simp add: heatmap_colors_def heat_vmax_def norm_val_def cmap_index_def)

theorem heatmap_top_color_witness:
  "heatmap_colors heat_matrix = Inr [[Some 255, Some 0], [Some 0, Some 255]] \<and>
   cells heat_matrix ! 0 ! 0 = Some 1 \<and> heat_vmax \<le> 1 \<and> Some 0 \<in> set (concat (cells heat_matrix)) \<and>
   (0 :: real) < heat_vmax \<and> [[Some 255, Some 0], [Some 0, Some (255 :: nat)]] ! 0 ! 0 = Some 255"
proof -
  have v: "heat_vmax \<le> 1" "(0 :: real) < heat_vmax" by (simp_all add: heat_vmax_def)
  have "[[Some 255, Some 0], [Some 0, Some (255 :: nat)]] ! 0 ! 0 = Some 255"
    using heatmap_top_color [OF heat_matrix_colors, of 0 0 1 0] v by simp
  with heat_matrix_colors v show ?thesis by simp
qed

theorem distplot_data_witness:
  "dropna [Some 1, None, Some (3 :: real)] \<noteq> [] \<and>
   1 \<le> hist_bins [1, 3] \<and> hist_bins [1, 3] \<le> 50 \<and>
   sum_list (hist_counts (hist_bins [1, 3]) [1, 3]) = 2 \<and>
   (\<exists>cv. kde_curve [Some 1, None, Some 3] = Some cv \<and> length cv = 200)"
proof -
  have n: "kde_curve [Some 1, None, Some 3] \<noteq> None"
    using distplot_data [of "[Some 1, None, Some 3]"] by simp
  then obtain cv where cv: "kde_curve [Some 1, None, Some 3] = Some cv" by blast
  show ?thesis
    using distplot_data [of "[Some 1, None, Some 3]" cv] cv by simp
qed

section \<open>Witnesses of the script theorems\<close>

lemma study_read: "read_csv study_fs ''train.csv'' = Inr study_frame"
  by (simp add: read_csv_eval)

lemma no_target_read:
  "read_csv no_target_fs ''train.csv'' =
     Inr \<lparr>index = [0], columns = [(''Id'', NumCol [Some 1]), (''Price'', NumCol [Some 2])]\<rparr>"
  by (simp add: read_csv_eval)

theorem script_wf_run_witness:
  "script_inv init_state \<and>
   run_steps study_fs [ReadCsv ''train.csv''] init_state = Inr (init_state\<lparr>df_train := Some study_frame\<rparr>) \<and>
   script_inv (init_state\<lparr>df_train := Some study_frame\<rparr>)"
proof -
  have i: "script_inv init_state" by (simp add: script_inv_def init_state_def)
  have r: "run_steps study_fs [ReadCsv ''train.csv''] init_state = Inr (init_state\<lparr>df_train := Some study_frame\<rparr>)"
    by (simp add: study_read)
  from script_wf_run [OF i r] i r show ?thesis by blast
qed

theorem scope_no_name_error_witness:
  "scope_ok (assigned_vars init_state) eda_steps \<and>
   run_steps study_fs eda_steps init_state \<noteq> Inl (NameError ''missing_data'') \<and>
   Audit \<notin> set [ReadCsv ''train.csv''] \<and> missing_data_var init_state = None \<and>
   (\<exists>e. run_steps study_fs ([ReadCsv ''train.csv''] @ Clean # [Check]) init_state = Inl e)"
proof -
  have a: "Audit \<notin> set [ReadCsv ''train.csv'']" and m: "missing_data_var init_state = None"
    by (simp_all add: init_state_def)
  have s: "scope_ok (assigned_vars init_state) eda_steps"
    by (simp add: assigned_vars_def init_state_def eda_steps_def)
  show ?thesis
    using scope_no_name_error [of init_state eda_steps study_fs "''missing_data''" "[ReadCsv ''train.csv'']" "[Check]"] a m s
    by blast
qed

theorem eda_script_no_target_witness:
  "map_of [(''Id'', NumCol [Some 1]), (''Price'', NumCol [Some 2])] ''SalePrice'' = None \<and>
   eda_script no_target_fs = Inl (KeyError ''SalePrice'')"
  using eda_script_no_target [OF no_target_read] by simp

theorem eda_script_runs_witness:
  "map_of (columns study_frame) ''SalePrice'' = Some (NumCol [Some 5, Some 5]) \<and>
   heatmap_colors (frame_corr study_frame) = Inr (replicate 5 (replicate 5 None)) \<and>
   clean study_frame = Inr study_frame \<and>
   (\<exists>s. eda_script study_fs = Inr s \<and> df_train s = Some study_frame \<and> length (shown s) = 13 \<and>
        last (shown s) = OutMax (max_missing study_frame))"
proof -
  have num: "\<forall>c\<in>set [''SalePrice'', ''GrLivArea'', ''TotalBsmtSF'', ''OverallQual'', ''YearBuilt''].
               \<exists>v. map_of (columns study_frame) c = Some (NumCol v)"
    by simp
  have h: "heatmap_colors (frame_corr study_frame) = Inr (replicate 5 (replicate 5 None))"
    by (simp add: heatmap_colors_def frame_corr_def lib_corr_def dev_sum_def mean_def Let_def
        numeral_eq_Suc)
  have c: "clean study_frame = Inr study_frame"
    by (simp add: clean_def missing_data_def total_series_def percent_def null_share_def
        nargsort_desc_def isnull_sum_def isnull_count_def high_missing_def drop_columns_def
        col_names_def null_labels_def get_column_def drop_rows_def Let_def)
  have "\<exists>cs. heatmap_colors (frame_corr study_frame) = Inr cs" using h by blast
  from eda_script_runs [OF study_read num this c] h c show ?thesis by simp
qed

section \<open>Witnesses of the warnings and module theorems\<close>

theorem filterwarnings_invariant_witness:
  "distinct (filters (python_startup [])) \<and>
   distinct (filters (filterwarnings Ignore [] Warning [] 0 False (python_startup []))) \<and>
   filter_matches (compile_filter Ignore [] Warning [] 0) ''x'' FutureWarning ''pandas'' 5 \<and>
   get_action (filters (filterwarnings Ignore [] Warning [] 0 False (python_startup []))) ''x'' FutureWarning ''pandas'' 5 = Ignore"
proof -
  have d: "distinct (filters (python_startup []))"
    by (simp add: python_startup_def init_warnings_def default_filters_def)
  have m: "filter_matches (compile_filter Ignore [] Warning [] 0) ''x'' FutureWarning ''pandas'' 5"
    by (simp add: compile_filter_def)
  show ?thesis
    using filterwarnings_invariant [OF d, of Ignore "[]" Warning "[]" 0 False "''x''" FutureWarning "''pandas''" 5] d m
    by simp
qed

theorem default_filters_shown_witness:
  "default_visible (WarningMsg FutureWarning ''x'' ''__main__'' 12) \<and>
   \<not> filter_matches (compile_filter Ignore [] DeprecationWarning [] 0) ''x'' FutureWarning ''__main__'' 12 \<and>
   (\<exists>st1 st2. warn_all [WarningMsg FutureWarning ''x'' ''__main__'' 12] (python_startup []) = Inr st1 \<and>
      warn_all [WarningMsg FutureWarning ''x'' ''__main__'' 12]
        (add_filter (compile_filter Ignore [] DeprecationWarning [] 0) False st1) = Inr st2 \<and>
      stderr_warnings st2 = [WarningMsg FutureWarning ''x'' ''__main__'' 12, WarningMsg FutureWarning ''x'' ''__main__'' 12]) \<and>
   (\<exists>st'. warn_all [WarningMsg FutureWarning ''x'' ''__main__'' 12, WarningMsg DeprecationWarning ''d'' ''pandas'' 7,
              WarningMsg FutureWarning ''x'' ''__main__'' 12] (python_startup []) = Inr st' \<and>
          stderr_warnings st' = [WarningMsg FutureWarning ''x'' ''__main__'' 12])"
proof -
  have v: "default_visible (WarningMsg FutureWarning ''x'' ''__main__'' 12)" by (simp add: issubclass_def)
  have nm: "\<not> filter_matches (compile_filter Ignore [] DeprecationWarning [] 0) ''x'' FutureWarning ''__main__'' 12"
    by (simp add: compile_filter_def issubclass_def)
  have f: "rev (remdups (rev (filter default_visible [WarningMsg FutureWarning ''x'' ''__main__'' 12,
      WarningMsg DeprecationWarning ''d'' ''pandas'' 7, WarningMsg FutureWarning ''x'' ''__main__'' 12]))) =
      [WarningMsg FutureWarning ''x'' ''__main__'' 12]"
    by (simp add: issubclass_def)
  show ?thesis
    using default_filters_shown [of "[WarningMsg FutureWarning ''x'' ''__main__'' 12,
      WarningMsg DeprecationWarning ''d'' ''pandas'' 7, WarningMsg FutureWarning ''x'' ''__main__'' 12]"
      FutureWarning "''x''" "''__main__''" 12 "compile_filter Ignore [] DeprecationWarning [] 0" False] v nm f
    by simp
qed

theorem import_errors_witness:
  "find (\<lambda>(k, i). top_package (import_module i) \<notin> set [''pandas'', ''matplotlib'', ''numpy'', ''scipy'', ''sklearn'', ''warnings''])
      import_lines = Some (3, ImportAs ''seaborn'' ''sns'') \<and>
   run_module [''pandas'', ''matplotlib'', ''numpy'', ''scipy'', ''sklearn'', ''warnings''] (\<lambda>k. []) (\<lambda>st. []) Map.empty []
     eda_steps = Inl (ModuleNotFoundError ''seaborn'') \<and>
   list_all (\<lambda>(k, i). top_package (import_module i) \<in> set [''pandas'', ''matplotlib'', ''seaborn'', ''numpy'', ''scipy'', ''sklearn'', ''warnings''])
     import_lines \<and>
   (3::nat) \<in> set (map fst import_lines) \<and>
   run_module [''pandas'', ''matplotlib'', ''seaborn'', ''numpy'', ''scipy'', ''sklearn'', ''warnings'']
     (\<lambda>k. if k = 3 then [WarningMsg UserWarning ''s'' ''seaborn'' 40] else []) (\<lambda>st. []) Map.empty
     [compile_filter Error [] Warning [] 0] eda_steps = Inl (WarningRaised UserWarning ''s'')"
proof -
  have f: "find (\<lambda>(k, i). top_package (import_module i) \<notin> set [''pandas'', ''matplotlib'', ''numpy'', ''scipy'', ''sklearn'', ''warnings''])
      import_lines = Some (3, ImportAs ''seaborn'' ''sns'')"
    by (simp add: import_lines_def top_package_def)
  have a: "list_all (\<lambda>(k, i). top_package (import_module i) \<in> set [''pandas'', ''matplotlib'', ''seaborn'', ''numpy'', ''scipy'', ''sklearn'', ''warnings''])
     import_lines \<and> (3::nat) \<in> set (map fst import_lines)"
    by (simp add: import_lines_def top_package_def)
  show ?thesis
    using import_errors [where inst = "[''pandas'', ''matplotlib'', ''numpy'', ''scipy'', ''sklearn'', ''warnings'']"
        and k = 3 and i = "ImportAs ''seaborn'' ''sns''" and imp = "\<lambda>k. []" and lib = "\<lambda>st. []"
        and fs = Map.empty and sts = eda_steps]
      import_errors [where inst = "[''pandas'', ''matplotlib'', ''seaborn'', ''numpy'', ''scipy'', ''sklearn'', ''warnings'']"
        and j = 3 and c = UserWarning and t = "''s''" and m = "''seaborn''" and n = 40 and lib = "\<lambda>st. []"
        and fs = Map.empty and sts = eda_steps] f a
    by (simp add: top_package_def)
qed


theorem module_refines_script_witness:
  "map_sum id mod_script
     (run_module [''pandas'', ''matplotlib'', ''seaborn'', ''numpy'', ''scipy'', ''sklearn'', ''warnings'']
        (\<lambda>k. []) (\<lambda>st. [WarningMsg FutureWarning ''f'' ''__main__'' 12]) Map.empty
        [compile_filter Error [] Warning [] 0] shipped_steps) = Inl (FileNotFoundError ''train.csv'') \<and>
   (\<exists>ms ms'.
      run_imports [''pandas'', ''matplotlib'', ''seaborn'', ''numpy'', ''scipy'', ''sklearn'', ''warnings'']
        (\<lambda>k. if k = 1 then [WarningMsg FutureWarning ''w'' ''pandas'' 1] else []) import_lines
        (fresh_module []) = Inr ms \<and>
      run_module [''pandas'', ''matplotlib'', ''seaborn'', ''numpy'', ''scipy'', ''sklearn'', ''warnings'']
        (\<lambda>k. if k = 1 then [WarningMsg FutureWarning ''w'' ''pandas'' 1] else [])
        (\<lambda>st. [WarningMsg FutureWarning ''f'' ''__main__'' 12]) Map.empty [] [] = Inr ms' \<and>
      stderr_warnings (mod_warnings ms') = [WarningMsg FutureWarning ''w'' ''pandas'' 1])"
proof (rule conjI)
  let ?pk = "[''pandas'', ''matplotlib'', ''seaborn'', ''numpy'', ''scipy'', ''sklearn'', ''warnings'']"
  let ?imp = "\<lambda>k::nat. if k = 1 then [WarningMsg FutureWarning ''w'' ''pandas'' 1] else []"
  let ?lib = "\<lambda>st::step. [WarningMsg FutureWarning ''f'' ''__main__'' 12]"
  have i1: "\<exists>ms. run_imports ?pk (\<lambda>k. []) import_lines (fresh_module [compile_filter Error [] Warning [] 0]) = Inr ms"
    by (simp add: import_lines_def exec_import_def top_package_def)
  then obtain ms1 where ms1: "run_imports ?pk (\<lambda>k. []) import_lines (fresh_module [compile_filter Error [] Warning [] 0]) = Inr ms1"
    by blast
  have r1: "run_steps Map.empty shipped_steps init_state = Inl (FileNotFoundError ''train.csv'')"
    by (simp add: shipped_steps_def read_csv_def)
  show "map_sum id mod_script (run_module ?pk (\<lambda>k. []) ?lib Map.empty [compile_filter Error [] Warning [] 0] shipped_steps) =
      Inl (FileNotFoundError ''train.csv'')"
    using module_refines_script [where inst = ?pk and imp = "\<lambda>k. []" and lib = ?lib and fs = Map.empty
        and opts = "[compile_filter Error [] Warning [] 0]" and sts = shipped_steps] ms1 r1
    by simp
  have "\<exists>ms. run_imports ?pk ?imp import_lines (fresh_module []) = Inr ms \<and>
      stderr_warnings (mod_warnings ms) = [WarningMsg FutureWarning ''w'' ''pandas'' 1]"
    by (simp add: import_lines_def exec_import_def top_package_def fresh_module_def python_startup_def
        init_warnings_def warn_explicit_def default_filters_def empty_registry_def issubclass_def
        set_registry_def show_warning_def Let_def)
  then obtain ms where ms: "run_imports ?pk ?imp import_lines (fresh_module []) = Inr ms"
    "stderr_warnings (mod_warnings ms) = [WarningMsg FutureWarning ''w'' ''pandas'' 1]" by blast
  have m: "run_module ?pk ?imp ?lib Map.empty [] [] = Inr (line9 ms)"
    using ms(1) by (simp add: run_module_def)
  show "\<exists>ms ms'. run_imports ?pk ?imp import_lines (fresh_module []) = Inr ms \<and>
      run_module ?pk ?imp ?lib Map.empty [] [] = Inr ms' \<and>
      stderr_warnings (mod_warnings ms') = [WarningMsg FutureWarning ''w'' ''pandas'' 1]"
    using module_refines_script [where inst = ?pk and imp = ?imp and lib = ?lib and fs = Map.empty
        and opts = "[]" and sts = "[]" and ms = ms and ms' = "line9 ms"] ms m
    by auto
qed

end
